(* ===== verification/Go_Prelude.thy ===== *)
theory Go_Prelude
  imports Main "HOL-Library.Word" "HOL-Library.Multiset"
    "HOL-Library.List_Lexorder" "HOL-Library.Char_ord"
begin

text \<open>
  Shared vocabulary of the development: Go strings (byte sequences) with the two functions of
  package \<^verbatim>\<open>strings\<close> that every component calls, instants, the error values of
  \<^verbatim>\<open>internal/application/errors\<close> and of the repositories, association lists for Go maps that
  are filled by loops, and the generic lemmas on lists that the components share.
\<close>

section \<open>Collections of rules\<close>

named_theorems go_defs \<open>definitions that unfold to plain Go expressions\<close>
named_theorems go_dest \<open>what a successful or failed call tells about its arguments\<close>

section \<open>Strings\<close>

text \<open>
  A Go string is a sequence of bytes; here a \<^typ>\<open>string\<close>, one \<^typ>\<open>char\<close> per byte.
  \<^verbatim>\<open>strings.TrimSpace\<close> removes leading and trailing runes with \<^verbatim>\<open>unicode.IsSpace\<close>: six ASCII
  bytes, U+0085 and U+00A0 (two bytes in UTF-8), U+1680, U+2000 to U+200A, U+2028, U+2029, U+202F,
  U+205F and U+3000 (three bytes).
\<close>

definition byte_of :: "char \<Rightarrow> nat" where
  "byte_of c = of_char c"

definition space1 :: "char \<Rightarrow> bool" where
  "space1 a = (byte_of a \<in> {9, 10, 11, 12, 13, 32})"

definition space2 :: "char \<Rightarrow> char \<Rightarrow> bool" where
  "space2 a b = (byte_of a = 194 \<and> byte_of b \<in> {133, 160})"

definition space3 :: "char \<Rightarrow> char \<Rightarrow> char \<Rightarrow> bool" where
  "space3 a b c =
     ((byte_of a = 225 \<and> byte_of b = 154 \<and> byte_of c = 128) \<or>
      (byte_of a = 226 \<and> byte_of b = 128 \<and>
        ((128 \<le> byte_of c \<and> byte_of c \<le> 138) \<or> byte_of c \<in> {168, 169, 175})) \<or>
      (byte_of a = 226 \<and> byte_of b = 129 \<and> byte_of c = 159) \<or>
      (byte_of a = 227 \<and> byte_of b = 128 \<and> byte_of c = 128))"

fun trim_left :: "string \<Rightarrow> string" where
  "trim_left [] = []"
| "trim_left [a] = (if space1 a then [] else [a])"
| "trim_left [a, b] =
     (if space1 a then trim_left [b] else if space2 a b then [] else [a, b])"
| "trim_left (a # b # c # s) =
     (if space1 a then trim_left (b # c # s)
      else if space2 a b then trim_left (c # s)
      else if space3 a b c then trim_left s
      else a # b # c # s)"

text \<open>The same on the reversed string, so that the last rune is read backwards.\<close>

fun trim_right_rev :: "string \<Rightarrow> string" where
  "trim_right_rev [] = []"
| "trim_right_rev [a] = (if space1 a then [] else [a])"
| "trim_right_rev [b, a] =
     (if space1 b then trim_right_rev [a] else if space2 a b then [] else [b, a])"
| "trim_right_rev (c # b # a # s) =
     (if space1 c then trim_right_rev (b # a # s)
      else if space2 b c then trim_right_rev (a # s)
      else if space3 a b c then trim_right_rev s
      else c # b # a # s)"

definition trim_space :: "string \<Rightarrow> string" where
  "trim_space s = rev (trim_right_rev (rev (trim_left s)))"

text \<open>The test \<^verbatim>\<open>strings.TrimSpace(s) == ""\<close>.\<close>

abbreviation blank :: "string \<Rightarrow> bool" where
  "blank s \<equiv> trim_space s = []"

text \<open>
  \<^verbatim>\<open>strings.ToLower\<close> on the bytes of an ASCII string; the two non-ASCII code points whose
  lower case is an ASCII letter (U+0130, two bytes, and U+212A, three bytes) are mapped to that
  letter, and the bytes of every other non-ASCII rune are kept: its lower case is not ASCII either,
  so a comparison of the result with an ASCII literal has the same outcome. Every use in the code is
  such a comparison.
\<close>

definition lower_byte :: "char \<Rightarrow> char" where
  "lower_byte c = (if 65 \<le> byte_of c \<and> byte_of c \<le> 90 then char_of (byte_of c + 32) else c)"

fun to_lower :: "string \<Rightarrow> string" where
  "to_lower [] = []"
| "to_lower [a] = [lower_byte a]"
| "to_lower [a, b] =
     (if byte_of a = 196 \<and> byte_of b = 176 then ''i'' else lower_byte a # to_lower [b])"
| "to_lower (a # b # c # s) =
     (if byte_of a = 196 \<and> byte_of b = 176 then CHR ''i'' # to_lower (c # s)
      else if byte_of a = 226 \<and> byte_of b = 132 \<and> byte_of c = 170 then CHR ''k'' # to_lower s
      else lower_byte a # to_lower (b # c # s))"

text \<open>
  \<^verbatim>\<open>strings.ToUpper\<close> in the same way: the code points whose upper case is an ASCII letter are U+0131 and U+017F, of two
  bytes each.
\<close>

definition upper_byte :: "char \<Rightarrow> char" where
  "upper_byte c = (if 97 \<le> byte_of c \<and> byte_of c \<le> 122 then char_of (byte_of c - 32) else c)"

fun to_upper :: "string \<Rightarrow> string" where
  "to_upper [] = []"
| "to_upper [a] = [upper_byte a]"
| "to_upper (a # b # s) =
     (if byte_of a = 196 \<and> byte_of b = 177 then CHR ''I'' # to_upper s
      else if byte_of a = 197 \<and> byte_of b = 191 then CHR ''S'' # to_upper s
      else upper_byte a # to_upper (b # s))"

text \<open>\<^verbatim>\<open>fmt.Sprintf("%d", n)\<close>\<close>

fun digits :: "nat \<Rightarrow> string" where
  "digits n = (if n < 10 then [char_of (48 + n)] else digits (n div 10) @ [char_of (48 + n mod 10)])"

declare digits.simps [simp del]

definition decimal :: "int \<Rightarrow> string" where
  "decimal n = (if n < 0 then ''-'' @ digits (nat (- n)) else digits (nat n))"

section \<open>Instants\<close>

text \<open>
  A \<^verbatim>\<open>time.Time\<close> is the number of nanoseconds since the zero instant of Go (1 January of year 1,
  UTC), so \<^verbatim>\<open>t.IsZero()\<close> is \<open>t = 0\<close>, \<^verbatim>\<open>t.UTC()\<close> is the identity and a
  \<^verbatim>\<open>time.Duration\<close> is a difference of instants. A pointer field is an \<^typ>\<open>'a option\<close>.
\<close>

type_synonym time = int
type_synonym duration = int

abbreviation is_zero :: "time \<Rightarrow> bool" where
  "is_zero t \<equiv> t = 0"

abbreviation minutes :: "int \<Rightarrow> duration" where
  "minutes n \<equiv> n * 60000000000"

abbreviation hours :: "int \<Rightarrow> duration" where
  "hours n \<equiv> n * 3600000000000"

section \<open>Errors\<close>

text \<open>The codes of \<^verbatim>\<open>internal/application/errors\<close> and the kinds of repository errors.\<close>

datatype app_code =
    CodeValidation | CodeNotFound | CodeForbidden | CodeUnauthenticated | CodeConflict
  | CodeIdempotencyConflict | CodeStaleResource | CodeInvalidState | CodeExternalDependency
  | CodeNotImplemented

datatype repo_kind =
    RepositoryNotFound | RepositoryConflict | RepositoryStale | RepositoryInvalid

text \<open>
  Error values. \<open>AppError\<close> is \<^verbatim>\<open>*errors.Error\<close> (its field \<^verbatim>\<open>Field\<close> is never set by the code
  modelled here), \<open>RepositoryError\<close> is \<^verbatim>\<open>*postgres.RepositoryError\<close>, \<open>Wrapped\<close> is
  \<^verbatim>\<open>fmt.Errorf("...: %w", err)\<close>, \<open>ErrNoRows\<close> is \<^verbatim>\<open>pgx.ErrNoRows\<close>, \<open>PgError\<close> a server error
  with its SQLSTATE, and \<open>PlainError\<close> any other error by its text.
\<close>

datatype go_error =
    AppError app_code string bool "go_error option"
  | RepositoryError string repo_kind go_error
  | Wrapped string go_error
  | PlainError string
  | ErrNoRows
  | PgError string

type_synonym 'a result = "go_error + 'a"

definition app_error :: "app_code \<Rightarrow> string \<Rightarrow> go_error" where
  "app_error code message = AppError code message False None"

definition not_implemented :: go_error where
  "not_implemented = app_error CodeNotImplemented ''application use case is not wired yet''"

fun is_no_rows :: "go_error \<Rightarrow> bool" where
  "is_no_rows ErrNoRows = True"
| "is_no_rows (RepositoryError _ _ e) = is_no_rows e"
| "is_no_rows (Wrapped _ e) = is_no_rows e"
| "is_no_rows (AppError _ _ _ (Some e)) = is_no_rows e"
| "is_no_rows _ = False"

text \<open>\<^verbatim>\<open>errors.Is(err, target)\<close> along the chain of wrapped errors.\<close>

fun error_is :: "go_error \<Rightarrow> go_error \<Rightarrow> bool" where
  "error_is target (RepositoryError op k e) = (RepositoryError op k e = target \<or> error_is target e)"
| "error_is target (Wrapped t e) = (Wrapped t e = target \<or> error_is target e)"
| "error_is target (AppError c m r (Some e)) = (AppError c m r (Some e) = target \<or> error_is target e)"
| "error_is target e = (e = target)"

text \<open>The SQLSTATE that \<^verbatim>\<open>errors.As(err, &pgErr)\<close> finds along the chain.\<close>

fun pg_code :: "go_error \<Rightarrow> string option" where
  "pg_code (PgError c) = Some c"
| "pg_code (RepositoryError _ _ e) = pg_code e"
| "pg_code (Wrapped _ e) = pg_code e"
| "pg_code (AppError _ _ _ (Some e)) = pg_code e"
| "pg_code _ = None"

text \<open>The kind that \<^verbatim>\<open>errors.As(err, &classified)\<close> finds for the interface with \<^verbatim>\<open>ErrorKind()\<close>.\<close>

fun repository_kind :: "go_error \<Rightarrow> repo_kind option" where
  "repository_kind (RepositoryError _ k _) = Some k"
| "repository_kind (Wrapped _ e) = repository_kind e"
| "repository_kind (AppError _ _ _ (Some e)) = repository_kind e"
| "repository_kind _ = None"

section \<open>Calls in sequence\<close>

text \<open>
  A computation that reads and extends a state and may return an error: the shape of a Go method
  whose calls are separated by \<^verbatim>\<open>if err != nil { return err }\<close>.
\<close>

type_synonym ('s, 'a) run = "'s \<Rightarrow> 'a result \<times> 's"

definition run_return :: "'a \<Rightarrow> ('s, 'a) run" where
  "run_return x s = (Inr x, s)"

definition run_fail :: "go_error \<Rightarrow> ('s, 'a) run" where
  "run_fail e s = (Inl e, s)"

definition run_bind :: "('s, 'a) run \<Rightarrow> ('a \<Rightarrow> ('s, 'b) run) \<Rightarrow> ('s, 'b) run" where
  "run_bind m f s = (case m s of (Inl e, s') \<Rightarrow> (Inl e, s') | (Inr x, s') \<Rightarrow> f x s')"

text \<open>A call whose error is ignored: \<^verbatim>\<open>_ = f()\<close>.\<close>

definition run_ignore :: "('s, 'a) run \<Rightarrow> ('s, unit) run" where
  "run_ignore m s = (Inr (), snd (m s))"

definition wrap_result :: "string \<Rightarrow> 'a result \<Rightarrow> 'a result" where
  "wrap_result text r = (case r of Inl e \<Rightarrow> Inl (Wrapped text e) | Inr x \<Rightarrow> Inr x)"

definition run_wrap :: "string \<Rightarrow> ('s, 'a) run \<Rightarrow> ('s, 'a) run" where
  "run_wrap text m s = (case m s of (r, s') \<Rightarrow> (wrap_result text r, s'))"

lemma run_bind_Inr:
  "run_bind m f s = (Inr y, s') \<longleftrightarrow> (\<exists>x s1. m s = (Inr x, s1) \<and> f x s1 = (Inr y, s'))"
  by (auto simp: run_bind_def split: prod.splits sum.splits)

text \<open>A reader after a writer leaves the state as the writer did.\<close>

lemma snd_run_bind_reader: "(\<And>x s. snd (f x s) = s) \<Longrightarrow> snd (run_bind m f s) = snd (m s)"
  by (auto simp: run_bind_def split: prod.splits sum.splits)

lemma wrap_result_Inr [simp]: "wrap_result text r = Inr x \<longleftrightarrow> r = Inr x"
  by (auto simp: wrap_result_def split: sum.splits)

lemma run_wrap_Inr: "run_wrap text m s = (Inr x, s') \<longleftrightarrow> m s = (Inr x, s')"
  by (auto simp: run_wrap_def split: prod.splits)

lemma run_return_eq: "run_return x s = (Inr y, s') \<longleftrightarrow> y = x \<and> s' = s"
  by (auto simp: run_return_def)

lemma run_fail_eq: "run_fail e s = (r, s') \<longleftrightarrow> r = Inl e \<and> s' = s"
  by (auto simp: run_fail_def)

lemma run_ignore_eq: "run_ignore m s = (r, s') \<longleftrightarrow> r = Inr () \<and> s' = snd (m s)"
  by (auto simp: run_ignore_def)

lemmas run_rules = run_bind_Inr run_wrap_Inr run_return_eq run_fail_eq run_ignore_eq

section \<open>Lists filtered and updated by a key\<close>

text \<open>
  A table is a list of rows. An \<^verbatim>\<open>UPDATE ... WHERE p\<close> maps the rows that satisfy \<open>p\<close>; the
  lookups and the frame of such an update are the facts every store needs.
\<close>

definition update_where :: "('a \<Rightarrow> bool) \<Rightarrow> ('a \<Rightarrow> 'a) \<Rightarrow> 'a list \<Rightarrow> 'a list" where
  "update_where p f rows = map (\<lambda>r. if p r then f r else r) rows"

lemma length_update_where [simp]: "length (update_where p f rows) = length rows"
  by (simp add: update_where_def)

lemma update_where_Nil [simp]: "update_where p f [] = []"
  by (simp add: update_where_def)

lemma update_where_Cons [simp]:
  "update_where p f (r # rows) = (if p r then f r else r) # update_where p f rows"
  by (simp add: update_where_def)

lemma map_key_update_where:
  "(\<And>r. p r \<Longrightarrow> key (f r) = key r) \<Longrightarrow> map key (update_where p f rows) = map key rows"
  by (induction rows) auto

lemma in_update_whereE:
  assumes "x \<in> set (update_where p f rows)"
  obtains r where "r \<in> set rows" "x = (if p r then f r else r)"
  using assms by (auto simp: update_where_def)

lemma update_where_none: "\<forall>r \<in> set rows. \<not> p r \<Longrightarrow> update_where p f rows = rows"
  by (induction rows) auto

lemma find_update_where_hit:
  assumes "distinct (map key rows)" and "r \<in> set rows" and "key (f r) = key r" and "p r"
    and only: "\<And>x. p x \<Longrightarrow> key x = key r"
  shows "find (\<lambda>x. key x = key r) (update_where p f rows) = Some (f r)"
  using assms(1,2)
proof (induction rows)
  case Nil
  then show ?case by simp
next
  case (Cons a rows)
  show ?case
  proof (cases "key a = key r")
    case True
    with Cons.prems have "a = r" by auto
    with assms(3,4) show ?thesis by simp
  next
    case False
    with only have "\<not> p a" by blast
    with False Cons show ?thesis by auto
  qed
qed

lemma find_update_where_other:
  "(\<And>x. p x \<Longrightarrow> key (f x) = key x) \<Longrightarrow> (\<And>x. p x \<Longrightarrow> key x \<noteq> k) \<Longrightarrow>
     find (\<lambda>x. key x = k) (update_where p f rows) = find (\<lambda>x. key x = k) rows"
  by (induction rows) auto

lemma find_key_iff:
  "distinct (map key rows) \<Longrightarrow> find (\<lambda>x. key x = k) rows = Some r \<longleftrightarrow> r \<in> set rows \<and> key r = k"
  by (induction rows) (auto simp: image_iff)

section \<open>Go maps\<close>

text \<open>
  A Go map from strings is the list of its entries in key order, so that equal maps are equal lists
  (\<^verbatim>\<open>reflect.DeepEqual\<close>) and \<^verbatim>\<open>len\<close> is the length. Assignment inserts at the key's place.
\<close>

fun map_put :: "'k::linorder \<Rightarrow> 'v \<Rightarrow> ('k \<times> 'v) list \<Rightarrow> ('k \<times> 'v) list" where
  "map_put k v [] = [(k, v)]"
| "map_put k v ((k', v') # m) =
     (if k < k' then (k, v) # (k', v') # m
      else if k = k' then (k, v) # m
      else (k', v') # map_put k v m)"

abbreviation map_wf :: "('k::linorder \<times> 'v) list \<Rightarrow> bool" where
  "map_wf m \<equiv> sorted_wrt (<) (map fst m)"

lemma map_of_map_put [simp]: "map_of (map_put k v m) = (map_of m)(k \<mapsto> v)"
  by (induction m) (auto simp: fun_eq_iff)

lemma keys_map_put [simp]: "fst ` set (map_put k v m) = insert k (fst ` set m)"
  by (induction k v m rule: map_put.induct) (simp_all add: insert_commute)

lemma map_put_not_Nil [simp]: "map_put k v m \<noteq> []"
  by (induction k v m rule: map_put.induct) simp_all

lemma map_wf_put: "map_wf m \<Longrightarrow> map_wf (map_put k v m)"
proof (induction m)
  case Nil
  then show ?case by simp
next
  case (Cons e m)
  obtain k' v' where e: "e = (k', v')" by force
  from Cons.prems e have wf: "map_wf m" and lt: "\<forall>x \<in> fst ` set m. k' < x" by auto
  consider "k < k'" | "k = k'" | "k' < k" by (rule linorder_cases)
  then show ?case
  proof cases
    case 1
    with e wf lt show ?thesis by auto
  next
    case 2
    with e wf lt show ?thesis by auto
  next
    case 3
    with lt have "\<forall>x \<in> fst ` set (map_put k v m). k' < x" by simp
    with 3 e wf Cons.IH show ?thesis by auto
  qed
qed

lemma map_wf_distinct: "map_wf m \<Longrightarrow> distinct (map fst m)"
  by (simp add: strict_sorted_iff)

lemma map_wf_keys_sorted: "map_wf m \<Longrightarrow> sort (map fst m) = map fst m"
  by (simp add: strict_sorted_iff sorted_sort_id)

text \<open>Filling a map from a list of entries: later entries win, the keys are those of both.\<close>

abbreviation map_fill :: "('k::linorder \<times> 'v) list \<Rightarrow> ('k \<times> 'v) list \<Rightarrow> ('k \<times> 'v) list" where
  "map_fill entries m \<equiv> fold (\<lambda>(k, v). map_put k v) entries m"

lemma map_of_map_fill: "map_of (map_fill es m) = map_of m ++ map_of (rev es)"
  by (induction es arbitrary: m) (auto simp: map_add_def fun_eq_iff split: option.splits)

lemma map_wf_fill: "map_wf m \<Longrightarrow> map_wf (map_fill es m)"
  by (induction es arbitrary: m) (auto simp: map_wf_put)

lemma keys_map_fill: "fst ` set (map_fill es m) = fst ` set es \<union> fst ` set m"
  by (induction es arbitrary: m) (simp_all add: split_beta)

lemma map_of_rev_wf: "distinct (map fst m) \<Longrightarrow> map_of (rev m) = map_of m"
proof (induction m)
  case Nil
  then show ?case by simp
next
  case (Cons e m)
  then have "map_of m (fst e) = None" by (simp add: map_of_eq_None_iff)
  with Cons show ?case by (auto simp: map_add_def fun_eq_iff split: option.splits)
qed

lemma fold_map_put_fill: "fold (\<lambda>x. map_put (f x) (g x)) xs m = map_fill (map (\<lambda>x. (f x, g x)) xs) m"
  by (induction xs arbitrary: m) auto

lemma map_filter_entries:
  "(\<And>e. e \<in> set es \<Longrightarrow> f (fst e) = Some (snd e)) \<Longrightarrow> List.map_filter f (map fst es) = map snd es"
  by (induction es) auto

lemma map_filter_keys: "map_wf m \<Longrightarrow> List.map_filter (map_of m) (sort (map fst m)) = map snd m"
  by (simp add: map_wf_keys_sorted map_filter_entries map_wf_distinct)

lemma sum_list_update_add:
  fixes f :: "'a \<Rightarrow> 'b::cancel_comm_monoid_add"
  shows "i < length xs \<Longrightarrow> sum_list (map f (xs[i := y])) + f (xs ! i) = sum_list (map f xs) + f y"
proof (induction xs arbitrary: i)
  case Nil
  then show ?case by simp
next
  case (Cons x xs)
  then show ?case by (cases i) (auto simp: ac_simps)
qed

section \<open>64-bit integers\<close>

text \<open>Go's \<^verbatim>\<open>int\<close> where overflow matters: sums and differences within range do not wrap.\<close>

lemma sint64_range: "- (2 ^ 63) \<le> sint (x :: 64 word)" "sint (x :: 64 word) < 2 ^ 63"
  using sint_ge [of x] sint_lt [of x] by simp_all

lemma sint64_of_int: "- (2 ^ 63) \<le> i \<Longrightarrow> i < 2 ^ 63 \<Longrightarrow> sint (word_of_int i :: 64 word) = i"
  by (simp add: sint_sbintrunc' signed_take_bit_int_eq_self)

lemma sint64_sub:
  "- (2 ^ 63) \<le> sint a - sint b \<Longrightarrow> sint a - sint b < 2 ^ 63 \<Longrightarrow>
     sint (a - b :: 64 word) = sint a - sint b"
  by (simp add: sint_word_ariths signed_take_bit_int_eq_self)

section \<open>Generic facts\<close>

lemma find_SomeD: "find p xs = Some x \<Longrightarrow> x \<in> set xs \<and> p x"
  by (auto simp: find_Some_iff)

lemma notin_image_iff: "k \<notin> f ` S \<longleftrightarrow> (\<forall>x \<in> S. f x \<noteq> k)"
  by auto

lemma set_map_filter: "set (List.map_filter f xs) = {y. \<exists>x \<in> set xs. f x = Some y}"
  by (auto simp: List.map_filter_def image_iff) force

lemma map_filter_append: "List.map_filter f (xs @ ys) = List.map_filter f xs @ List.map_filter f ys"
  by (simp add: List.map_filter_def)

lemma filter_eq_ConsD: "filter P xs = y # ys \<Longrightarrow> P y"
  by (auto simp: filter_eq_Cons_iff)

text \<open>What trimming leaves is a part of the string; trimming twice is trimming once.\<close>

lemma trim_left_suffix: "\<exists>p. s = p @ trim_left s"
  by (induction s rule: trim_left.induct) (auto simp del: append.simps(2) intro: exI [of _ "[]"],
      (metis append_Cons append_Nil)+)

end
