(* ===== verification/Authorization.thy ===== *)
theory Authorization
  imports Go_Prelude
begin

text \<open>
  Who may do what: \<^verbatim>\<open>internal/application/authorization\<close> (the permission names, the table from
  operations to permissions, normalisation and granting of permissions, access to conversations),
  the team roles of \<^verbatim>\<open>services/team_roles.go\<close> and the check of the merchant's AI policy in
  \<^verbatim>\<open>services/business_ai_guard.go\<close>.
\<close>

section \<open>Actors and conversations\<close>

record actor_context =
  ac_PrincipalID :: string
  ac_BusinessID :: string
  ac_Role :: string
  ac_Permissions :: "string list"

record conversation_record =
  cv_AssigneeDisplayName :: "string option"
  cv_Channel :: "string option"
  cv_LastMessageText :: "string option"
  cv_LastMessageContentType :: "string option"
  cv_LastMessageDirection :: "string option"
  cv_LastMessageOrigin :: "string option"
  cv_LastMessageAuthorName :: "string option"
  cv_UnreadCount :: int
  cv_ID :: string
  cv_BusinessID :: string
  cv_CustomerID :: string
  cv_CustomerDisplayName :: "string option"
  cv_State :: string
  cv_Ownership :: string
  cv_AIModeOverride :: "string option"
  cv_Priority :: string
  cv_AssignmentReference :: "string option"
  cv_ResourceVersion :: int
  cv_LastActivityAt :: time
  cv_LastGeminiInteractionID :: "string option"

record conversation_access =
  ca_PrincipalID :: string
  ca_Supervisor :: bool

section \<open>Permissions\<close>

definition permission_all :: string where "permission_all = ''*''"
definition conversations_read :: string where "conversations_read = ''conversations:read''"
definition conversations_reply :: string where "conversations_reply = ''conversations:reply''"
definition conversations_assign :: string where "conversations_assign = ''conversations:assign''"
definition team_read :: string where "team_read = ''team:read''"
definition team_manage :: string where "team_manage = ''team:manage''"

lemmas permission_names [go_defs] =
  permission_all_def conversations_read_def conversations_reply_def conversations_assign_def
  team_read_def team_manage_def

text \<open>The keys of the map \<^verbatim>\<open>knownPermissions\<close>.\<close>

definition known_permissions :: "string list" where
  "known_permissions =
    [''business:read'', ''dashboard:read'', team_read, team_manage,
     conversations_read, conversations_reply, conversations_assign,
     ''customers:read'', ''customers:write'', ''catalog:read'', ''catalog:write'',
     ''sales:read'', ''sales:write'', ''sales:approve'',
     ''channels:read'', ''channels:manage'', ''business:settings'',
     ''automation:read'', ''automation:manage'', ''audit:read'', ''merchant_ai:use'']"





text \<open>
  \<^verbatim>\<open>NormalizePermissions\<close>: the loop collects the trimmed, lower-case names in the map \<^verbatim>\<open>seen\<close>
  (its keys are the list \<open>seen\<close>) and returns at once on a wildcard or an unknown name; the keys
  are then sorted. \<open>None\<close> is \<^verbatim>\<open>(nil, false)\<close>.
\<close>

definition normalize_name :: "string \<Rightarrow> string" where
  "normalize_name value = to_lower (trim_space value)"

fun collect_permissions :: "string list \<Rightarrow> string list \<Rightarrow> string list option" where
  "collect_permissions [] seen = Some seen"
| "collect_permissions (value # vs) seen =
     (let permission = normalize_name value in
      if permission = permission_all then None
      else if permission \<notin> set known_permissions then None
      else collect_permissions vs (List.insert permission seen))"

definition normalize_permissions :: "string list \<Rightarrow> string list option" where
  "normalize_permissions vs = map_option sort (collect_permissions vs [])"

fun has_in :: "string list \<Rightarrow> string \<Rightarrow> bool" where
  "has_in [] permission = False"
| "has_in (granted # rest) permission =
     (if granted = permission_all \<or> granted = permission then True else has_in rest permission)"

definition has_permission :: "actor_context \<Rightarrow> string \<Rightarrow> bool" where
  "has_permission actor permission = has_in (ac_Permissions actor) permission"

fun can_grant :: "actor_context \<Rightarrow> string list \<Rightarrow> bool" where
  "can_grant actor [] = True"
| "can_grant actor (permission # requested) =
     (if \<not> has_permission actor permission then False else can_grant actor requested)"

section \<open>Team roles\<close>

definition normalize_team_role :: "string \<Rightarrow> string" where
  "normalize_team_role role = to_lower (trim_space role)"

definition valid_team_role :: "string \<Rightarrow> bool" where
  "valid_team_role role =
     (normalize_team_role role \<in> {''owner'', ''admin'', ''manager'', ''agent'', ''analyst'', ''viewer''})"

definition can_manage_team :: "string \<Rightarrow> bool" where
  "can_manage_team role = (let r = normalize_team_role role in r = ''owner'' \<or> r = ''admin'')"

definition can_receive_conversation_assignment :: "string \<Rightarrow> bool" where
  "can_receive_conversation_assignment role =
     (let r = normalize_team_role role
      in r = ''owner'' \<or> r = ''admin'' \<or> r = ''manager'' \<or> r = ''agent'')"

definition can_assign_conversations :: "string \<Rightarrow> bool" where
  "can_assign_conversations role = can_receive_conversation_assignment role"

section \<open>Access to conversations\<close>

definition conversation_access_of :: "actor_context \<Rightarrow> conversation_access" where
  "conversation_access_of actor =
     (let role = to_lower (trim_space (ac_Role actor))
      in \<lparr>ca_PrincipalID = ac_PrincipalID actor,
          ca_Supervisor = (role = ''owner'' \<or> role = ''admin'' \<or> role = ''manager'')\<rparr>)"

definition conversation_assigned :: "conversation_record \<Rightarrow> bool" where
  "conversation_assigned r =
     (cv_Ownership r = ''human'' \<and>
      (case cv_AssignmentReference r of None \<Rightarrow> False | Some a \<Rightarrow> \<not> blank a))"

text \<open>
  \<^verbatim>\<open>*record.AssignmentReference == string(actor.PrincipalID)\<close>. The code evaluates it only behind
  \<^verbatim>\<open>ConversationAssigned(record)\<close>, where the pointer is not nil.
\<close>

definition assigned_to :: "conversation_record \<Rightarrow> string \<Rightarrow> bool" where
  "assigned_to r principal_id = (cv_AssignmentReference r = Some principal_id)"

definition can_read_conversation :: "actor_context \<Rightarrow> conversation_record \<Rightarrow> bool" where
  "can_read_conversation actor r =
     (ac_BusinessID actor = cv_BusinessID r \<and> ac_PrincipalID actor \<noteq> '''' \<and>
      has_permission actor conversations_read \<and>
      (ca_Supervisor (conversation_access_of actor) \<or> \<not> conversation_assigned r \<or>
       assigned_to r (ac_PrincipalID actor)))"

definition can_reply_to_conversation :: "actor_context \<Rightarrow> conversation_record \<Rightarrow> bool" where
  "can_reply_to_conversation actor r =
     (can_read_conversation actor r \<and> has_permission actor conversations_reply \<and>
      cv_State r \<noteq> ''closed'' \<and> conversation_assigned r \<and>
      (ca_Supervisor (conversation_access_of actor) \<or> assigned_to r (ac_PrincipalID actor)))"

definition can_claim_conversation :: "actor_context \<Rightarrow> conversation_record \<Rightarrow> bool" where
  "can_claim_conversation actor r =
     (let role = to_lower (trim_space (ac_Role actor));
          eligible = (role = ''owner'' \<or> role = ''admin'' \<or> role = ''manager'' \<or> role = ''agent'')
      in eligible \<and> can_read_conversation actor r \<and> has_permission actor conversations_reply \<and>
         cv_State r \<noteq> ''closed'' \<and>
         (\<not> conversation_assigned r \<or>
          (ca_Supervisor (conversation_access_of actor) \<and>
           has_permission actor conversations_assign \<and> \<not> assigned_to r (ac_PrincipalID actor))))"

section \<open>The merchant's AI policy\<close>

definition err_business_ai_disabled :: go_error where
  "err_business_ai_disabled = PlainError ''business AI is disabled''"

definition err_business_ai_policy_unavailable :: go_error where
  "err_business_ai_policy_unavailable = PlainError ''business AI policy is unavailable''"

text \<open>
  \<^verbatim>\<open>BusinessAIGuard.Check\<close>: \<open>policies\<close> is the wired repository (\<open>None\<close> when it or the guard is
  nil), reading the field \<^verbatim>\<open>AIMode\<close> of the runtime policy of a business. The result is the error, if
  any.
\<close>

definition ai_guard_check ::
  "(string \<Rightarrow> string result) option \<Rightarrow> string \<Rightarrow> go_error option" where
  "ai_guard_check policies business_id =
     (case policies of
        None \<Rightarrow> Some err_business_ai_policy_unavailable
      | Some get_mode \<Rightarrow>
          if blank business_id then Some err_business_ai_policy_unavailable
          else (case get_mode business_id of
                  Inl e \<Rightarrow> Some err_business_ai_policy_unavailable
                | Inr mode \<Rightarrow>
                    if mode = ''assist'' \<or> mode = ''approval'' \<or> mode = ''restricted_auto'' then None
                    else if mode = ''disabled'' then Some err_business_ai_disabled
                    else Some err_business_ai_policy_unavailable))"

text \<open>An assigned conversation and an agent of its business, for evaluation.\<close>

definition sample_conversation :: conversation_record where
  "sample_conversation =
     conversation_record.make None None None None None None None 0 ''c'' ''b'' ''u'' None
       ''human_handling'' ''human'' None ''normal'' (Some ''employee-a'') 1 0 None"

definition sample_agent :: "string \<Rightarrow> string list \<Rightarrow> actor_context" where
  "sample_agent pid ps = \<lparr>ac_PrincipalID = pid, ac_BusinessID = ''b'', ac_Role = '' Agent'', ac_Permissions = ps\<rparr>"

section \<open>Facts about permissions\<close>



lemma can_grant_iff: "can_grant actor ps \<longleftrightarrow> (\<forall>p \<in> set ps. has_permission actor p)"
  by (induction ps) auto






lemma permission_all_unknown: "permission_all \<notin> set known_permissions"
  by (simp add: known_permissions_def permission_names)

lemma collect_permissions_Some:
  "collect_permissions vs seen = Some out \<Longrightarrow>
     set out = set seen \<union> normalize_name ` set vs \<and> normalize_name ` set vs \<subseteq> set known_permissions"
proof (induction vs arbitrary: seen)
  case Nil
  then show ?case by simp
next
  case (Cons v vs)
  then have ok: "normalize_name v \<noteq> permission_all" "normalize_name v \<in> set known_permissions"
    and rest: "collect_permissions vs (List.insert (normalize_name v) seen) = Some out"
    by (auto simp: Let_def split: if_splits)
  from Cons.IH [OF rest] ok show ?case by auto
qed

lemma collect_permissions_distinct:
  "collect_permissions vs seen = Some out \<Longrightarrow> distinct seen \<Longrightarrow> distinct out"
  by (induction vs arbitrary: seen) (auto simp: Let_def split: if_splits)

lemma collect_permissions_None:
  "collect_permissions vs seen = None \<longleftrightarrow> \<not> normalize_name ` set vs \<subseteq> set known_permissions"
  by (induction vs arbitrary: seen) (auto simp: Let_def permission_all_unknown)

lemma normalize_name_known: "list_all (\<lambda>p. normalize_name p = p) known_permissions"
  by code_simp

lemma normalize_permissions_Some:
  assumes "normalize_permissions vs = Some ps"
  shows "set ps = normalize_name ` set vs" and "set ps \<subseteq> set known_permissions"
    and "distinct ps" and "sorted ps"
  using assms collect_permissions_Some collect_permissions_distinct
  by (fastforce simp: normalize_permissions_def)+

lemma normalize_permissions_None:
  "normalize_permissions vs = None \<longleftrightarrow> \<not> normalize_name ` set vs \<subseteq> set known_permissions"
  by (simp add: normalize_permissions_def collect_permissions_None)

lemma normalize_name_fixes: "p \<in> set known_permissions \<Longrightarrow> normalize_name p = p"
  using normalize_name_known by (simp add: list_all_iff)

lemma normalize_permissions_fixed:
  assumes "set ps \<subseteq> set known_permissions" and "sorted ps" and "distinct ps"
  shows "normalize_permissions ps = Some ps"
proof -
  have fixed: "normalize_name ` set ps = set ps"
    using assms(1) normalize_name_fixes by force
  with assms(1) have "normalize_permissions ps \<noteq> None"
    by (simp add: normalize_permissions_None)
  then obtain qs where qs: "normalize_permissions ps = Some qs" by blast
  from normalize_permissions_Some [OF qs] fixed assms(2,3) have "qs = ps"
    by (simp add: sorted_distinct_set_unique)
  with qs show ?thesis by simp
qed

lemma conversation_assigned_reference:
  "conversation_assigned r \<Longrightarrow> \<exists>a. cv_AssignmentReference r = Some a"
  by (auto simp: conversation_assigned_def split: option.splits)

lemmas conversation_rules =
  can_read_conversation_def can_reply_to_conversation_def can_claim_conversation_def Let_def
  conversation_access_of_def

section \<open>Properties\<close>

text \<open>
  \<^verbatim>\<open>NormalizePermissions\<close> rejects a request exactly when one of its names, trimmed and in lower
  case, is not a known permission (so the wildcard is never assignable); otherwise it returns the
  sorted list, without repetition, of exactly the normalised names, and normalising that list again
  returns it unchanged.
\<close>

theorem normalize_permissions_correct:
  "case normalize_permissions vs of
     None \<Rightarrow> \<exists>v \<in> set vs. normalize_name v \<notin> set known_permissions
   | Some ps \<Rightarrow> set ps = normalize_name ` set vs \<and> set ps \<subseteq> set known_permissions \<and>
       permission_all \<notin> set ps \<and> sorted ps \<and> distinct ps \<and> normalize_permissions ps = Some ps"
proof (cases "normalize_permissions vs")
  case None
  with normalize_permissions_None [of vs] show ?thesis by (auto simp del: not_None_eq)
next
  case (Some ps)
  note ps = normalize_permissions_Some [OF Some]
  have "normalize_permissions ps = Some ps"
    using ps by (intro normalize_permissions_fixed)
  with Some ps permission_all_unknown show ?thesis by auto
qed



text \<open>
  C2: access to conversations. Nobody reads, answers or claims a conversation of another business or
  without the explicit permission; only an assigned, open conversation can be answered, and then only
  by its assignee or a supervisor; an agent never touches a conversation assigned to someone else; a
  person who may answer a conversation as its assignee cannot claim it again.
\<close>

theorem conversation_access_rules:
  "(can_reply_to_conversation actor r \<or> can_claim_conversation actor r \<longrightarrow> can_read_conversation actor r) \<and>
   (can_read_conversation actor r \<longrightarrow>
      ac_BusinessID actor = cv_BusinessID r \<and> has_permission actor conversations_read) \<and>
   (can_reply_to_conversation actor r \<longrightarrow>
      conversation_assigned r \<and> cv_State r \<noteq> ''closed'' \<and> has_permission actor conversations_reply \<and>
      (ca_Supervisor (conversation_access_of actor) \<or> assigned_to r (ac_PrincipalID actor))) \<and>
   (conversation_assigned r \<and> \<not> assigned_to r (ac_PrincipalID actor) \<and>
    normalize_name (ac_Role actor) = ''agent'' \<longrightarrow>
      \<not> can_read_conversation actor r \<and> \<not> can_reply_to_conversation actor r \<and>
      \<not> can_claim_conversation actor r) \<and>
   (conversation_assigned r \<and> assigned_to r (ac_PrincipalID actor) \<longrightarrow> \<not> can_claim_conversation actor r)"
  by (auto simp: conversation_rules normalize_name_def)

theorem conversation_access_rules_witness:
  "can_reply_to_conversation (sample_agent ''employee-a'' [conversations_read, conversations_reply]) sample_conversation \<and>
   \<not> can_claim_conversation (sample_agent ''employee-a'' [conversations_read, conversations_reply]) sample_conversation \<and>
   \<not> can_read_conversation (sample_agent ''employee-b'' [permission_all]) sample_conversation"
proof -
  let ?a = "sample_agent ''employee-a'' [conversations_read, conversations_reply]"
  let ?b = "sample_agent ''employee-b'' [permission_all]"
  have a: "can_reply_to_conversation ?a sample_conversation"
    "conversation_assigned sample_conversation" "assigned_to sample_conversation (ac_PrincipalID ?a)"
    by code_simp+
  have b: "\<not> assigned_to sample_conversation (ac_PrincipalID ?b)" "normalize_name (ac_Role ?b) = ''agent''"
    by code_simp+
  from conversation_access_rules [of ?a sample_conversation]
    conversation_access_rules [of ?b sample_conversation] a b
  show ?thesis by blast
qed

text \<open>
  C3: \<^verbatim>\<open>BusinessAIGuard.Check\<close> lets a model call through only when the policy of the named business
  was read and its mode is one of the three that permit generation; an opt-out, an unreadable policy,
  an unknown mode or a missing repository all stop the call.
\<close>

theorem ai_guard_fail_closed:
  "ai_guard_check policies business_id = None \<longleftrightarrow>
     (\<exists>get_mode mode. policies = Some get_mode \<and> \<not> blank business_id \<and>
        get_mode business_id = Inr mode \<and> mode \<in> {''assist'', ''approval'', ''restricted_auto''})"
  by (auto simp: ai_guard_check_def split: option.splits sum.splits if_splits)

end
