(* ===== verification/Catalog_Projection.thy ===== *)
theory Catalog_Projection
  imports Go_Prelude
begin

text \<open>
  The read model of the merchant's catalog that is shown to the AI model:
  \<^verbatim>\<open>services/catalog_ai_projection.go\<close> (its types), \<^verbatim>\<open>services/catalog_ai_runtime.go\<close> (building it from
  the repository's rows, and the evidence set derived from it),
  \<^verbatim>\<open>services/catalog_semantic_projection.go\<close> (labels, inherited attributes, offers at their commercial
  parent) and the mapping helpers of \<^verbatim>\<open>services/catalog_batch_controller.go\<close>.

  Nil and empty slices are both the empty list. A \<^verbatim>\<open>[]byte\<close> column that holds JSON is what the
  decoder of \<^verbatim>\<open>encoding/json\<close> makes of it: nothing, an error, or its first value. A timestamp in the
  format RFC 3339 is the instant it denotes, in whole seconds.
\<close>

section \<open>Values\<close>

datatype json =
    JNull
  | JBool bool
  | JNumber string
  | JString string
  | JArray "json list"
  | JObject "(string \<times> json) list"

datatype raw_json = RawEmpty | RawInvalid | RawValue json

datatype iso_time = ISO8601 int

type_synonym attrs = "(string \<times> json) list"

section \<open>Rows of the repository (\<^verbatim>\<open>ports/catalog_repository.go\<close>)\<close>

record catalog_record =
  cr_ID :: string
  cr_BusinessID :: string
  cr_Name :: string
  cr_Description :: "string option"
  cr_Status :: string
  cr_ResourceVersion :: int
  cr_CreatedAt :: time
  cr_UpdatedAt :: time

record item_record =
  ir_ID :: string
  ir_BusinessID :: string
  ir_CatalogID :: string
  ir_AttributeSchemaID :: "string option"
  ir_AttributeSchemaVersion :: "int option"
  ir_ItemType :: string
  ir_Name :: string
  ir_ShortDescription :: "string option"
  ir_LongDescription :: "string option"
  ir_Status :: string
  ir_PricingMode :: string
  ir_AvailabilityMode :: string
  ir_FulfillmentMode :: string
  ir_RequiresConfirmation :: bool
  ir_Attributes :: raw_json
  ir_ResourceVersion :: int
  ir_CreatedAt :: time
  ir_UpdatedAt :: time

record offer_record =
  fr_ID :: string
  fr_BusinessID :: string
  fr_CatalogItemID :: string
  fr_VariantID :: "string option"
  fr_Name :: string
  fr_PricingMode :: string
  fr_Amount :: "string option"
  fr_Currency :: "string option"
  fr_PricingUnit :: "string option"
  fr_PriceSource :: "string option"
  fr_PriceVerificationStatus :: string
  fr_PriceCheckedAt :: "time option"
  fr_AvailabilityMode :: string
  fr_AvailabilitySource :: "string option"
  fr_AvailabilityCheckedAt :: "time option"
  fr_AvailabilityValidUntil :: "time option"
  fr_AvailabilityEvidenceRef :: "string option"
  fr_FulfillmentMode :: string
  fr_ValidityFrom :: "time option"
  fr_ValidityUntil :: "time option"
  fr_AvailabilityStatus :: string
  fr_Status :: string
  fr_ResourceVersion :: int
  fr_CreatedAt :: time
  fr_UpdatedAt :: time

record variant_record =
  vr_ID :: string
  vr_BusinessID :: string
  vr_CatalogItemID :: string
  vr_Name :: string
  vr_Attributes :: raw_json
  vr_Status :: string
  vr_ResourceVersion :: int
  vr_CreatedAt :: time
  vr_UpdatedAt :: time

record definition_record =
  dr_ID :: string
  dr_Key :: string
  dr_Label :: string
  dr_DataType :: string
  dr_Required :: bool
  dr_ValidationRules :: raw_json
  dr_DisplayOrder :: int

record schema_record =
  sr_ID :: string
  sr_BusinessID :: string
  sr_Name :: string
  sr_Version :: int
  sr_Definitions :: "definition_record list"

record catalog_bundle =
  bu_Item :: item_record
  bu_Variants :: "variant_record list"
  bu_Offers :: "offer_record list"
  bu_AttributeSchema :: "schema_record option"

record projection_page =
  pp_Catalogs :: "catalog_record list"
  pp_Items :: "catalog_bundle list"
  pp_NextCursor :: string
  pp_HasMore :: bool

section \<open>The projection (\<^verbatim>\<open>services/catalog_ai_projection.go\<close>)\<close>

record ai_catalog =
  ct_ID :: string
  ct_Name :: string
  ct_Description :: "string option"
  ct_Status :: string

record ai_definition =
  ad_ID :: string
  ad_SchemaID :: string
  ad_AttributeKey :: string
  ad_Label :: string
  ad_DataType :: string
  ad_IsRequired :: bool
  ad_ValidationRules :: attrs
  ad_DisplayOrder :: int

record ai_schema =
  sc_ID :: string
  sc_Name :: string
  sc_Version :: int
  sc_Definitions :: "ai_definition list"

record ai_resolved =
  ra_Key :: string
  ra_Label :: string
  ra_DataType :: string
  ra_Origin :: string
  ra_Value :: json

record ai_offer =
  of_ID :: string
  of_CatalogItemID :: string
  of_VariantID :: "string option"
  of_Name :: string
  of_PricingMode :: string
  of_Amount :: "string option"
  of_Currency :: "string option"
  of_PricingUnit :: "string option"
  of_PriceSource :: "string option"
  of_PriceVerificationStatus :: "string option"
  of_PriceCheckedAt :: "iso_time option"
  of_AvailabilityMode :: "string option"
  of_AvailabilityStatus :: "string option"
  of_AvailabilitySource :: "string option"
  of_AvailabilityCheckedAt :: "iso_time option"
  of_AvailabilityValidUntil :: "iso_time option"
  of_AvailabilityEvidenceRef :: "string option"
  of_FulfillmentMode :: "string option"
  of_ValidityFrom :: "iso_time option"
  of_ValidityUntil :: "iso_time option"
  of_Status :: string

record ai_variant =
  va_EffectiveAttributes :: attrs
  va_ResolvedAttributes :: "ai_resolved list"
  va_Offers :: "ai_offer list"
  va_ID :: string
  va_CatalogItemID :: string
  va_Name :: string
  va_Attributes :: attrs
  va_Status :: string

record ai_item =
  it_Catalog :: "ai_catalog option"
  it_Schema :: "ai_schema option"
  it_ResolvedAttributes :: "ai_resolved list"
  it_ID :: string
  it_CatalogID :: string
  it_AttributeSchemaID :: "string option"
  it_AttributeSchemaVersion :: "int option"
  it_ItemType :: string
  it_Name :: string
  it_ShortDescription :: "string option"
  it_LongDescription :: "string option"
  it_Status :: string
  it_PricingMode :: string
  it_AvailabilityMode :: string
  it_FulfillmentMode :: string
  it_RequiresConfirmation :: bool
  it_Attributes :: attrs
  it_Variants :: "ai_variant list"
  it_Offers :: "ai_offer list"
  it_ItemLevelOffers :: "ai_offer list"

record projection =
  pr_Catalogs :: "ai_catalog list"
  pr_AttributeSchemas :: "ai_schema list"
  pr_Items :: "ai_item list"

definition empty_projection :: projection where
  "empty_projection = \<lparr>pr_Catalogs = [], pr_AttributeSchemas = [], pr_Items = []\<rparr>"

section \<open>Mapping rows to the projection\<close>

fun parse_json_attributes :: "raw_json \<Rightarrow> attrs" where
  "parse_json_attributes RawEmpty = []"
| "parse_json_attributes RawInvalid = []"
| "parse_json_attributes (RawValue (JObject m)) = m"
| "parse_json_attributes (RawValue _) = []"

definition string_ptr_or_nil :: "string \<Rightarrow> string option" where
  "string_ptr_or_nil s = (if s = '''' then None else Some s)"

definition format_time_ptr :: "time option \<Rightarrow> iso_time option" where
  "format_time_ptr t = map_option (\<lambda>i. ISO8601 (i div 1000000000)) t"

definition map_item_record :: "item_record \<Rightarrow> ai_item" where
  "map_item_record r =
     \<lparr>it_Catalog = None, it_Schema = None, it_ResolvedAttributes = [],
      it_ID = ir_ID r, it_CatalogID = ir_CatalogID r,
      it_AttributeSchemaID = ir_AttributeSchemaID r,
      it_AttributeSchemaVersion = ir_AttributeSchemaVersion r,
      it_ItemType = ir_ItemType r, it_Name = ir_Name r,
      it_ShortDescription = ir_ShortDescription r, it_LongDescription = ir_LongDescription r,
      it_Status = ir_Status r, it_PricingMode = ir_PricingMode r,
      it_AvailabilityMode = ir_AvailabilityMode r, it_FulfillmentMode = ir_FulfillmentMode r,
      it_RequiresConfirmation = ir_RequiresConfirmation r,
      it_Attributes = parse_json_attributes (ir_Attributes r),
      it_Variants = [], it_Offers = [], it_ItemLevelOffers = []\<rparr>"

definition map_schema_record :: "schema_record \<Rightarrow> ai_schema" where
  "map_schema_record r =
     \<lparr>sc_ID = sr_ID r, sc_Name = sr_Name r, sc_Version = sr_Version r,
      sc_Definitions =
        map (\<lambda>d. \<lparr>ad_ID = dr_ID d, ad_SchemaID = sr_ID r, ad_AttributeKey = dr_Key d,
                  ad_Label = dr_Label d, ad_DataType = dr_DataType d, ad_IsRequired = dr_Required d,
                  ad_ValidationRules = parse_json_attributes (dr_ValidationRules d),
                  ad_DisplayOrder = dr_DisplayOrder d\<rparr>)
          (sr_Definitions r)\<rparr>"

definition map_variant_record :: "variant_record \<Rightarrow> ai_variant" where
  "map_variant_record v =
     \<lparr>va_EffectiveAttributes = [], va_ResolvedAttributes = [], va_Offers = [],
      va_ID = vr_ID v, va_CatalogItemID = vr_CatalogItemID v, va_Name = vr_Name v,
      va_Attributes = parse_json_attributes (vr_Attributes v), va_Status = vr_Status v\<rparr>"

definition map_offer_record :: "offer_record \<Rightarrow> ai_offer" where
  "map_offer_record f =
     \<lparr>of_ID = fr_ID f, of_CatalogItemID = fr_CatalogItemID f, of_VariantID = fr_VariantID f,
      of_Name = fr_Name f, of_PricingMode = fr_PricingMode f, of_Amount = fr_Amount f,
      of_Currency = fr_Currency f, of_PricingUnit = fr_PricingUnit f,
      of_PriceSource = fr_PriceSource f,
      of_PriceVerificationStatus = string_ptr_or_nil (fr_PriceVerificationStatus f),
      of_PriceCheckedAt = format_time_ptr (fr_PriceCheckedAt f),
      of_AvailabilityMode = string_ptr_or_nil (fr_AvailabilityMode f),
      of_AvailabilityStatus = string_ptr_or_nil (fr_AvailabilityStatus f),
      of_AvailabilitySource = fr_AvailabilitySource f,
      of_AvailabilityCheckedAt = format_time_ptr (fr_AvailabilityCheckedAt f),
      of_AvailabilityValidUntil = format_time_ptr (fr_AvailabilityValidUntil f),
      of_AvailabilityEvidenceRef = fr_AvailabilityEvidenceRef f,
      of_FulfillmentMode = string_ptr_or_nil (fr_FulfillmentMode f),
      of_ValidityFrom = format_time_ptr (fr_ValidityFrom f),
      of_ValidityUntil = format_time_ptr (fr_ValidityUntil f),
      of_Status = fr_Status f\<rparr>"

section \<open>Meaning attached to an item (\<^verbatim>\<open>services/catalog_semantic_projection.go\<close>)\<close>

definition merge_attributes :: "attrs \<Rightarrow> attrs \<Rightarrow> attrs" where
  "merge_attributes parent overrides =
     (if parent = [] \<and> overrides = [] then []
      else fold (\<lambda>(k, v). map_put k v) overrides (fold (\<lambda>(k, v). map_put k v) parent []))"

definition definitions_by_key :: "ai_definition list \<Rightarrow> (string \<times> ai_definition) list" where
  "definitions_by_key ds = fold (\<lambda>d. map_put (ad_AttributeKey d) d) ds []"

definition resolve_key :: "attrs \<Rightarrow> (string \<times> ai_definition) list \<Rightarrow> string \<Rightarrow> json \<Rightarrow> ai_resolved" where
  "resolve_key overrides defs key value =
     \<lparr>ra_Key = key,
      ra_Label = (case map_of defs key of Some d \<Rightarrow> ad_Label d | None \<Rightarrow> key),
      ra_DataType = (case map_of defs key of Some d \<Rightarrow> ad_DataType d | None \<Rightarrow> ''''),
      ra_Origin = (if map_of overrides key \<noteq> None then ''variant'' else ''item''),
      ra_Value = value\<rparr>"

text \<open>The keys of a map in key order: \<^verbatim>\<open>sort.Strings\<close> after the map's own iteration order.\<close>

definition resolve_attributes :: "attrs \<Rightarrow> attrs \<Rightarrow> ai_definition list \<Rightarrow> ai_resolved list" where
  "resolve_attributes parent overrides ds =
     (let merged = merge_attributes parent overrides in
      if merged = [] then []
      else List.map_filter
             (\<lambda>key. map_option (resolve_key overrides (definitions_by_key ds) key) (map_of merged key))
             (sort (map fst merged)))"

text \<open>The map \<^verbatim>\<open>byVariant\<close>: the position of the last variant with the identifier.\<close>

fun last_index :: "string \<Rightarrow> ai_variant list \<Rightarrow> nat \<Rightarrow> nat option \<Rightarrow> nat option" where
  "last_index v [] i found = found"
| "last_index v (x # xs) i found = last_index v xs (Suc i) (if va_ID x = v then Some i else found)"

definition by_variant :: "ai_variant list \<Rightarrow> string \<Rightarrow> nat option" where
  "by_variant vs v = last_index v vs 0 None"

fun place_offers :: "ai_offer list \<Rightarrow> ai_variant list \<times> ai_offer list \<Rightarrow> ai_variant list \<times> ai_offer list" where
  "place_offers [] (vs, level) = (vs, level)"
| "place_offers (off # offs) (vs, level) =
     (case of_VariantID off of
        None \<Rightarrow> place_offers offs (vs, level @ [off])
      | Some v \<Rightarrow>
          if v = '''' then place_offers offs (vs, level @ [off])
          else (case by_variant vs v of
                  None \<Rightarrow> place_offers offs (vs, level)
                | Some i \<Rightarrow>
                    place_offers offs (vs[i := (vs ! i)\<lparr>va_Offers := va_Offers (vs ! i) @ [off]\<rparr>], level)))"

definition attach_item_schema_meaning :: "ai_item \<Rightarrow> ai_schema option \<Rightarrow> ai_item" where
  "attach_item_schema_meaning item schema =
     (let ds = (case schema of None \<Rightarrow> [] | Some s \<Rightarrow> sc_Definitions s);
          vs = map (\<lambda>v. v\<lparr>va_EffectiveAttributes := merge_attributes (it_Attributes item) (va_Attributes v),
                          va_ResolvedAttributes := resolve_attributes (it_Attributes item) (va_Attributes v) ds,
                          va_Offers := []\<rparr>)
                 (it_Variants item);
          (placed, level) = place_offers (it_Offers item) (vs, [])
      in item\<lparr>it_Schema := schema,
              it_ResolvedAttributes := resolve_attributes (it_Attributes item) [] ds,
              it_Variants := placed, it_ItemLevelOffers := level\<rparr>)"

section \<open>Building the projection (\<^verbatim>\<open>services/catalog_ai_runtime.go\<close>)\<close>

definition bundle_item :: "catalog_bundle \<Rightarrow> ai_item" where
  "bundle_item b =
     attach_item_schema_meaning
       ((map_item_record (bu_Item b))\<lparr>it_Variants := map map_variant_record (bu_Variants b),
                                      it_Offers := map map_offer_record (bu_Offers b)\<rparr>)
       (map_option map_schema_record (bu_AttributeSchema b))"

definition bundle_schemas :: "catalog_bundle list \<Rightarrow> (string \<times> ai_schema) list" where
  "bundle_schemas bs =
     fold (\<lambda>b m. case bu_AttributeSchema b of None \<Rightarrow> m
                 | Some s \<Rightarrow> map_put (sr_ID s) (map_schema_record s) m) bs []"

definition projection_from_bundles :: "catalog_bundle list \<Rightarrow> projection" where
  "projection_from_bundles bs =
     \<lparr>pr_Catalogs = [],
      pr_AttributeSchemas =
        List.map_filter (map_of (bundle_schemas bs)) (sort (map fst (bundle_schemas bs))),
      pr_Items = map bundle_item bs\<rparr>"

definition attach_item_catalog_meaning :: "projection \<Rightarrow> projection" where
  "attach_item_catalog_meaning p =
     (let by_id = fold (\<lambda>c. map_put (ct_ID c) c) (pr_Catalogs p) [] in
      p\<lparr>pr_Items := map (\<lambda>i. case map_of by_id (it_CatalogID i) of
                               None \<Rightarrow> i | Some c \<Rightarrow> i\<lparr>it_Catalog := Some c\<rparr>) (pr_Items p)\<rparr>)"

fun append_catalogs :: "catalog_record list \<Rightarrow> ai_catalog list \<Rightarrow> ai_catalog list" where
  "append_catalogs [] cs = cs"
| "append_catalogs (c # rest) cs =
     (if cr_ID c \<in> ct_ID ` set cs then append_catalogs rest cs
      else append_catalogs rest
             (cs @ [\<lparr>ct_ID = cr_ID c, ct_Name = cr_Name c, ct_Description = cr_Description c,
                     ct_Status = cr_Status c\<rparr>]))"

definition append_catalog_records :: "projection \<Rightarrow> catalog_record list \<Rightarrow> projection" where
  "append_catalog_records p cs =
     (if cs = [] then p
      else attach_item_catalog_meaning (p\<lparr>pr_Catalogs := append_catalogs cs (pr_Catalogs p)\<rparr>))"

section \<open>The evidence set (\<^verbatim>\<open>ports/catalog_ai_read.go\<close>, \<^verbatim>\<open>services/catalog_ai_runtime.go\<close>)\<close>

record evidence_item =
  ev_Variants :: "string list"
  ev_Offers :: "(string \<times> string) list"

text \<open>
  \<^verbatim>\<open>EvidenceFromProjection\<close>: per item its set of variant identifiers (in key order) and the map from
  offers to the variant they belong to, the empty string for an offer of the item itself.
\<close>

definition evidence_entry :: "ai_item \<Rightarrow> evidence_item" where
  "evidence_entry i =
     \<lparr>ev_Variants = map fst (fold (\<lambda>v. map_put (va_ID v) ()) (it_Variants i) []),
      ev_Offers =
        fold (\<lambda>f. map_put (of_ID f) (case of_VariantID f of None \<Rightarrow> '''' | Some v \<Rightarrow> v)) (it_Offers i) []\<rparr>"

definition evidence_from_projection :: "projection \<Rightarrow> (string \<times> evidence_item) list" where
  "evidence_from_projection p = fold (\<lambda>i. map_put (it_ID i) (evidence_entry i)) (pr_Items p) []"

section \<open>A sample bundle\<close>

definition sample_offer_record :: "string \<Rightarrow> string \<Rightarrow> string option \<Rightarrow> offer_record" where
  "sample_offer_record item f v =
     \<lparr>fr_ID = f, fr_BusinessID = ''b1'', fr_CatalogItemID = item, fr_VariantID = v,
      fr_Name = ''retail'', fr_PricingMode = ''fixed'', fr_Amount = Some ''10.00'',
      fr_Currency = Some ''USD'', fr_PricingUnit = None, fr_PriceSource = None,
      fr_PriceVerificationStatus = ''verified'', fr_PriceCheckedAt = None,
      fr_AvailabilityMode = ''always'', fr_AvailabilitySource = None,
      fr_AvailabilityCheckedAt = None, fr_AvailabilityValidUntil = None,
      fr_AvailabilityEvidenceRef = None, fr_FulfillmentMode = ''pickup'', fr_ValidityFrom = None,
      fr_ValidityUntil = None, fr_AvailabilityStatus = ''available'', fr_Status = ''active'',
      fr_ResourceVersion = 1, fr_CreatedAt = 1, fr_UpdatedAt = 1\<rparr>"

definition sample_bundle :: "string \<Rightarrow> catalog_bundle" where
  "sample_bundle i =
     \<lparr>bu_Item = \<lparr>ir_ID = i, ir_BusinessID = ''b1'', ir_CatalogID = ''c1'',
        ir_AttributeSchemaID = None, ir_AttributeSchemaVersion = None, ir_ItemType = ''product'',
        ir_Name = ''shirt'', ir_ShortDescription = None, ir_LongDescription = None,
        ir_Status = ''active'', ir_PricingMode = ''fixed'', ir_AvailabilityMode = ''always'',
        ir_FulfillmentMode = ''pickup'', ir_RequiresConfirmation = False, ir_Attributes = RawEmpty,
        ir_ResourceVersion = 1, ir_CreatedAt = 1, ir_UpdatedAt = 1\<rparr>,
      bu_Variants = [\<lparr>vr_ID = ''v1'', vr_BusinessID = ''b1'', vr_CatalogItemID = i, vr_Name = ''red'',
        vr_Attributes = RawEmpty, vr_Status = ''active'', vr_ResourceVersion = 1, vr_CreatedAt = 1,
        vr_UpdatedAt = 1\<rparr>],
      bu_Offers = [sample_offer_record i ''f1'' (Some ''v1''), sample_offer_record i ''f2'' None],
      bu_AttributeSchema = None\<rparr>"

section \<open>Placing offers at their commercial parent\<close>

lemma last_index_None:
  "last_index v vs i found = None \<longleftrightarrow> found = None \<and> v \<notin> va_ID ` set vs"
  by (induction vs arbitrary: i found) auto

lemma last_index_Some:
  "last_index v vs i found = Some j \<Longrightarrow>
     found = Some j \<or> (i \<le> j \<and> j < i + length vs \<and> va_ID (vs ! (j - i)) = v)"
proof (induction vs arbitrary: i found)
  case Nil
  then show ?case by simp
next
  case (Cons x vs)
  from Cons.IH [of "Suc i" "if va_ID x = v then Some i else found"] Cons.prems show ?case
    by (auto simp: Suc_le_eq nth_Cons' split: if_splits)
qed

lemma by_variant_None: "by_variant vs v = None \<longleftrightarrow> v \<notin> va_ID ` set vs"
  by (simp add: by_variant_def last_index_None)

lemma by_variant_Some: "by_variant vs v = Some i \<Longrightarrow> i < length vs \<and> va_ID (vs ! i) = v"
  using last_index_Some [of v vs 0 None i] by (simp add: by_variant_def)

text \<open>An offer has a place when it belongs to the item itself or to one of its variants.\<close>

definition placeable :: "string set \<Rightarrow> ai_offer \<Rightarrow> bool" where
  "placeable ids off =
     (case of_VariantID off of None \<Rightarrow> True | Some v \<Rightarrow> v = '''' \<or> v \<in> ids)"

definition own_offers :: "ai_variant list \<Rightarrow> bool" where
  "own_offers vs = (\<forall>v \<in> set vs. \<forall>f \<in> set (va_Offers v). of_VariantID f = Some (va_ID v))"

lemma ids_after_placing:
  "i < length vs \<Longrightarrow> va_ID ` set (vs[i := (vs ! i)\<lparr>va_Offers := fs\<rparr>]) = va_ID ` set vs"
  by (metis ai_variant.select_convs(4) ai_variant.surjective ai_variant.update_convs(3)
      list.set_map list_update_id map_update)

lemma own_offers_after_placing:
  "own_offers vs \<Longrightarrow> i < length vs \<Longrightarrow> of_VariantID off = Some (va_ID (vs ! i)) \<Longrightarrow>
     own_offers (vs[i := (vs ! i)\<lparr>va_Offers := va_Offers (vs ! i) @ [off]\<rparr>])"
  using set_update_subset_insert [of vs i] nth_mem by (fastforce simp: own_offers_def)

lemma place_offers_mset:
  "place_offers offs (vs, level) = (vs', level') \<Longrightarrow>
     mset level' + sum_list (map (\<lambda>v. mset (va_Offers v)) vs') =
     mset level + sum_list (map (\<lambda>v. mset (va_Offers v)) vs) +
       mset (filter (placeable (va_ID ` set vs)) offs)"
proof (induction offs arbitrary: vs level)
  case Nil
  then show ?case by simp
next
  case (Cons off offs)
  show ?case
  proof (cases "of_VariantID off = None \<or> of_VariantID off = Some ''''")
    case True
    with Cons.prems have "place_offers offs (vs, level @ [off]) = (vs', level')" by auto
    from Cons.IH [OF this] True show ?thesis by (auto simp: placeable_def)
  next
    case False
    then obtain v where v: "of_VariantID off = Some v" "v \<noteq> ''''" by auto
    show ?thesis
    proof (cases "by_variant vs v")
      case None
      with v Cons.prems have "place_offers offs (vs, level) = (vs', level')" by auto
      from Cons.IH [OF this] v None show ?thesis by (simp add: placeable_def by_variant_None)
    next
      case (Some i)
      let ?vs = "vs[i := (vs ! i)\<lparr>va_Offers := va_Offers (vs ! i) @ [off]\<rparr>]"
      from by_variant_Some [OF Some] have i: "i < length vs" "va_ID (vs ! i) = v" by auto
      from v Some Cons.prems have "place_offers offs (?vs, level) = (vs', level')" by auto
      from Cons.IH [OF this] have "mset level' + sum_list (map (\<lambda>v. mset (va_Offers v)) vs') =
          mset level + sum_list (map (\<lambda>v. mset (va_Offers v)) ?vs) +
            mset (filter (placeable (va_ID ` set vs)) offs)"
        by (simp add: ids_after_placing i comp_def)
      moreover have "sum_list (map (\<lambda>v. mset (va_Offers v)) ?vs) =
          sum_list (map (\<lambda>v. mset (va_Offers v)) vs) + {#off#}"
        using sum_list_update_add [OF i(1), of "\<lambda>v. mset (va_Offers v)"
            "(vs ! i)\<lparr>va_Offers := va_Offers (vs ! i) @ [off]\<rparr>"] by simp
      moreover have "placeable (va_ID ` set vs) off"
        using v i by (auto simp: placeable_def)
      ultimately show ?thesis by simp
    qed
  qed
qed

lemma place_offers_parents:
  "place_offers offs (vs, level) = (vs', level') \<Longrightarrow> own_offers vs \<Longrightarrow>
     (\<forall>f \<in> set level. of_VariantID f = None \<or> of_VariantID f = Some '''') \<Longrightarrow>
     own_offers vs' \<and> (\<forall>f \<in> set level'. of_VariantID f = None \<or> of_VariantID f = Some '''')"
proof (induction offs arbitrary: vs level)
  case Nil
  then show ?case by auto
next
  case (Cons off offs)
  show ?case
  proof (cases "of_VariantID off = None \<or> of_VariantID off = Some ''''")
    case True
    with Cons.prems have "place_offers offs (vs, level @ [off]) = (vs', level')" by auto
    from Cons.IH [OF this Cons.prems(2)] True Cons.prems(3) show ?thesis by auto
  next
    case False
    then obtain v where v: "of_VariantID off = Some v" "v \<noteq> ''''" by auto
    show ?thesis
    proof (cases "by_variant vs v")
      case None
      with v Cons.prems have "place_offers offs (vs, level) = (vs', level')" by auto
      from Cons.IH [OF this Cons.prems(2,3)] show ?thesis .
    next
      case (Some i)
      let ?vs = "vs[i := (vs ! i)\<lparr>va_Offers := va_Offers (vs ! i) @ [off]\<rparr>]"
      from by_variant_Some [OF Some] have i: "i < length vs" "va_ID (vs ! i) = v" by auto
      from v Some Cons.prems have "place_offers offs (?vs, level) = (vs', level')" by auto
      moreover have "own_offers ?vs"
        using own_offers_after_placing [OF Cons.prems(2) i(1)] v i by simp
      ultimately show ?thesis using Cons.IH Cons.prems(3) by blast
    qed
  qed
qed

lemma place_offers_ids: "map va_ID (fst (place_offers offs (vs, level))) = map va_ID vs"
proof (induction offs arbitrary: vs level)
  case Nil
  then show ?case by simp
next
  case (Cons off offs)
  have upd: "map va_ID (vs[i := (vs ! i)\<lparr>va_Offers := fs\<rparr>]) = map va_ID vs" for i fs
    by (cases "i < length vs") (simp_all add: map_update list_update_same_conv list_update_beyond)
  show ?case by (auto simp: Cons.IH upd split: option.splits)
qed

section \<open>Properties\<close>

text \<open>
  Building an item for the model keeps its offers as they are and shows each one at exactly one
  commercial parent: an offer without a variant on the item, an offer of a variant of the item under a
  variant with that identifier, and an offer of an unknown variant nowhere (it is never moved to the
  item).
\<close>

theorem bundle_item_offers_partition:
  "let i = bundle_item b in
     it_Offers i = map map_offer_record (bu_Offers b) \<and>
     map va_ID (it_Variants i) = map vr_ID (bu_Variants b) \<and>
     mset (it_ItemLevelOffers i) + sum_list (map (\<lambda>v. mset (va_Offers v)) (it_Variants i)) =
       mset (filter (placeable (va_ID ` set (it_Variants i))) (it_Offers i)) \<and>
     own_offers (it_Variants i) \<and>
     (\<forall>f \<in> set (it_ItemLevelOffers i). of_VariantID f = None \<or> of_VariantID f = Some '''')"
proof -
  let ?base = "(map_item_record (bu_Item b))\<lparr>it_Variants := map map_variant_record (bu_Variants b),
                                      it_Offers := map map_offer_record (bu_Offers b)\<rparr>"
  define ds where "ds = (case map_option map_schema_record (bu_AttributeSchema b) of None \<Rightarrow> []
                         | Some s \<Rightarrow> sc_Definitions s)"
  define vs where "vs = map (\<lambda>v. v\<lparr>va_EffectiveAttributes := merge_attributes (it_Attributes ?base) (va_Attributes v),
      va_ResolvedAttributes := resolve_attributes (it_Attributes ?base) (va_Attributes v) ds,
      va_Offers := []\<rparr>) (it_Variants ?base)"
  obtain placed level where pl: "place_offers (it_Offers ?base) (vs, []) = (placed, level)" by force
  have item: "it_Offers (bundle_item b) = map map_offer_record (bu_Offers b)"
    "it_Variants (bundle_item b) = placed" "it_ItemLevelOffers (bundle_item b) = level"
    using pl by (simp_all add: bundle_item_def attach_item_schema_meaning_def Let_def vs_def ds_def)
  have ids: "map va_ID vs = map vr_ID (bu_Variants b)"
    by (simp add: vs_def map_variant_record_def)
  have same: "map va_ID placed = map va_ID vs"
    using place_offers_ids [of "it_Offers ?base" vs "[]"] pl by simp
  have "own_offers vs" and none: "sum_list (map (\<lambda>v. mset (va_Offers v)) vs) = {#}"
    by (simp_all add: vs_def own_offers_def comp_def)
  with place_offers_parents [OF pl] have "own_offers placed"
    and "\<forall>f \<in> set level. of_VariantID f = None \<or> of_VariantID f = Some ''''" by auto
  moreover have "mset level + sum_list (map (\<lambda>v. mset (va_Offers v)) placed) =
      mset (filter (placeable (va_ID ` set placed)) (map map_offer_record (bu_Offers b)))"
    using place_offers_mset [OF pl] none same by (simp flip: set_map)
  ultimately show ?thesis using item ids same by (simp add: Let_def)
qed

theorem bundle_item_offers_partition_witness:
  "let i = bundle_item (sample_bundle ''i1'') in
     map va_ID (it_Variants i) = [''v1''] \<and> map of_ID (it_Offers i) = [''f1'', ''f2''] \<and>
     (\<forall>f \<in> set (it_ItemLevelOffers i). of_VariantID f = None \<or> of_VariantID f = Some '''')"
  using bundle_item_offers_partition [of "sample_bundle ''i1''"]
  by (simp add: Let_def sample_bundle_def sample_offer_record_def map_offer_record_def)

lemma merge_attributes_map:
  assumes "map_wf parent" and "map_wf overrides"
  shows "map_of (merge_attributes parent overrides) = map_of parent ++ map_of overrides"
    and "map_wf (merge_attributes parent overrides)"
  using assms by (auto simp: merge_attributes_def map_of_map_fill map_of_rev_wf map_wf_distinct map_wf_fill)

lemma resolve_attributes_eq:
  assumes "map_wf parent" and "map_wf overrides"
  shows "resolve_attributes parent overrides ds =
    map (\<lambda>(k, v). resolve_key overrides (definitions_by_key ds) k v) (merge_attributes parent overrides)"
proof -
  let ?m = "merge_attributes parent overrides"
  let ?r = "resolve_key overrides (definitions_by_key ds)"
  have wf: "map_wf ?m" using merge_attributes_map [OF assms] by simp
  have "List.map_filter (\<lambda>key. map_option (?r key) (map_of ?m key)) (map fst es) =
      map (\<lambda>(k, v). ?r k v) es" if "set es \<subseteq> set ?m" for es
    using that wf by (induction es) (auto simp: map_wf_distinct)
  from this [of ?m] wf show ?thesis
    by (simp add: resolve_attributes_def Let_def map_wf_keys_sorted)
qed

text \<open>
  Attributes shown to the model. For a variant, a key carries the variant's own value when it has
  one and the item's value otherwise; the resolved facts list every such key once, in key order, with
  that value, the origin that supplied it, and the schema's label and type when the schema defines the
  key (the literal key and no type otherwise).
\<close>

theorem resolve_attributes_inherit_and_override:
  assumes "map_wf parent" and "map_wf overrides"
  shows "map_of (merge_attributes parent overrides) k =
      (case map_of overrides k of Some v \<Rightarrow> Some v | None \<Rightarrow> map_of parent k) \<and>
    map ra_Key (resolve_attributes parent overrides ds) = map fst (merge_attributes parent overrides) \<and>
    map_wf (merge_attributes parent overrides) \<and>
    (\<forall>r \<in> set (resolve_attributes parent overrides ds).
       map_of (merge_attributes parent overrides) (ra_Key r) = Some (ra_Value r) \<and>
       (ra_Origin r = ''variant'' \<longleftrightarrow> map_of overrides (ra_Key r) \<noteq> None) \<and>
       (map_of (definitions_by_key ds) (ra_Key r) = None \<longrightarrow> ra_Label r = ra_Key r \<and> ra_DataType r = '''') \<and>
       (\<forall>d. map_of (definitions_by_key ds) (ra_Key r) = Some d \<longrightarrow>
            ra_Label r = ad_Label d \<and> ra_DataType r = ad_DataType d))"
proof -
  note m = merge_attributes_map [OF assms]
  have "map_of (merge_attributes parent overrides) k =
      (case map_of overrides k of Some v \<Rightarrow> Some v | None \<Rightarrow> map_of parent k)"
    by (simp add: m(1) map_add_def)
  moreover have "map_of (merge_attributes parent overrides) (fst e) = Some (snd e)"
    if "e \<in> set (merge_attributes parent overrides)" for e
    using that m(2) by (simp add: map_wf_distinct)
  ultimately show ?thesis
    using m(2) by (auto simp: resolve_attributes_eq [OF assms] resolve_key_def split: if_splits)
qed

theorem resolve_attributes_inherit_and_override_witness:
  "let parent = [(''color'', JString ''red''), (''size'', JString ''M'')];
       overrides = [(''size'', JString ''XL'')]
   in map_of (merge_attributes parent overrides) ''size'' = Some (JString ''XL'') \<and>
      map_of (merge_attributes parent overrides) ''color'' = Some (JString ''red'')"
proof -
  let ?p = "[(''color'', JString ''red''), (''size'', JString ''M'')]"
  let ?o = "[(''size'', JString ''XL'')]"
  have wf: "map_wf ?p" "map_wf ?o" by code_simp+
  from resolve_attributes_inherit_and_override [OF wf, of "''size''"]
    resolve_attributes_inherit_and_override [OF wf, of "''color''"]
  show ?thesis by (simp add: Let_def)
qed

lemma bundle_schemas_fill:
  "bundle_schemas bs =
     map_fill (List.map_filter (\<lambda>b. map_option (\<lambda>s. (sr_ID s, map_schema_record s)) (bu_AttributeSchema b)) bs) []"
proof -
  have "fold (\<lambda>b m. case bu_AttributeSchema b of None \<Rightarrow> m
                 | Some s \<Rightarrow> map_put (sr_ID s) (map_schema_record s) m) bs m =
     map_fill (List.map_filter (\<lambda>b. map_option (\<lambda>s. (sr_ID s, map_schema_record s)) (bu_AttributeSchema b)) bs) m"
    for m by (induction bs arbitrary: m) (auto split: option.splits)
  then show ?thesis by (simp add: bundle_schemas_def)
qed

lemma bundle_schemas_values:
  "(k, s) \<in> set (bundle_schemas bs) \<Longrightarrow> \<exists>b \<in> set bs. \<exists>r. bu_AttributeSchema b = Some r \<and>
     k = sr_ID r \<and> s = map_schema_record r"
proof -
  assume "(k, s) \<in> set (bundle_schemas bs)"
  moreover have "map_wf (bundle_schemas bs)" by (simp add: bundle_schemas_fill map_wf_fill)
  ultimately have "map_of (bundle_schemas bs) k = Some s" by (simp add: map_wf_distinct)
  then have "(k, s) \<in> set (List.map_filter (\<lambda>b. map_option (\<lambda>s. (sr_ID s, map_schema_record s)) (bu_AttributeSchema b)) bs)"
    by (auto simp: bundle_schemas_fill map_of_map_fill dest: map_of_SomeD)
  then show ?thesis by (force simp: map_filter_def)
qed

text \<open>
  A projection carries exactly the schemas its items use: their identifiers are those of the
  bundles' schemas, each once and in order, and the items are those of the bundles, in their order.
\<close>

theorem projection_carries_used_schemas:
  "map it_ID (pr_Items (projection_from_bundles bs)) = map (ir_ID \<circ> bu_Item) bs \<and>
   sorted_wrt (<) (map sc_ID (pr_AttributeSchemas (projection_from_bundles bs))) \<and>
   sc_ID ` set (pr_AttributeSchemas (projection_from_bundles bs)) =
     {sr_ID s |s b. b \<in> set bs \<and> bu_AttributeSchema b = Some s}"
proof -
  have wf: "map_wf (bundle_schemas bs)" by (simp add: bundle_schemas_fill map_wf_fill)
  then have schemas: "pr_AttributeSchemas (projection_from_bundles bs) = map snd (bundle_schemas bs)"
    by (simp add: projection_from_bundles_def map_filter_keys)
  have ids: "sc_ID (snd e) = fst e" if "e \<in> set (bundle_schemas bs)" for e
    using that bundle_schemas_values [of "fst e" "snd e" bs] by (auto simp: map_schema_record_def)
  then have keys: "map sc_ID (pr_AttributeSchemas (projection_from_bundles bs)) = map fst (bundle_schemas bs)"
    by (simp add: schemas)
  then have "sc_ID ` set (pr_AttributeSchemas (projection_from_bundles bs)) = fst ` set (bundle_schemas bs)"
    by (metis list.set_map)
  moreover have "fst ` set (bundle_schemas bs) = {sr_ID s |s b. b \<in> set bs \<and> bu_AttributeSchema b = Some s}"
    by (force simp: bundle_schemas_fill keys_map_fill map_filter_def)
  moreover have "it_ID (bundle_item b) = ir_ID (bu_Item b)" for b
    by (simp add: bundle_item_def attach_item_schema_meaning_def map_item_record_def Let_def split_beta)
  ultimately show ?thesis using wf keys by (simp add: projection_from_bundles_def)
qed

end
