(* ===== verification/Message_Content.thy ===== *)
theory Message_Content
  imports Go_Prelude
begin

text \<open>
  Content references of outbound messages: the inline text references of \<^verbatim>\<open>services/auto_reply.go\<close> and
  the interactive messages of \<^verbatim>\<open>services/customer_sales_workflow.go\<close>. \<^verbatim>\<open>base64.RawURLEncoding\<close> and the
  counting of runes are modelled byte by byte; reading and writing of the message as JSON by
  \<^verbatim>\<open>encoding/json\<close> are the arguments \<open>marshal\<close> and \<open>unmarshal\<close>.
\<close>

section \<open>Base 64 without padding, URL alphabet\<close>

definition b64_alphabet :: string where
  "b64_alphabet = ''ABCDEFGHIJKLMNOPQRSTUVWXYZabcdefghijklmnopqrstuvwxyz0123456789-_''"

definition b64_char :: "nat \<Rightarrow> char" where
  "b64_char i = b64_alphabet ! i"

fun index_of :: "'a \<Rightarrow> 'a list \<Rightarrow> nat option" where
  "index_of x [] = None"
| "index_of x (y # ys) = (if x = y then Some 0 else map_option Suc (index_of x ys))"

definition b64_value :: "char \<Rightarrow> nat option" where
  "b64_value c = index_of c b64_alphabet"

fun b64_digits :: "nat list \<Rightarrow> nat list" where
  "b64_digits [] = []"
| "b64_digits [a] = [a div 4, (a mod 4) * 16]"
| "b64_digits [a, b] = [a div 4, (a mod 4) * 16 + b div 16, (b mod 16) * 4]"
| "b64_digits (a # b # c # rest) =
     [a div 4, (a mod 4) * 16 + b div 16, (b mod 16) * 4 + c div 64, c mod 64] @ b64_digits rest"

definition b64_encode :: "string \<Rightarrow> string" where
  "b64_encode s = map b64_char (b64_digits (map byte_of s))"

fun b64_bytes :: "nat list \<Rightarrow> nat list option" where
  "b64_bytes [] = Some []"
| "b64_bytes [p] = None"
| "b64_bytes [p, q] = Some [p * 4 + q div 16]"
| "b64_bytes [p, q, r] = Some [p * 4 + q div 16, (q mod 16) * 16 + r div 4]"
| "b64_bytes (p # q # r # t # rest) =
     map_option (\<lambda>bs. [p * 4 + q div 16, (q mod 16) * 16 + r div 4, (r mod 4) * 64 + t] @ bs) (b64_bytes rest)"

text \<open>The decoder skips carriage returns and line feeds and does not look at unused trailing bits.\<close>

fun b64_values :: "string \<Rightarrow> nat list option" where
  "b64_values [] = Some []"
| "b64_values (c # cs) =
     (if byte_of c = 10 \<or> byte_of c = 13 then b64_values cs
      else (case b64_value c of
              None \<Rightarrow> None
            | Some v \<Rightarrow> map_option (\<lambda>vs. v # vs) (b64_values cs)))"

definition b64_decode :: "string \<Rightarrow> string result" where
  "b64_decode s =
     (case Option.bind (b64_values s) b64_bytes of
        None \<Rightarrow> Inl (PlainError ''illegal base64 data'')
      | Some bs \<Rightarrow> Inr (map char_of bs))"

section \<open>Inline text\<close>

definition inline_text_prefix :: string where
  "inline_text_prefix = ''content://inline-text/v1/''"

definition has_prefix :: "string \<Rightarrow> string \<Rightarrow> bool" where
  "has_prefix p s = (take (length p) s = p)"

definition encode_inline_text :: "string \<Rightarrow> string" where
  "encode_inline_text text0 = inline_text_prefix @ b64_encode text0"

definition decode_inline_text :: "string \<Rightarrow> string result" where
  "decode_inline_text reference =
     (if \<not> has_prefix inline_text_prefix reference then Inl (PlainError ''unsupported content reference'')
      else (case b64_decode (drop (length inline_text_prefix) reference) of
              Inl e \<Rightarrow> Inl (Wrapped ''decode inline text content'' e)
            | Inr s \<Rightarrow> Inr s))"

section \<open>Interactive messages\<close>

record interactive_button =
  bt_Title :: string
  bt_Payload :: string

record interactive_message =
  im_MediaID :: string
  im_MediaLinkID :: string
  im_MediaRequired :: bool
  im_Text :: string
  im_Buttons :: "interactive_button list"

definition zero_message :: interactive_message where
  "zero_message = \<lparr>im_MediaID = '''', im_MediaLinkID = '''', im_MediaRequired = False, im_Text = '''', im_Buttons = []\<rparr>"

text \<open>\<^verbatim>\<open>len([]rune(s))\<close>: the length in bytes of the first rune, where a byte that starts no well-formed
  sequence counts as one rune.\<close>

abbreviation cont :: "nat \<Rightarrow> bool" where
  "cont b \<equiv> 128 \<le> b \<and> b \<le> 191"

definition three_ok :: "nat \<Rightarrow> nat \<Rightarrow> bool" where
  "three_ok a b = (if a = 224 then 160 \<le> b \<and> b \<le> 191 else if a = 237 then 128 \<le> b \<and> b \<le> 159
                   else 225 \<le> a \<and> a \<le> 239 \<and> cont b)"

definition four_ok :: "nat \<Rightarrow> nat \<Rightarrow> bool" where
  "four_ok a b = (if a = 240 then 144 \<le> b \<and> b \<le> 191 else if a = 244 then 128 \<le> b \<and> b \<le> 143
                  else 241 \<le> a \<and> a \<le> 243 \<and> cont b)"

fun rune_len :: "nat list \<Rightarrow> nat" where
  "rune_len (a # b # c # d # _) =
     (if 194 \<le> a \<and> a \<le> 223 \<and> cont b then 2
      else if three_ok a b \<and> cont c then 3
      else if four_ok a b \<and> cont c \<and> cont d then 4 else 1)"
| "rune_len [a, b, c] =
     (if 194 \<le> a \<and> a \<le> 223 \<and> cont b then 2 else if three_ok a b \<and> cont c then 3 else 1)"
| "rune_len [a, b] = (if 194 \<le> a \<and> a \<le> 223 \<and> cont b then 2 else 1)"
| "rune_len _ = 1"

lemma rune_len_pos: "0 < rune_len bs"
  by (cases bs rule: rune_len.cases) auto

function rune_count_bytes :: "nat list \<Rightarrow> nat" where
  "rune_count_bytes [] = 0"
| "rune_count_bytes (b # bs) = Suc (rune_count_bytes (drop (rune_len (b # bs)) (b # bs)))"
  by pat_completeness auto
termination
  by (relation "measure length") (simp_all add: rune_len_pos del: rune_len.simps)

definition rune_count :: "string \<Rightarrow> nat" where
  "rune_count s = rune_count_bytes (map byte_of s)"

fun check_buttons :: "interactive_button list \<Rightarrow> string list \<Rightarrow> unit result" where
  "check_buttons [] seen = Inr ()"
| "check_buttons (b # bs) seen =
     (if blank (bt_Title b) \<or> rune_count (bt_Title b) > 20 \<or> bt_Payload b = '''' \<or>
         length (bt_Payload b) > 1000 \<or> bt_Payload b \<in> set seen
      then Inl (PlainError ''invalid interactive button'')
      else check_buttons bs (bt_Payload b # seen))"

definition validate_interactive_message :: "interactive_message \<Rightarrow> unit result" where
  "validate_interactive_message m =
     (if blank (im_Text m) \<or> length (im_Buttons m) > 3
      then Inl (PlainError ''interactive message needs text and at most three buttons'')
      else check_buttons (im_Buttons m) [])"

definition interactive_content_prefix :: string where
  "interactive_content_prefix = ''inline-message:''"

definition encode_interactive ::
  "(interactive_message \<Rightarrow> string result) \<Rightarrow> interactive_message \<Rightarrow> string result" where
  "encode_interactive marshal m =
     (case validate_interactive_message m of
        Inl e \<Rightarrow> Inl e
      | Inr _ \<Rightarrow> (case marshal m of
                    Inl e \<Rightarrow> Inl e
                  | Inr bytes \<Rightarrow> Inr (interactive_content_prefix @ b64_encode bytes)))"

definition decode_interactive ::
  "(string \<Rightarrow> interactive_message result) \<Rightarrow> string \<Rightarrow> interactive_message result" where
  "decode_interactive unmarshal reference =
     (if \<not> has_prefix interactive_content_prefix reference
      then (case decode_inline_text reference of
              Inl e \<Rightarrow> Inl e | Inr s \<Rightarrow> Inr (zero_message\<lparr>im_Text := s\<rparr>))
      else (case b64_decode (drop (length interactive_content_prefix) reference) of
              Inl e \<Rightarrow> Inl e
            | Inr bytes \<Rightarrow>
                (case unmarshal bytes of
                   Inl e \<Rightarrow> Inl e
                 | Inr m \<Rightarrow> (case validate_interactive_message m of Inl e \<Rightarrow> Inl e | Inr _ \<Rightarrow> Inr m))))"

section \<open>Round trips\<close>

lemma b64_digits_bound: "\<forall>b \<in> set bs. b < 256 \<Longrightarrow> \<forall>d \<in> set (b64_digits bs). d < 64"
  by (induction bs rule: b64_digits.induct) auto

lemma b64_bytes_digits: "\<forall>b \<in> set bs. b < 256 \<Longrightarrow> b64_bytes (b64_digits bs) = Some bs"
  by (induction bs rule: b64_digits.induct) auto

lemma b64_alphabet_values:
  "\<forall>i \<in> set [0..<64]. b64_value (b64_char i) = Some i \<and> byte_of (b64_char i) \<noteq> 10 \<and> byte_of (b64_char i) \<noteq> 13"
  by code_simp

lemma b64_value_char [simp]:
  "i < 64 \<Longrightarrow> b64_value (b64_char i) = Some i" "i < 64 \<Longrightarrow> byte_of (b64_char i) \<noteq> 10"
  "i < 64 \<Longrightarrow> byte_of (b64_char i) \<noteq> 13"
  using b64_alphabet_values by simp_all

lemma b64_values_digits: "\<forall>d \<in> set ds. d < 64 \<Longrightarrow> b64_values (map b64_char ds) = Some ds"
  by (induction ds) simp_all

lemma byte_of_bound: "byte_of c < 256"
  by (simp add: byte_of_def)

lemma b64_decode_encode: "b64_decode (b64_encode s) = Inr s"
proof -
  have "\<forall>b \<in> set (map byte_of s). b < 256" by (simp add: byte_of_bound)
  note bytes = b64_values_digits [OF b64_digits_bound [OF this]] b64_bytes_digits [OF this]
  have "b64_values (b64_encode s) = Some (b64_digits (map byte_of s))"
    unfolding b64_encode_def by (rule bytes(1))
  with bytes(2) show ?thesis by (simp add: b64_decode_def comp_def byte_of_def)
qed

lemma has_prefix_append [simp]: "has_prefix p (p @ s)"
  by (simp add: has_prefix_def)

text \<open>
  C12: content references round-trip. A text of any bytes is recovered from its inline reference, also
  by the decoder of interactive messages; an interactive message that can be encoded is recovered
  exactly, provided the JSON decoder inverts the JSON encoder on it.
\<close>

theorem content_reference_roundtrip:
  "decode_inline_text (encode_inline_text s) = Inr s \<and>
   decode_interactive unmarshal (encode_inline_text s) = Inr (zero_message\<lparr>im_Text := s\<rparr>) \<and>
   (encode_interactive marshal m = Inr reference \<longrightarrow>
    (\<forall>bytes. marshal m = Inr bytes \<longrightarrow> unmarshal bytes = Inr m) \<longrightarrow>
    decode_interactive unmarshal reference = Inr m)"
proof (intro conjI impI)
  show inline: "decode_inline_text (encode_inline_text s) = Inr s"
    by (simp add: decode_inline_text_def encode_inline_text_def b64_decode_encode)
  have "\<not> has_prefix interactive_content_prefix (encode_inline_text s)"
    by (simp add: has_prefix_def interactive_content_prefix_def encode_inline_text_def inline_text_prefix_def)
  with inline show "decode_interactive unmarshal (encode_inline_text s) = Inr (zero_message\<lparr>im_Text := s\<rparr>)"
    by (simp add: decode_interactive_def)
  assume "encode_interactive marshal m = Inr reference"
    and inv: "\<forall>bytes. marshal m = Inr bytes \<longrightarrow> unmarshal bytes = Inr m"
  then obtain bytes where "validate_interactive_message m = Inr ()" "marshal m = Inr bytes"
    "reference = interactive_content_prefix @ b64_encode bytes"
    by (auto simp: encode_interactive_def split: sum.splits)
  with inv show "decode_interactive unmarshal reference = Inr m"
    by (simp add: decode_interactive_def b64_decode_encode)
qed

text \<open>A message with one button, and a stand-in for its JSON text.\<close>

definition sample_message :: interactive_message where
  "sample_message = zero_message\<lparr>im_Text := ''confirm?'', im_Buttons := [\<lparr>bt_Title = ''yes'', bt_Payload = ''p1''\<rparr>]\<rparr>"

theorem content_reference_roundtrip_witness:
  "\<exists>reference. encode_interactive (\<lambda>_. Inr ''json'') sample_message = Inr reference \<and>
     decode_interactive (\<lambda>_. Inr sample_message) reference = Inr sample_message"
proof -
  have "validate_interactive_message sample_message = Inr ()" by code_simp
  then obtain reference where "encode_interactive (\<lambda>_. Inr ''json'') sample_message = Inr reference"
    by (simp add: encode_interactive_def)
  with content_reference_roundtrip [of "''''" "\<lambda>_. Inr sample_message" "\<lambda>_. Inr ''json''" sample_message reference]
  show ?thesis by auto
qed

end
