(* ===== verification/Attribute_Validation.thy ===== *)
theory Attribute_Validation
  imports Catalog_Projection Message_Content
begin

text \<open>
  Validation of the merchant's attributes against a schema: \<^verbatim>\<open>catalogvalidation/attributes.go\<close>. A value is what
  \<^verbatim>\<open>encoding/json\<close> decodes; the regular expressions of package \<^verbatim>\<open>regexp\<close>, the timestamps \<^verbatim>\<open>time.Parse\<close> accepts for
  RFC 3339, Unicode case folding and the finite \<^verbatim>\<open>float64\<close> that a number denotes are fields of \<open>attr_env\<close>. The loop over
  the attributes runs in an order of its own, given as an argument.
\<close>

section \<open>Environment\<close>

record 'f attr_env =
  av_Number :: "string \<Rightarrow> 'f option"
  av_RegexOk :: "string \<Rightarrow> bool"
  av_Match :: "string \<Rightarrow> string \<Rightarrow> bool"
  av_RFC3339 :: "string \<Rightarrow> bool"
  av_EqualFold :: "string \<Rightarrow> string \<Rightarrow> bool"

definition check :: "bool \<Rightarrow> string \<Rightarrow> unit result" where
  "check b message = (if b then Inr () else Inl (PlainError message))"

definition and_then :: "unit result \<Rightarrow> unit result \<Rightarrow> unit result" where
  "and_then r k = (case r of Inl e \<Rightarrow> Inl e | Inr _ \<Rightarrow> k)"

section \<open>Values\<close>

definition supported_data_types :: "string list" where
  "supported_data_types =
     [''text'', ''number'', ''boolean'', ''date'', ''datetime'', ''select'', ''multi_select'', ''location'', ''money'']"

definition numeric_value :: "'f attr_env \<Rightarrow> json \<Rightarrow> 'f option" where
  "numeric_value env v = (case v of JNumber t \<Rightarrow> av_Number env t | _ \<Rightarrow> None)"

definition slice_values :: "json \<Rightarrow> json list option" where
  "slice_values v = (case v of JArray xs \<Rightarrow> Some xs | _ \<Rightarrow> None)"

definition scalar_value :: "'f attr_env \<Rightarrow> json \<Rightarrow> bool" where
  "scalar_value env v =
     (case v of JNull \<Rightarrow> False | JString s \<Rightarrow> True | JBool b \<Rightarrow> True | _ \<Rightarrow> numeric_value env v \<noteq> None)"

definition empty_required_value :: "json \<Rightarrow> bool" where
  "empty_required_value v =
     (case v of
        JNull \<Rightarrow> True
      | JString s \<Rightarrow> blank s
      | _ \<Rightarrow> (case slice_values v of Some xs \<Rightarrow> xs = [] | None \<Rightarrow> False))"

text \<open>\<^verbatim>\<open>reflect.DeepEqual\<close> on decoded values: numbers are compared as \<^verbatim>\<open>float64\<close>.\<close>

fun deep_equal :: "'f attr_env \<Rightarrow> json \<Rightarrow> json \<Rightarrow> bool"
  and deep_equal_list :: "'f attr_env \<Rightarrow> json list \<Rightarrow> json list \<Rightarrow> bool"
  and deep_equal_map :: "'f attr_env \<Rightarrow> (string \<times> json) list \<Rightarrow> (string \<times> json) list \<Rightarrow> bool" where
  "deep_equal env JNull JNull = True"
| "deep_equal env (JBool a) (JBool b) = (a = b)"
| "deep_equal env (JNumber a) (JNumber b) = (av_Number env a = av_Number env b)"
| "deep_equal env (JString a) (JString b) = (a = b)"
| "deep_equal env (JArray a) (JArray b) = deep_equal_list env a b"
| "deep_equal env (JObject a) (JObject b) = deep_equal_map env a b"
| "deep_equal env _ _ = False"
| "deep_equal_list env [] [] = True"
| "deep_equal_list env (a # as) (b # bs) = (deep_equal env a b \<and> deep_equal_list env as bs)"
| "deep_equal_list env _ _ = False"
| "deep_equal_map env [] [] = True"
| "deep_equal_map env ((k, a) # as) ((l, b) # bs) = (k = l \<and> deep_equal env a b \<and> deep_equal_map env as bs)"
| "deep_equal_map env _ _ = False"

fun contains_scalar :: "'f attr_env \<Rightarrow> json list \<Rightarrow> json \<Rightarrow> bool" where
  "contains_scalar env [] target = False"
| "contains_scalar env (candidate # vs) target =
     (case numeric_value env candidate of
        Some left \<Rightarrow> if numeric_value env target = Some left then True else contains_scalar env vs target
      | None \<Rightarrow> if deep_equal env candidate target then True else contains_scalar env vs target)"

text \<open>\<^verbatim>\<open>time.Parse("2006-01-02", text)\<close>: four, two and two digits of a day of the Gregorian calendar.\<close>

definition digit :: "char \<Rightarrow> nat option" where
  "digit c = (if 48 \<le> byte_of c \<and> byte_of c \<le> 57 then Some (byte_of c - 48) else None)"

fun decimal_digits :: "string \<Rightarrow> nat \<Rightarrow> nat option" where
  "decimal_digits [] n = Some n"
| "decimal_digits (c # cs) n = (case digit c of None \<Rightarrow> None | Some d \<Rightarrow> decimal_digits cs (10 * n + d))"

definition leap_year :: "nat \<Rightarrow> bool" where
  "leap_year y = (y mod 4 = 0 \<and> (y mod 100 \<noteq> 0 \<or> y mod 400 = 0))"

definition days_in :: "nat \<Rightarrow> nat \<Rightarrow> nat" where
  "days_in m y = (if m = 2 then (if leap_year y then 29 else 28) else if m \<in> {4, 6, 9, 11} then 30 else 31)"

fun date_ok :: "string \<Rightarrow> bool" where
  "date_ok [a, b, c, d, s1, e, f, s2, g, h] =
     (s1 = CHR ''-'' \<and> s2 = CHR ''-'' \<and>
      (case (decimal_digits [a, b, c, d] 0, decimal_digits [e, f] 0, decimal_digits [g, h] 0) of
         (Some y, Some m, Some day) \<Rightarrow> 1 \<le> m \<and> m \<le> 12 \<and> 1 \<le> day \<and> day \<le> days_in m y
       | _ \<Rightarrow> False))"
| "date_ok _ = False"

declare date_ok.simps [simp del]

section \<open>Definitions\<close>

definition numeric_rule :: "'f attr_env \<Rightarrow> attrs \<Rightarrow> string \<Rightarrow> string \<Rightarrow> 'f option result" where
  "numeric_rule env rules key message =
     (case map_of rules key of
        None \<Rightarrow> Inr None
      | Some raw \<Rightarrow> (case numeric_value env raw of None \<Rightarrow> Inl (PlainError message) | Some x \<Rightarrow> Inr (Some x)))"

definition text_rule :: "attrs \<Rightarrow> string \<Rightarrow> string \<Rightarrow> unit result" where
  "text_rule rules key message =
     (case map_of rules key of
        None \<Rightarrow> Inr ()
      | Some (JString s) \<Rightarrow> check (\<not> blank s) message
      | Some _ \<Rightarrow> Inl (PlainError message))"

definition enum_rule :: "attrs \<Rightarrow> unit result" where
  "enum_rule rules =
     (case map_of rules ''enum'' of
        None \<Rightarrow> Inr ()
      | Some raw \<Rightarrow> check (case slice_values raw of Some (x # xs) \<Rightarrow> True | _ \<Rightarrow> False) ''validation rule enum must be a non-empty array'')"

definition regex_rule :: "'f attr_env \<Rightarrow> attrs \<Rightarrow> unit result" where
  "regex_rule env rules =
     and_then (text_rule rules ''regex'' ''validation rule regex must be a non-empty string'')
       (case map_of rules ''regex'' of
          Some (JString pattern) \<Rightarrow> check (av_RegexOk env pattern) ''validation rule regex is invalid''
        | _ \<Rightarrow> Inr ())"

definition validate_definition :: "'f::{linorder,zero} attr_env \<Rightarrow> string \<Rightarrow> attrs \<Rightarrow> unit result" where
  "validate_definition env dataType rules =
     and_then (check (dataType \<in> set supported_data_types) ''unsupported attribute data_type'')
     (and_then (enum_rule rules)
     (case numeric_rule env rules ''min'' ''validation rule min must be numeric'' of
        Inl e \<Rightarrow> Inl e
      | Inr minValue \<Rightarrow>
     (case numeric_rule env rules ''max'' ''validation rule max must be numeric'' of
        Inl e \<Rightarrow> Inl e
      | Inr maxValue \<Rightarrow>
     and_then (check (case (minValue, maxValue) of (Some a, Some b) \<Rightarrow> a \<le> b | _ \<Rightarrow> True)
       ''validation rule min cannot be greater than max'')
     (and_then (regex_rule env rules)
     (and_then (text_rule rules ''currency'' ''validation rule currency must be a non-empty string'')
       (text_rule rules ''timezone'' ''validation rule timezone must be a non-empty string''))))))"

definition decode_rules :: "raw_json \<Rightarrow> attrs result" where
  "decode_rules raw =
     (case raw of
        RawEmpty \<Rightarrow> Inr []
      | RawInvalid \<Rightarrow> Inl (PlainError ''invalid JSON'')
      | RawValue (JObject m) \<Rightarrow> Inr m
      | RawValue JNull \<Rightarrow> Inr []
      | RawValue _ \<Rightarrow> Inl (PlainError ''json: cannot unmarshal into map''))"

section \<open>Values against a definition\<close>

definition value_of_type :: "'f attr_env \<Rightarrow> string \<Rightarrow> json \<Rightarrow> unit result" where
  "value_of_type env dataType v =
     (if dataType = ''text'' then check (case v of JString s \<Rightarrow> True | _ \<Rightarrow> False) ''must be text''
      else if dataType = ''number'' then check (numeric_value env v \<noteq> None) ''must be a finite number''
      else if dataType = ''boolean'' then check (case v of JBool b \<Rightarrow> True | _ \<Rightarrow> False) ''must be true or false''
      else if dataType = ''date'' then
        (case v of JString s \<Rightarrow> check (date_ok s) ''must use YYYY-MM-DD'' | _ \<Rightarrow> Inl (PlainError ''must be a date string''))
      else if dataType = ''datetime'' then
        (case v of JString s \<Rightarrow> check (av_RFC3339 env s) ''must use RFC3339'' | _ \<Rightarrow> Inl (PlainError ''must be a datetime string''))
      else if dataType = ''select'' then check (scalar_value env v) ''must be one scalar value''
      else if dataType = ''multi_select'' then
        (case slice_values v of
           None \<Rightarrow> Inl (PlainError ''must be an array'')
         | Some xs \<Rightarrow> check (list_all (scalar_value env) xs) ''must contain only scalar values'')
      else if dataType = ''location'' then
        (case v of
           JString s \<Rightarrow> check (\<not> blank s) ''location cannot be empty''
         | JObject m \<Rightarrow> Inr ()
         | _ \<Rightarrow> Inl (PlainError ''must be a location string or object''))
      else if dataType = ''money'' then
        (if numeric_value env v \<noteq> None then Inr ()
         else (case v of
           JObject m \<Rightarrow>
             and_then (check (case map_of m ''amount'' of Some a \<Rightarrow> numeric_value env a \<noteq> None | None \<Rightarrow> True) ''money amount must be numeric'')
               (check (case map_of m ''currency'' of Some (JString c) \<Rightarrow> \<not> blank c | Some _ \<Rightarrow> False | None \<Rightarrow> True)
                  ''money currency must be a non-empty string'')
         | _ \<Rightarrow> Inl (PlainError ''must be a numeric amount or money object'')))
      else Inl (PlainError ''unsupported data type''))"

definition value_in_enum :: "'f attr_env \<Rightarrow> string \<Rightarrow> json \<Rightarrow> attrs \<Rightarrow> unit result" where
  "value_in_enum env dataType v rules =
     (case map_of rules ''enum'' of
        None \<Rightarrow> Inr ()
      | Some raw \<Rightarrow>
          let allowed = (case slice_values raw of Some xs \<Rightarrow> xs | None \<Rightarrow> []) in
          (case slice_values v of
             Some xs \<Rightarrow>
               if dataType = ''multi_select''
               then check (list_all (contains_scalar env allowed) xs) ''contains a value outside the allowed choices''
               else check (contains_scalar env allowed v) ''value is outside the allowed choices''
           | None \<Rightarrow> check (contains_scalar env allowed v) ''value is outside the allowed choices''))"

text \<open>\<^verbatim>\<open>numericValue\<close> of what is no number is zero; the checks before leave no such case.\<close>

definition number_of :: "'f::zero attr_env \<Rightarrow> json \<Rightarrow> 'f" where
  "number_of env v = (case numeric_value env v of None \<Rightarrow> 0 | Some x \<Rightarrow> x)"

definition value_in_bounds :: "'f::{linorder,zero} attr_env \<Rightarrow> string \<Rightarrow> json \<Rightarrow> attrs \<Rightarrow> unit result" where
  "value_in_bounds env dataType v rules =
     (if dataType \<noteq> ''number'' then Inr ()
      else and_then
             (check (case map_of rules ''min'' of Some raw \<Rightarrow> \<not> number_of env v < number_of env raw | None \<Rightarrow> True)
                ''must be greater than or equal to the minimum'')
             (check (case map_of rules ''max'' of Some raw \<Rightarrow> \<not> number_of env v > number_of env raw | None \<Rightarrow> True)
                ''must be less than or equal to the maximum''))"

definition value_matches :: "'f attr_env \<Rightarrow> json \<Rightarrow> attrs \<Rightarrow> unit result" where
  "value_matches env v rules =
     (case map_of rules ''regex'' of
        None \<Rightarrow> Inr ()
      | Some raw \<Rightarrow>
          (case v of
             JString s \<Rightarrow> check (case raw of JString p \<Rightarrow> av_RegexOk env p \<and> av_Match env p s | _ \<Rightarrow> av_RegexOk env '''' \<and> av_Match env '''' s)
                            ''does not match the required format''
           | _ \<Rightarrow> Inl (PlainError ''regex rule requires a text value'')))"

definition text_of :: "json \<Rightarrow> string" where
  "text_of raw = (case raw of JString s \<Rightarrow> s | _ \<Rightarrow> '''')"

definition value_field_rule :: "attrs \<Rightarrow> string \<Rightarrow> (string \<Rightarrow> string \<Rightarrow> bool) \<Rightarrow> string \<Rightarrow> string \<Rightarrow> json \<Rightarrow> unit result" where
  "value_field_rule rules key same objectMessage message v =
     (case map_of rules key of
        None \<Rightarrow> Inr ()
      | Some raw \<Rightarrow>
          (case v of
             JObject m \<Rightarrow> check (case map_of m key of
                                    Some (JString c) \<Rightarrow> same (trim_space c) (trim_space (text_of raw))
                                  | _ \<Rightarrow> False) message
           | _ \<Rightarrow> Inl (PlainError objectMessage)))"

definition validate_value :: "'f::{linorder,zero} attr_env \<Rightarrow> string \<Rightarrow> json \<Rightarrow> attrs \<Rightarrow> unit result" where
  "validate_value env dataType v rules =
     and_then (value_of_type env dataType v)
     (and_then (value_in_enum env dataType v rules)
     (and_then (value_in_bounds env dataType v rules)
     (and_then (value_matches env v rules)
     (and_then (value_field_rule rules ''currency'' (av_EqualFold env) ''currency rule requires a money object'' ''currency must be the required one'' v)
       (value_field_rule rules ''timezone'' (=) ''timezone rule requires an object value'' ''timezone must be the required one'' v)))))"

section \<open>Attributes against a schema\<close>

text \<open>\<^verbatim>\<open>unicode.IsControl\<close> of some rune: U+0000 to U+001F and U+007F to U+009F.\<close>

fun has_control :: "nat list \<Rightarrow> bool" where
  "has_control [] = False"
| "has_control [a] = (a < 32 \<or> a = 127)"
| "has_control (a # b # bs) = (a < 32 \<or> a = 127 \<or> (a = 194 \<and> 128 \<le> b \<and> b \<le> 159) \<or> has_control (b # bs))"

definition custom_name :: "string \<Rightarrow> unit result" where
  "custom_name key =
     (let trimmed = trim_space key in
      and_then (check (trimmed \<noteq> '''') ''custom attribute name cannot be empty'')
      (and_then (check (\<not> has_prefix ''attr_'' trimmed) ''attribute key is reserved for a managed schema definition'')
      (and_then (check (rune_count trimmed \<le> 120) ''custom attribute name is too long'')
        (check (\<not> has_control (map byte_of trimmed)) ''custom attribute name contains control characters''))))"

definition wrap_unit :: "string \<Rightarrow> unit result \<Rightarrow> unit result" where
  "wrap_unit message r = (case r of Inl e \<Rightarrow> Inl (Wrapped message e) | Inr u \<Rightarrow> Inr u)"

fun check_definitions :: "'f::{linorder,zero} attr_env \<Rightarrow> definition_record list \<Rightarrow> string list \<Rightarrow> unit result" where
  "check_definitions env [] seen = Inr ()"
| "check_definitions env (d # ds) seen =
     (if blank (dr_Key d) then Inl (PlainError ''schema contains an empty attribute key'')
      else if dr_Key d \<in> set seen then Inl (PlainError ''schema contains duplicate attribute key'')
      else (case decode_rules (dr_ValidationRules d) of
              Inl e \<Rightarrow> Inl (Wrapped ''attribute has invalid validation_rules'' e)
            | Inr rules \<Rightarrow>
                and_then (wrap_unit ''attribute definition is invalid'' (validate_definition env (dr_DataType d) rules))
                  (check_definitions env ds (dr_Key d # seen))))"

fun check_required :: "definition_record list \<Rightarrow> attrs \<Rightarrow> unit result" where
  "check_required [] attributes = Inr ()"
| "check_required (d # ds) attributes =
     (if \<not> dr_Required d then check_required ds attributes
      else (case map_of attributes (dr_Key d) of
              None \<Rightarrow> Inl (PlainError ''required attribute is missing'')
            | Some v \<Rightarrow> if empty_required_value v then Inl (PlainError ''required attribute is missing'')
                        else check_required ds attributes))"

definition check_attribute :: "'f::{linorder,zero} attr_env \<Rightarrow> definition_record list \<Rightarrow> string \<Rightarrow> json \<Rightarrow> unit result" where
  "check_attribute env ds key v =
     (case find (\<lambda>d. dr_Key d = key) ds of
        None \<Rightarrow> custom_name key
      | Some d \<Rightarrow>
          if v = JNull then check (\<not> dr_Required d) ''required attribute cannot be null''
          else (case decode_rules (dr_ValidationRules d) of
                  Inl e \<Rightarrow> Inl (Wrapped ''attribute has invalid validation_rules'' e)
                | Inr rules \<Rightarrow> wrap_unit ''attribute'' (validate_value env (dr_DataType d) v rules)))"

fun check_attributes :: "'f::{linorder,zero} attr_env \<Rightarrow> definition_record list \<Rightarrow> attrs \<Rightarrow> unit result" where
  "check_attributes env ds [] = Inr ()"
| "check_attributes env ds ((key, v) # rest) = and_then (check_attribute env ds key v) (check_attributes env ds rest)"

definition validate_attributes_with ::
  "'f::{linorder,zero} attr_env \<Rightarrow> (attrs \<Rightarrow> attrs) \<Rightarrow> schema_record option \<Rightarrow> attrs \<Rightarrow> bool \<Rightarrow> unit result" where
  "validate_attributes_with env order schema attributes enforceRequired =
     (let ds = (case schema of None \<Rightarrow> [] | Some sr \<Rightarrow> sr_Definitions sr) in
      and_then (check_definitions env ds [])
      (and_then (if enforceRequired then check_required ds attributes else Inr ())
        (check_attributes env ds (order attributes))))"

definition validate_attributes :: "'f::{linorder,zero} attr_env \<Rightarrow> (attrs \<Rightarrow> attrs) \<Rightarrow> schema_record option \<Rightarrow> attrs \<Rightarrow> unit result" where
  "validate_attributes env order schema attributes = validate_attributes_with env order schema attributes True"

definition validate_partial_attributes :: "'f::{linorder,zero} attr_env \<Rightarrow> (attrs \<Rightarrow> attrs) \<Rightarrow> schema_record option \<Rightarrow> attrs \<Rightarrow> unit result" where
  "validate_partial_attributes env order schema attributes = validate_attributes_with env order schema attributes False"

section \<open>What the validation means\<close>

inductive typed :: "'f attr_env \<Rightarrow> string \<Rightarrow> json \<Rightarrow> bool" for env where
  text_value: "typed env ''text'' (JString s)"
| number_value: "av_Number env t = Some x \<Longrightarrow> typed env ''number'' (JNumber t)"
| boolean: "typed env ''boolean'' (JBool b)"
| date: "date_ok s \<Longrightarrow> typed env ''date'' (JString s)"
| datetime: "av_RFC3339 env s \<Longrightarrow> typed env ''datetime'' (JString s)"
| select: "scalar_value env v \<Longrightarrow> typed env ''select'' v"
| multi_select: "(\<And>x. x \<in> set xs \<Longrightarrow> scalar_value env x) \<Longrightarrow> typed env ''multi_select'' (JArray xs)"
| place_name: "\<not> blank s \<Longrightarrow> typed env ''location'' (JString s)"
| place: "typed env ''location'' (JObject m)"
| amount: "av_Number env t = Some x \<Longrightarrow> typed env ''money'' (JNumber t)"
| money: "(\<And>a. map_of m ''amount'' = Some a \<Longrightarrow> numeric_value env a \<noteq> None) \<Longrightarrow>
    (\<And>c. map_of m ''currency'' = Some c \<Longrightarrow> \<exists>s. c = JString s \<and> \<not> blank s) \<Longrightarrow> typed env ''money'' (JObject m)"

inductive_cases typed_textE: "typed env ''text'' v"
inductive_cases typed_numberE: "typed env ''number'' v"
inductive_cases typed_booleanE: "typed env ''boolean'' v"
inductive_cases typed_dateE: "typed env ''date'' v"
inductive_cases typed_datetimeE: "typed env ''datetime'' v"
inductive_cases typed_selectE: "typed env ''select'' v"
inductive_cases typed_multi_selectE: "typed env ''multi_select'' v"
inductive_cases typed_locationE: "typed env ''location'' v"
inductive_cases typed_moneyE: "typed env ''money'' v"

lemmas typed_cases = typed_textE typed_numberE typed_booleanE typed_dateE typed_datetimeE typed_selectE
  typed_multi_selectE typed_locationE typed_moneyE

lemma and_then_Inr [simp]: "and_then r k = Inr u \<longleftrightarrow> r = Inr () \<and> k = Inr u"
  by (auto simp: and_then_def split: sum.splits)

lemma check_Inr [simp]: "check b message = Inr u \<longleftrightarrow> b"
  by (auto simp: check_def)

lemma wrap_unit_Inr [simp]: "wrap_unit message r = Inr u \<longleftrightarrow> r = Inr ()"
  by (auto simp: wrap_unit_def split: sum.splits)

lemma numeric_value_Some: "numeric_value env v = Some x \<longleftrightarrow> (\<exists>t. v = JNumber t \<and> av_Number env t = Some x)"
  by (auto simp: numeric_value_def split: json.splits)

lemma slice_values_Some: "slice_values v = Some xs \<longleftrightarrow> v = JArray xs"
  by (auto simp: slice_values_def split: json.splits)

lemma slice_values_None: "slice_values v = None \<longleftrightarrow> (\<forall>xs. v \<noteq> JArray xs)"
  by (auto simp: slice_values_def split: json.splits)

text \<open>The values a type admits are exactly those the switch over the data type lets pass.\<close>

lemma money_value:
  "typed env ''money'' v \<longleftrightarrow>
     numeric_value env v \<noteq> None \<or>
     (\<exists>m. v = JObject m \<and> (\<forall>a. map_of m ''amount'' = Some a \<longrightarrow> numeric_value env a \<noteq> None) \<and>
          (\<forall>c. map_of m ''currency'' = Some c \<longrightarrow> (\<exists>s. c = JString s \<and> \<not> blank s)))"
proof
  assume "typed env ''money'' v"
  then show "numeric_value env v \<noteq> None \<or>
     (\<exists>m. v = JObject m \<and> (\<forall>a. map_of m ''amount'' = Some a \<longrightarrow> numeric_value env a \<noteq> None) \<and>
          (\<forall>c. map_of m ''currency'' = Some c \<longrightarrow> (\<exists>s. c = JString s \<and> \<not> blank s)))"
    by (cases rule: typed_moneyE) (auto simp: numeric_value_def)
qed (auto simp: numeric_value_Some intro: typed.amount typed.money)

lemma value_of_type_exact:
  assumes "dataType \<in> set supported_data_types"
  shows "value_of_type env dataType v = Inr () \<longleftrightarrow> typed env dataType v"
proof -
  consider "dataType = ''text''" | "dataType = ''number''" | "dataType = ''boolean''" | "dataType = ''date''"
    | "dataType = ''datetime''" | "dataType = ''select''" | "dataType = ''multi_select''" | "dataType = ''location''"
    | "dataType = ''money''"
    using assms unfolding supported_data_types_def list.set insert_iff empty_iff by metis
  then show ?thesis
  proof cases
    case 1
    then show ?thesis by (auto simp: value_of_type_def split: json.splits elim!: typed_textE intro: typed.text_value)
  next
    case 2
    then show ?thesis
      by (auto simp: value_of_type_def numeric_value_def split: json.splits elim!: typed_numberE intro: typed.number_value)
  next
    case 3
    then show ?thesis by (auto simp: value_of_type_def split: json.splits elim!: typed_booleanE intro: typed.boolean)
  next
    case 4
    then show ?thesis by (auto simp: value_of_type_def split: json.splits elim!: typed_dateE intro: typed.date)
  next
    case 5
    then show ?thesis by (auto simp: value_of_type_def split: json.splits elim!: typed_datetimeE intro: typed.datetime)
  next
    case 6
    then show ?thesis by (auto simp: value_of_type_def elim: typed_selectE intro: typed.select)
  next
    case 7
    then show ?thesis
      by (auto simp: value_of_type_def slice_values_def list_all_iff split: json.splits elim: typed_multi_selectE intro: typed.multi_select)
  next
    case 8
    then show ?thesis by (auto simp: value_of_type_def split: json.splits elim!: typed_locationE intro: typed.place_name typed.place)
  next
    case 9
    then show ?thesis
      unfolding 9 money_value by (cases v) (auto simp: value_of_type_def split: option.splits json.splits)
  qed
qed

definition same_choice :: "'f attr_env \<Rightarrow> json \<Rightarrow> json \<Rightarrow> bool" where
  "same_choice env a x \<longleftrightarrow>
     (case numeric_value env a of Some n \<Rightarrow> numeric_value env x = Some n | None \<Rightarrow> deep_equal env a x)"

definition choices :: "string \<Rightarrow> json \<Rightarrow> json list" where
  "choices dataType v = (case v of JArray xs \<Rightarrow> if dataType = ''multi_select'' then xs else [v] | _ \<Rightarrow> [v])"

text \<open>What a well-formed set of rules asks of a value.\<close>

definition rules_ok :: "'f::linorder attr_env \<Rightarrow> string \<Rightarrow> attrs \<Rightarrow> bool" where
  "rules_ok env dataType rules \<longleftrightarrow>
     dataType \<in> set supported_data_types \<and>
     (\<forall>raw. map_of rules ''enum'' = Some raw \<longrightarrow> (\<exists>x xs. raw = JArray (x # xs))) \<and>
     (\<forall>raw. map_of rules ''min'' = Some raw \<longrightarrow> numeric_value env raw \<noteq> None) \<and>
     (\<forall>raw. map_of rules ''max'' = Some raw \<longrightarrow> numeric_value env raw \<noteq> None) \<and>
     (\<forall>raw raw' a b. map_of rules ''min'' = Some raw \<longrightarrow> map_of rules ''max'' = Some raw' \<longrightarrow>
        numeric_value env raw = Some a \<longrightarrow> numeric_value env raw' = Some b \<longrightarrow> a \<le> b) \<and>
     (\<forall>raw. map_of rules ''regex'' = Some raw \<longrightarrow> (\<exists>p. raw = JString p \<and> \<not> blank p \<and> av_RegexOk env p)) \<and>
     (\<forall>raw. map_of rules ''currency'' = Some raw \<longrightarrow> (\<exists>c. raw = JString c \<and> \<not> blank c)) \<and>
     (\<forall>raw. map_of rules ''timezone'' = Some raw \<longrightarrow> (\<exists>c. raw = JString c \<and> \<not> blank c))"

definition obeys_rules :: "'f::linorder attr_env \<Rightarrow> string \<Rightarrow> attrs \<Rightarrow> json \<Rightarrow> bool" where
  "obeys_rules env dataType rules v \<longleftrightarrow>
     (\<forall>allowed. map_of rules ''enum'' = Some (JArray allowed) \<longrightarrow>
        (\<forall>x \<in> set (choices dataType v). \<exists>a \<in> set allowed. same_choice env a x)) \<and>
     (\<forall>x raw a. dataType = ''number'' \<longrightarrow> numeric_value env v = Some x \<longrightarrow> numeric_value env raw = Some a \<longrightarrow>
        (map_of rules ''min'' = Some raw \<longrightarrow> a \<le> x) \<and> (map_of rules ''max'' = Some raw \<longrightarrow> x \<le> a)) \<and>
     (\<forall>p. map_of rules ''regex'' = Some (JString p) \<longrightarrow> (\<exists>s. v = JString s \<and> av_Match env p s)) \<and>
     (\<forall>c. map_of rules ''currency'' = Some (JString c) \<longrightarrow>
        (\<exists>m d. v = JObject m \<and> map_of m ''currency'' = Some (JString d) \<and> av_EqualFold env (trim_space d) (trim_space c))) \<and>
     (\<forall>c. map_of rules ''timezone'' = Some (JString c) \<longrightarrow>
        (\<exists>m d. v = JObject m \<and> map_of m ''timezone'' = Some (JString d) \<and> trim_space d = trim_space c))"

lemma text_rule_exact:
  "text_rule rules key message = Inr () \<longleftrightarrow> (\<forall>raw. map_of rules key = Some raw \<longrightarrow> (\<exists>c. raw = JString c \<and> \<not> blank c))"
  by (auto simp: text_rule_def split: option.splits json.splits)

lemma numeric_rule_exact:
  "numeric_rule env rules key message = Inr r \<longleftrightarrow>
     (case map_of rules key of None \<Rightarrow> r = None | Some raw \<Rightarrow> numeric_value env raw \<noteq> None \<and> r = numeric_value env raw)"
  by (auto simp: numeric_rule_def split: option.splits)

lemma enum_rule_exact:
  "enum_rule rules = Inr () \<longleftrightarrow> (\<forall>raw. map_of rules ''enum'' = Some raw \<longrightarrow> (\<exists>x xs. raw = JArray (x # xs)))"
  by (auto simp: enum_rule_def slice_values_def split: option.splits json.splits list.splits)

lemma regex_rule_exact:
  "regex_rule env rules = Inr () \<longleftrightarrow>
     (\<forall>raw. map_of rules ''regex'' = Some raw \<longrightarrow> (\<exists>p. raw = JString p \<and> \<not> blank p \<and> av_RegexOk env p))"
  by (auto simp: regex_rule_def text_rule_exact split: option.splits json.splits)

lemma validate_definition_exact: "validate_definition env dataType rules = Inr () \<longleftrightarrow> rules_ok env dataType rules"
proof -
  let ?bounds = "case numeric_rule env rules ''min'' ''validation rule min must be numeric'' of
        Inl e \<Rightarrow> False
      | Inr lo \<Rightarrow> (case numeric_rule env rules ''max'' ''validation rule max must be numeric'' of
        Inl e \<Rightarrow> False
      | Inr hi \<Rightarrow> (case (lo, hi) of (Some a, Some b) \<Rightarrow> a \<le> b | _ \<Rightarrow> True))"
  have main: "validate_definition env dataType rules = Inr () \<longleftrightarrow>
      dataType \<in> set supported_data_types \<and> enum_rule rules = Inr () \<and> ?bounds \<and> regex_rule env rules = Inr () \<and>
      text_rule rules ''currency'' ''validation rule currency must be a non-empty string'' = Inr () \<and>
      text_rule rules ''timezone'' ''validation rule timezone must be a non-empty string'' = Inr ()"
    by (simp add: validate_definition_def split: sum.split)
  have bounds: "?bounds \<longleftrightarrow>
     (\<forall>raw. map_of rules ''min'' = Some raw \<longrightarrow> numeric_value env raw \<noteq> None) \<and>
     (\<forall>raw. map_of rules ''max'' = Some raw \<longrightarrow> numeric_value env raw \<noteq> None) \<and>
     (\<forall>raw raw' a b. map_of rules ''min'' = Some raw \<longrightarrow> map_of rules ''max'' = Some raw' \<longrightarrow>
        numeric_value env raw = Some a \<longrightarrow> numeric_value env raw' = Some b \<longrightarrow> a \<le> b)"
    by (cases "map_of rules ''min''"; cases "map_of rules ''max''") (auto simp: numeric_rule_def split: option.split)
  show ?thesis
    unfolding main bounds rules_ok_def enum_rule_exact regex_rule_exact text_rule_exact by (simp only: conj_assoc)
qed

lemma contains_scalar_exact: "contains_scalar env allowed x \<longleftrightarrow> (\<exists>a \<in> set allowed. same_choice env a x)"
  by (induction allowed) (auto simp: same_choice_def split: option.splits)

lemma value_in_enum_exact:
  assumes "rules_ok env dataType rules"
  shows "value_in_enum env dataType v rules = Inr () \<longleftrightarrow>
    (\<forall>allowed. map_of rules ''enum'' = Some (JArray allowed) \<longrightarrow>
        (\<forall>x \<in> set (choices dataType v). \<exists>a \<in> set allowed. same_choice env a x))"
proof (cases "map_of rules ''enum''")
  case (Some raw)
  with assms obtain y ys where "raw = JArray (y # ys)" unfolding rules_ok_def by blast
  with Some show ?thesis
    by (cases v) (simp_all add: value_in_enum_def slice_values_def choices_def list_all_iff contains_scalar_exact)
qed (simp add: value_in_enum_def)

lemma value_in_bounds_exact:
  assumes "rules_ok env dataType rules" "typed env dataType v"
  shows "value_in_bounds env dataType v rules = Inr () \<longleftrightarrow>
    (\<forall>x raw a. dataType = ''number'' \<longrightarrow> numeric_value env v = Some x \<longrightarrow> numeric_value env raw = Some a \<longrightarrow>
        (map_of rules ''min'' = Some raw \<longrightarrow> a \<le> x) \<and> (map_of rules ''max'' = Some raw \<longrightarrow> x \<le> a))"
proof (cases "dataType = ''number''")
  case True
  with assms(2) obtain x where x: "numeric_value env v = Some x" by (auto simp: numeric_value_def elim: typed_numberE)
  have "\<forall>raw. map_of rules ''min'' = Some raw \<longrightarrow> numeric_value env raw \<noteq> None"
    "\<forall>raw. map_of rules ''max'' = Some raw \<longrightarrow> numeric_value env raw \<noteq> None"
    using assms(1) unfolding rules_ok_def by blast+
  with True x show ?thesis
    by (cases "map_of rules ''min''"; cases "map_of rules ''max''")
      (auto simp: value_in_bounds_def number_of_def not_less split: option.splits)
qed (simp add: value_in_bounds_def)

lemma value_matches_exact:
  assumes "rules_ok env dataType rules"
  shows "value_matches env v rules = Inr () \<longleftrightarrow>
    (\<forall>p. map_of rules ''regex'' = Some (JString p) \<longrightarrow> (\<exists>s. v = JString s \<and> av_Match env p s))"
proof (cases "map_of rules ''regex''")
  case (Some raw)
  with assms obtain p where "raw = JString p" "av_RegexOk env p" unfolding rules_ok_def by blast
  with Some show ?thesis by (cases v) (simp_all add: value_matches_def)
qed (simp add: value_matches_def)

lemma value_field_rule_exact:
  assumes "\<And>raw. map_of rules key = Some raw \<Longrightarrow> \<exists>c. raw = JString c"
  shows "value_field_rule rules key same objectMessage message v = Inr () \<longleftrightarrow>
    (\<forall>c. map_of rules key = Some (JString c) \<longrightarrow>
       (\<exists>m d. v = JObject m \<and> map_of m key = Some (JString d) \<and> same (trim_space d) (trim_space c)))"
proof (cases "map_of rules key")
  case (Some raw)
  with assms obtain c where "raw = JString c" by blast
  with Some show ?thesis
    by (cases v) (auto simp: value_field_rule_def text_of_def split: option.splits json.splits)
qed (simp add: value_field_rule_def)

lemma validate_value_exact:
  assumes "rules_ok env dataType rules"
  shows "validate_value env dataType v rules = Inr () \<longleftrightarrow> typed env dataType v \<and> obeys_rules env dataType rules v"
proof -
  have supported: "dataType \<in> set supported_data_types" using assms by (simp add: rules_ok_def)
  have currency: "value_field_rule rules ''currency'' same obj msg v = Inr () \<longleftrightarrow>
      (\<forall>c. map_of rules ''currency'' = Some (JString c) \<longrightarrow>
        (\<exists>m d. v = JObject m \<and> map_of m ''currency'' = Some (JString d) \<and> same (trim_space d) (trim_space c)))" for same obj msg
    by (rule value_field_rule_exact) (use assms in \<open>unfold rules_ok_def, blast\<close>)
  have timezone: "value_field_rule rules ''timezone'' same obj msg v = Inr () \<longleftrightarrow>
      (\<forall>c. map_of rules ''timezone'' = Some (JString c) \<longrightarrow>
        (\<exists>m d. v = JObject m \<and> map_of m ''timezone'' = Some (JString d) \<and> same (trim_space d) (trim_space c)))" for same obj msg
    by (rule value_field_rule_exact) (use assms in \<open>unfold rules_ok_def, blast\<close>)
  show ?thesis
    unfolding validate_value_def obeys_rules_def and_then_Inr value_of_type_exact [OF supported]
      value_in_enum_exact [OF assms] value_matches_exact [OF assms] currency timezone
    by (rule conj_cong [OF refl]) (simp only: value_in_bounds_exact [OF assms])
qed

text \<open>A schema whose keys are distinct and not blank and whose rules are well-formed.\<close>

definition schema_ok :: "'f::{linorder,zero} attr_env \<Rightarrow> definition_record list \<Rightarrow> bool" where
  "schema_ok env ds \<longleftrightarrow> distinct (map dr_Key ds) \<and>
     (\<forall>d \<in> set ds. \<not> blank (dr_Key d) \<and>
        (\<exists>rules. decode_rules (dr_ValidationRules d) = Inr rules \<and> rules_ok env (dr_DataType d) rules))"

definition required_present :: "definition_record list \<Rightarrow> attrs \<Rightarrow> bool" where
  "required_present ds attributes \<longleftrightarrow>
     (\<forall>d \<in> set ds. dr_Required d \<longrightarrow> (\<exists>v. map_of attributes (dr_Key d) = Some v \<and> \<not> empty_required_value v))"

text \<open>
  A value under the key of a definition is absent where that is allowed, or of the definition's type and within its
  rules; a free-form key has a name that is not blank, not reserved, not too long and without control characters.
\<close>

definition attribute_ok :: "'f::{linorder,zero} attr_env \<Rightarrow> definition_record list \<Rightarrow> string \<Rightarrow> json \<Rightarrow> bool" where
  "attribute_ok env ds key v \<longleftrightarrow>
     (\<forall>d \<in> set ds. dr_Key d = key \<longrightarrow>
        (if v = JNull then \<not> dr_Required d
         else \<forall>rules. decode_rules (dr_ValidationRules d) = Inr rules \<longrightarrow>
                typed env (dr_DataType d) v \<and> obeys_rules env (dr_DataType d) rules v)) \<and>
     (key \<notin> dr_Key ` set ds \<longrightarrow>
        \<not> blank key \<and> \<not> has_prefix ''attr_'' (trim_space key) \<and> rune_count (trim_space key) \<le> 120 \<and>
        \<not> has_control (map byte_of (trim_space key)))"

lemma check_definitions_exact:
  "check_definitions env ds seen = Inr () \<longleftrightarrow> schema_ok env ds \<and> set seen \<inter> dr_Key ` set ds = {}"
proof (induction ds arbitrary: seen)
  case (Cons d ds)
  have "check_definitions env (d # ds) seen = Inr () \<longleftrightarrow>
      \<not> blank (dr_Key d) \<and> dr_Key d \<notin> set seen \<and>
      (\<exists>rules. decode_rules (dr_ValidationRules d) = Inr rules \<and> rules_ok env (dr_DataType d) rules) \<and>
      check_definitions env ds (dr_Key d # seen) = Inr ()"
    by (cases "decode_rules (dr_ValidationRules d)") (simp_all add: validate_definition_exact)
  then show ?case unfolding Cons.IH schema_ok_def by auto
qed (simp add: schema_ok_def)

lemma check_required_exact: "check_required ds attributes = Inr () \<longleftrightarrow> required_present ds attributes"
  by (induction ds) (auto simp: required_present_def split: option.splits)

lemma check_attribute_exact:
  assumes "schema_ok env ds"
  shows "check_attribute env ds key v = Inr () \<longleftrightarrow> attribute_ok env ds key v"
proof (cases "find (\<lambda>d. dr_Key d = key) ds")
  case None
  then have "key \<notin> dr_Key ` set ds" by (auto simp: find_None_iff)
  moreover from this have "\<forall>d \<in> set ds. dr_Key d \<noteq> key" by auto
  ultimately show ?thesis
    using None by (auto simp: check_attribute_def attribute_ok_def custom_name_def Let_def)
next
  case (Some d)
  with find_SomeD [OF Some] have d: "d \<in> set ds" "dr_Key d = key" by auto
  with assms obtain rules where rules: "decode_rules (dr_ValidationRules d) = Inr rules" "rules_ok env (dr_DataType d) rules"
    unfolding schema_ok_def by blast
  have unique: "\<And>e. e \<in> set ds \<Longrightarrow> dr_Key e = key \<longleftrightarrow> e = d"
    using assms d by (auto simp: schema_ok_def distinct_map inj_on_def)
  have "attribute_ok env ds key v \<longleftrightarrow>
      (if v = JNull then \<not> dr_Required d else typed env (dr_DataType d) v \<and> obeys_rules env (dr_DataType d) rules v)"
    unfolding attribute_ok_def using d rules(1) unique by (auto simp: image_iff)
  with Some rules show ?thesis by (simp add: check_attribute_def validate_value_exact)
qed

lemma check_attributes_exact:
  "schema_ok env ds \<Longrightarrow> check_attributes env ds as = Inr () \<longleftrightarrow> (\<forall>(key, v) \<in> set as. attribute_ok env ds key v)"
  by (induction env ds as rule: check_attributes.induct) (simp_all add: check_attribute_exact)

text \<open>
  C8: Attributes are accepted exactly when the schema is well-formed, every required attribute has a value, every value
  under a key of the schema has the declared type and obeys the declared rules, and every other key is a proper name. In
  particular the answer does not depend on the order in which the map is traversed.
\<close>

theorem attributes_accepted_iff_typed:
  assumes "set (order attributes) = set attributes"
  shows "validate_attributes_with env order schema attributes enforceRequired = Inr () \<longleftrightarrow>
    (let ds = (case schema of None \<Rightarrow> [] | Some sr \<Rightarrow> sr_Definitions sr) in
     schema_ok env ds \<and> (enforceRequired \<longrightarrow> required_present ds attributes) \<and>
     (\<forall>(key, v) \<in> set attributes. attribute_ok env ds key v))"
  unfolding validate_attributes_with_def Let_def and_then_Inr check_definitions_exact
  using assms by (auto simp: check_required_exact check_attributes_exact)

definition sample_attr_env :: "int attr_env" where
  "sample_attr_env = \<lparr>av_Number = (\<lambda>t. map_option int (decimal_digits t 0)), av_RegexOk = (\<lambda>_. True), av_Match = (\<lambda>_ _. True),
     av_RFC3339 = (\<lambda>_. True), av_EqualFold = (=)\<rparr>"

definition sample_schema :: schema_record where
  "sample_schema = \<lparr>sr_ID = ''s'', sr_BusinessID = ''b'', sr_Name = ''n'', sr_Version = 1, sr_Definitions =
     [\<lparr>dr_ID = ''1'', dr_Key = ''attr_size'', dr_Label = ''Size'', dr_DataType = ''number'', dr_Required = True,
       dr_ValidationRules = RawValue (JObject [(''max'', JNumber ''50''), (''min'', JNumber ''10'')]), dr_DisplayOrder = 1\<rparr>]\<rparr>"

theorem attributes_accepted_iff_typed_witness:
  "typed sample_attr_env ''number'' (JNumber ''42'') \<and>
   validate_attributes_with sample_attr_env rev (Some sample_schema) [(''attr_size'', JNumber ''42''), (''colour'', JString ''red'')] True = Inr () \<and>
   validate_attributes_with sample_attr_env rev (Some sample_schema) [(''attr_size'', JNumber ''52'')] True \<noteq> Inr ()"
proof (intro conjI)
  let ?as = "[(''attr_size'', JNumber ''42''), (''colour'', JString ''red'')]"
  show ok: "validate_attributes_with sample_attr_env rev (Some sample_schema) ?as True = Inr ()" by code_simp
  show "validate_attributes_with sample_attr_env rev (Some sample_schema) [(''attr_size'', JNumber ''52'')] True \<noteq> Inr ()" by code_simp
  from attributes_accepted_iff_typed [of rev ?as sample_attr_env "Some sample_schema" True, OF set_rev] ok
  have "attribute_ok sample_attr_env (sr_Definitions sample_schema) ''attr_size'' (JNumber ''42'')" by (simp add: Let_def)
  then show "typed sample_attr_env ''number'' (JNumber ''42'')"
    by (simp add: attribute_ok_def sample_schema_def decode_rules_def)
qed

end
