(* ===== verification/Catalog_Batching.thy ===== *)
theory Catalog_Batching
  imports Catalog_Projection
begin

text \<open>
  Splitting the catalog into requests that fit the token budget, and the checks around it:
  \<^verbatim>\<open>splitIntoBatchesMode\<close>, \<^verbatim>\<open>validateBatchCandidates\<close>, \<^verbatim>\<open>normalizeBatchCandidates\<close> and
  \<^verbatim>\<open>appendCandidateProjection\<close> of \<^verbatim>\<open>services/catalog_batch_controller.go\<close>, the coverage check of
  \<^verbatim>\<open>services/catalog_batch_coverage.go\<close> and the budget of \<^verbatim>\<open>services/catalog_batch_budget.go\<close>.
  Error texts keep the constant part of the source's message.
\<close>

section \<open>Data\<close>

record batch_payload =
  ba_BatchNumber :: int
  ba_Catalogs :: "ai_catalog list"
  ba_AttributeSchemas :: "ai_schema list"
  ba_Items :: "ai_item list"

record batch_candidate =
  cd_ItemID :: string
  cd_VariantIDs :: "string list"
  cd_OfferIDs :: "string list"
  cd_Reason :: string

text \<open>The context of the conversation and the entity contract are only passed on.\<close>

record ('cx, 'ec) batch_input =
  bi_AIRunID :: string
  bi_AttemptID :: string
  bi_BatchNumber :: int
  bi_BusinessID :: string
  bi_ConversationID :: string
  bi_CustomerMessage :: string
  bi_ConversationContext :: 'cx
  bi_EntityContract :: 'ec
  bi_Batch :: batch_payload
  bi_Reduction :: bool

record ('cx, 'ec) evaluation_input =
  ei_SourceMessageReference :: string
  ei_AIRunID :: string
  ei_AttemptID :: string
  ei_BusinessID :: string
  ei_ConversationID :: string
  ei_CatalogScope :: string
  ei_CustomerMessage :: string
  ei_ConversationContext :: 'cx
  ei_EntityContract :: 'ec

definition mk_batch_input ::
  "('cx, 'ec) evaluation_input \<Rightarrow> bool \<Rightarrow> batch_payload \<Rightarrow> ('cx, 'ec) batch_input" where
  "mk_batch_input input reduction batch =
     \<lparr>bi_AIRunID = ei_AIRunID input, bi_AttemptID = ei_AttemptID input,
      bi_BatchNumber = ba_BatchNumber batch, bi_BusinessID = ei_BusinessID input,
      bi_ConversationID = ei_ConversationID input, bi_CustomerMessage = ei_CustomerMessage input,
      bi_ConversationContext = ei_ConversationContext input,
      bi_EntityContract = ei_EntityContract input, bi_Batch = batch, bi_Reduction = reduction\<rparr>"

section \<open>The token budget\<close>

text \<open>Go's \<^verbatim>\<open>int\<close> is a 64-bit two's complement word; the comparisons are signed.\<close>

definition native_catalog_token_budget :: "64 word \<Rightarrow> 64 word \<Rightarrow> (64 word) result" where
  "native_catalog_token_budget contextWindow maxOutputTokens =
     (if sint contextWindow \<le> 0 \<or> sint maxOutputTokens \<le> 0
      then Inl (PlainError ''catalog context window and output reserve must be positive'')
      else
        let tenth = word_of_int (sint contextWindow div 10);
            safetyTokens = (if sint tenth < 2048 then 2048 else tenth)
        in if sint (contextWindow - maxOutputTokens) \<le> sint safetyTokens
           then Inl (PlainError ''catalog context window cannot reserve output and safety tokens'')
           else Inr (contextWindow - maxOutputTokens - safetyTokens))"

definition effective_budget :: "int \<Rightarrow> int" where
  "effective_budget budget = (if budget \<le> 0 then 8000 else budget)"

section \<open>Building one batch\<close>

definition collect_catalogs_for_items :: "ai_item list \<Rightarrow> ai_catalog list \<Rightarrow> ai_catalog list" where
  "collect_catalogs_for_items items catalogs =
     (if items = [] \<or> catalogs = [] then []
      else filter (\<lambda>c. ct_ID c \<in> it_CatalogID ` set items) catalogs)"

text \<open>
  The map \<^verbatim>\<open>schemaByID\<close> of \<^verbatim>\<open>buildBatch\<close>: for each item the first schema of the projection with the
  item's schema identifier. \<^verbatim>\<open>collectSchemas\<close> lists its values in the map's iteration order, which Go
  leaves unspecified: the argument \<open>order\<close>.
\<close>

definition schema_by_id :: "ai_schema list \<Rightarrow> ai_item list \<Rightarrow> (string \<times> ai_schema) list" where
  "schema_by_id schemas items =
     fold (\<lambda>item m. case it_AttributeSchemaID item of
                      None \<Rightarrow> m
                    | Some sid \<Rightarrow> (case find (\<lambda>s. sc_ID s = sid) schemas of
                                    None \<Rightarrow> m | Some s \<Rightarrow> map_put (sc_ID s) s m)) items []"

definition collect_schemas ::
  "(ai_schema list \<Rightarrow> ai_schema list) \<Rightarrow> (string \<times> ai_schema) list \<Rightarrow> ai_schema list" where
  "collect_schemas order m = (if m = [] then [] else order (map snd m))"

definition build_batch ::
  "(ai_schema list \<Rightarrow> ai_schema list) \<Rightarrow> projection \<Rightarrow> ai_item list \<Rightarrow> int \<Rightarrow> batch_payload" where
  "build_batch order p items n =
     \<lparr>ba_BatchNumber = n,
      ba_Catalogs = collect_catalogs_for_items items (pr_Catalogs p),
      ba_AttributeSchemas = collect_schemas order (schema_by_id (pr_AttributeSchemas p) items),
      ba_Items = items\<rparr>"

section \<open>Splitting\<close>

text \<open>
  The recursive closure \<^verbatim>\<open>split\<close>, with the captured variables \<^verbatim>\<open>nextBatchNumber\<close> and
  \<^verbatim>\<open>batches\<close> as its state; \<open>mk\<close> and \<open>countBatch\<close> are the closures \<^verbatim>\<open>buildBatch\<close> and
  \<^verbatim>\<open>countBatch\<close>.
\<close>

function split_items ::
  "('i list \<Rightarrow> int \<Rightarrow> 'b) \<Rightarrow> ('b \<Rightarrow> int result) \<Rightarrow> int \<Rightarrow> 'i list \<Rightarrow> int \<times> 'b list \<Rightarrow>
   (int \<times> 'b list) result" where
  "split_items mk countBatch budget items (n, batches) =
     (if items = [] then Inr (n, batches)
      else let batch = mk items n in
        case countBatch batch of
          Inl e \<Rightarrow> Inl (Wrapped ''count tokens for batch'' e)
        | Inr tokens \<Rightarrow>
            if tokens \<le> budget then Inr (n + 1, batches @ [batch])
            else if length items = 1
            then Inl (PlainError ''catalog item exceeds token budget: indivisible commercial entity'')
            else let mid = length items div 2 in
              case split_items mk countBatch budget (take mid items) (n, batches) of
                Inl e \<Rightarrow> Inl e
              | Inr st \<Rightarrow> split_items mk countBatch budget (drop mid items) st)"
  by pat_completeness auto
termination
proof (relation "measure (\<lambda>(mk, countBatch, budget, items, st). length items)", goal_cases)
  case 1
  show ?case by simp
next
  case (2 mk countBatch budget items n batches)
  then have "0 < length items" "length items \<noteq> 1" by auto
  with 2 show ?case by simp
next
  case (3 mk countBatch budget items n batches)
  then have "0 < length items" "length items \<noteq> 1" by auto
  then have "0 < length items div 2" by linarith
  with 3 show ?case by simp
qed

declare split_items.simps [simp del]

section \<open>The coverage check (\<^verbatim>\<open>services/catalog_batch_coverage.go\<close>)\<close>

definition zero_catalog :: ai_catalog where
  "zero_catalog = \<lparr>ct_ID = '''', ct_Name = '''', ct_Description = None, ct_Status = ''''\<rparr>"

definition zero_schema :: ai_schema where
  "zero_schema = \<lparr>sc_ID = '''', sc_Name = '''', sc_Version = 0, sc_Definitions = []\<rparr>"

text \<open>The loops that index a slice by identifier and reject a repeated one.\<close>

fun index_by :: "('a \<Rightarrow> string) \<Rightarrow> string \<Rightarrow> 'a list \<Rightarrow> (string \<times> 'a) list \<Rightarrow> ((string \<times> 'a) list) result" where
  "index_by key text [] m = Inr m"
| "index_by key text (x # xs) m =
     (if map_of m (key x) \<noteq> None then Inl (PlainError text)
      else index_by key text xs ((key x, x) # m))"

fun check_variants :: "string \<Rightarrow> ai_variant list \<Rightarrow> string list \<Rightarrow> (string list) result" where
  "check_variants item [] seen = Inr seen"
| "check_variants item (v # vs) seen =
     (if va_CatalogItemID v \<noteq> item then Inl (PlainError ''variant belongs to another item'')
      else if va_ID v \<in> set seen then Inl (PlainError ''duplicate variant in item'')
      else check_variants item vs (va_ID v # seen))"

fun check_offers :: "string \<Rightarrow> string list \<Rightarrow> ai_offer list \<Rightarrow> string list \<Rightarrow> unit result" where
  "check_offers item variants [] seen = Inr ()"
| "check_offers item variants (f # fs) seen =
     (if of_CatalogItemID f \<noteq> item then Inl (PlainError ''offer belongs to another item'')
      else if of_ID f \<in> set seen then Inl (PlainError ''duplicate offer in item'')
      else if (case of_VariantID f of None \<Rightarrow> False | Some v \<Rightarrow> v \<noteq> '''' \<and> v \<notin> set variants)
      then Inl (PlainError ''offer references unavailable variant'')
      else check_offers item variants fs (of_ID f # seen))"

definition validate_item_relationships :: "ai_item \<Rightarrow> unit result" where
  "validate_item_relationships item =
     (case check_variants (it_ID item) (it_Variants item) [] of
        Inl e \<Rightarrow> Inl e
      | Inr variants \<Rightarrow> check_offers (it_ID item) variants (it_Offers item) [])"

fun index_items :: "ai_item list \<Rightarrow> (string \<times> ai_item) list \<Rightarrow> ((string \<times> ai_item) list) result" where
  "index_items [] m = Inr m"
| "index_items (item # items) m =
     (if map_of m (it_ID item) \<noteq> None then Inl (PlainError ''duplicate source catalog item'')
      else (case validate_item_relationships item of
              Inl e \<Rightarrow> Inl e
            | Inr _ \<Rightarrow> index_items items ((it_ID item, item) # m)))"

definition check_entity_catalog ::
  "projection \<Rightarrow> (string \<times> ai_catalog) list \<Rightarrow> (string \<times> ai_catalog) list \<Rightarrow> ai_item \<Rightarrow> unit result" where
  "check_entity_catalog source catalogs batchCatalogs entity =
     (if pr_Catalogs source = [] then Inr ()
      else (case map_of catalogs (it_CatalogID entity) of
              None \<Rightarrow> Inl (PlainError ''source lacks catalog for item'')
            | Some catalog \<Rightarrow>
                if (case map_of batchCatalogs (it_CatalogID entity) of None \<Rightarrow> zero_catalog | Some c \<Rightarrow> c) \<noteq> catalog
                then Inl (PlainError ''batch lost catalog for item'') else Inr ()))"

definition check_entity_schema ::
  "(string \<times> ai_schema) list \<Rightarrow> (string \<times> ai_schema) list \<Rightarrow> ai_item \<Rightarrow> unit result" where
  "check_entity_schema schemas batchSchemas entity =
     (case it_AttributeSchemaID entity of
        None \<Rightarrow> Inr ()
      | Some sid \<Rightarrow>
          if sid = '''' then Inr ()
          else (case map_of schemas sid of
                  None \<Rightarrow> Inl (PlainError ''source lacks schema for item'')
                | Some schema \<Rightarrow>
                    if it_AttributeSchemaVersion entity \<noteq> Some (sc_Version schema)
                    then Inl (PlainError ''schema version mismatch for item'')
                    else if (case map_of batchSchemas (sc_ID schema) of None \<Rightarrow> zero_schema | Some s \<Rightarrow> s) \<noteq> schema
                    then Inl (PlainError ''batch lost schema definitions for item'')
                    else Inr ()))"

record source_index =
  si_Source :: projection
  si_Catalogs :: "(string \<times> ai_catalog) list"
  si_Schemas :: "(string \<times> ai_schema) list"
  si_Items :: "(string \<times> ai_item) list"

fun check_entities ::
  "source_index \<Rightarrow> (string \<times> ai_catalog) list \<Rightarrow> (string \<times> ai_schema) list \<Rightarrow> ai_item list \<Rightarrow>
   string list \<Rightarrow> (string list) result" where
  "check_entities ix bcs bss [] seen = Inr seen"
| "check_entities ix bcs bss (entity # rest) seen =
     (case map_of (si_Items ix) (it_ID entity) of
        None \<Rightarrow> Inl (PlainError ''batch contains unknown item'')
      | Some original \<Rightarrow>
          if it_ID entity \<in> set seen
          then Inl (PlainError ''catalog item was duplicated or fragmented across batches'')
          else if original \<noteq> entity
          then Inl (PlainError ''batch lost or changed commercial fields, variants or offers of item'')
          else (case check_entity_catalog (si_Source ix) (si_Catalogs ix) bcs entity of
                  Inl e \<Rightarrow> Inl e
                | Inr _ \<Rightarrow>
                    (case check_entity_schema (si_Schemas ix) bss entity of
                       Inl e \<Rightarrow> Inl e
                     | Inr _ \<Rightarrow> check_entities ix bcs bss rest (it_ID entity # seen))))"

fun check_batches :: "source_index \<Rightarrow> batch_payload list \<Rightarrow> string list \<Rightarrow> (string list) result" where
  "check_batches ix [] seen = Inr seen"
| "check_batches ix (batch # rest) seen =
     (case index_by ct_ID ''batch duplicated catalog'' (ba_Catalogs batch) [] of
        Inl e \<Rightarrow> Inl e
      | Inr bcs \<Rightarrow>
          (case index_by sc_ID ''batch duplicated schema'' (ba_AttributeSchemas batch) [] of
             Inl e \<Rightarrow> Inl e
           | Inr bss \<Rightarrow>
               (case check_entities ix bcs bss (ba_Items batch) seen of
                  Inl e \<Rightarrow> Inl e
                | Inr seen' \<Rightarrow> check_batches ix rest seen')))"

definition validate_batch_coverage :: "projection \<Rightarrow> batch_payload list \<Rightarrow> unit result" where
  "validate_batch_coverage source batches =
     (case index_by ct_ID ''duplicate source catalog'' (pr_Catalogs source) [] of
        Inl e \<Rightarrow> Inl e
      | Inr catalogs \<Rightarrow>
          (case index_by sc_ID ''duplicate source schema'' (pr_AttributeSchemas source) [] of
             Inl e \<Rightarrow> Inl e
           | Inr schemas \<Rightarrow>
               (case index_items (pr_Items source) [] of
                  Inl e \<Rightarrow> Inl e
                | Inr items \<Rightarrow>
                    (case check_batches \<lparr>si_Source = source, si_Catalogs = catalogs,
                                         si_Schemas = schemas, si_Items = items\<rparr> batches [] of
                       Inl e \<Rightarrow> Inl e
                     | Inr seen \<Rightarrow>
                         if \<forall>item \<in> set (pr_Items source). it_ID item \<in> set seen then Inr ()
                         else Inl (PlainError ''catalog item was not covered by any batch'')))))"

section \<open>Splitting with its check\<close>

text \<open>\<^verbatim>\<open>splitIntoBatchesMode\<close>; \<open>estimator\<close> is the evaluator's \<^verbatim>\<open>CountBatchTokens\<close>, \<open>None\<close> when it has none.\<close>

definition split_into_batches_mode ::
  "(ai_schema list \<Rightarrow> ai_schema list) \<Rightarrow> (('cx, 'ec) batch_input \<Rightarrow> int result) option \<Rightarrow> int \<Rightarrow>
   projection \<Rightarrow> ('cx, 'ec) evaluation_input \<Rightarrow> int \<Rightarrow> bool \<Rightarrow> (batch_payload list) result" where
  "split_into_batches_mode order estimator tokenBudget p input startBatchNumber reduction =
     (if pr_Items p = [] then Inr []
      else (case estimator of
              None \<Rightarrow> Inl (PlainError ''full provider request token estimator is required; no legacy payload-only counter'')
            | Some countTokens \<Rightarrow>
                (case split_items (build_batch order p)
                        (\<lambda>batch. countTokens (mk_batch_input input reduction batch))
                        (effective_budget tokenBudget) (pr_Items p)
                        (if startBatchNumber \<le> 0 then 1 else startBatchNumber, []) of
                   Inl e \<Rightarrow> Inl e
                 | Inr (_, batches) \<Rightarrow>
                     (case validate_batch_coverage p batches of
                        Inl e \<Rightarrow> Inl (Wrapped ''catalog batch coverage'' e)
                      | Inr _ \<Rightarrow> Inr batches))))"

section \<open>Candidates\<close>

fun check_candidate_offers :: "(string \<times> ai_offer) list \<Rightarrow> string list \<Rightarrow> string list \<Rightarrow> unit result" where
  "check_candidate_offers offers selected [] = Inr ()"
| "check_candidate_offers offers selected (fid # fids) =
     (case map_of offers fid of
        None \<Rightarrow> Inl (PlainError ''candidate offer_id was not present under item'')
      | Some f \<Rightarrow>
          if selected \<noteq> [] \<and> (case of_VariantID f of None \<Rightarrow> False | Some v \<Rightarrow> v \<noteq> '''' \<and> v \<notin> set selected)
          then Inl (PlainError ''candidate offer_id belongs to a variant that is not selected'')
          else check_candidate_offers offers selected fids)"

definition check_candidate :: "(string \<times> ai_item) list \<Rightarrow> batch_candidate \<Rightarrow> unit result" where
  "check_candidate items c =
     (case map_of items (cd_ItemID c) of
        None \<Rightarrow> Inl (PlainError ''candidate item_id was not present in batch'')
      | Some item \<Rightarrow>
          if \<not> set (cd_VariantIDs c) \<subseteq> va_ID ` set (it_Variants item)
          then Inl (PlainError ''candidate variant_id was not present under item'')
          else check_candidate_offers (rev (map (\<lambda>f. (of_ID f, f)) (it_Offers item)))
                 (cd_VariantIDs c) (cd_OfferIDs c))"

fun check_candidates :: "(string \<times> ai_item) list \<Rightarrow> batch_candidate list \<Rightarrow> unit result" where
  "check_candidates items [] = Inr ()"
| "check_candidates items (c # cs) =
     (case check_candidate items c of Inl e \<Rightarrow> Inl e | Inr _ \<Rightarrow> check_candidates items cs)"

text \<open>The maps built by the loops hold, for a repeated identifier, its last entry: hence \<^const>\<open>rev\<close>.\<close>

definition validate_batch_candidates :: "batch_payload \<Rightarrow> batch_candidate list \<Rightarrow> unit result" where
  "validate_batch_candidates batch candidates =
     check_candidates (rev (map (\<lambda>i. (it_ID i, i)) (ba_Items batch))) candidates"

text \<open>
  \<^verbatim>\<open>normalizeBatchCandidates\<close>: one entry per item, at the position of its first candidate. The maps
  \<^verbatim>\<open>index\<close>, \<^verbatim>\<open>variantSeen\<close> and \<^verbatim>\<open>offerSeen\<close> of the code hold the position of the item's entry in
  \<^verbatim>\<open>out\<close> and the identifiers that entry already lists; they are read off the entries here.
\<close>

fun append_new :: "string list \<Rightarrow> string list \<Rightarrow> string list" where
  "append_new [] out = out"
| "append_new (x # xs) out = (if x \<in> set out then append_new xs out else append_new xs (out @ [x]))"

definition merge_candidate :: "batch_candidate \<Rightarrow> batch_candidate \<Rightarrow> batch_candidate" where
  "merge_candidate entry c =
     entry\<lparr>cd_Reason := (if cd_Reason entry = '''' \<and> cd_Reason c \<noteq> '''' then cd_Reason c else cd_Reason entry),
           cd_VariantIDs := append_new (cd_VariantIDs c) (cd_VariantIDs entry),
           cd_OfferIDs := append_new (cd_OfferIDs c) (cd_OfferIDs entry)\<rparr>"

fun add_candidate :: "batch_candidate \<Rightarrow> batch_candidate list \<Rightarrow> batch_candidate list" where
  "add_candidate c [] =
     [merge_candidate \<lparr>cd_ItemID = cd_ItemID c, cd_VariantIDs = [], cd_OfferIDs = [], cd_Reason = cd_Reason c\<rparr> c]"
| "add_candidate c (entry # out) =
     (if cd_ItemID entry = cd_ItemID c then merge_candidate entry c # out
      else entry # add_candidate c out)"

definition normalize_batch_candidates :: "batch_candidate list \<Rightarrow> batch_candidate list" where
  "normalize_batch_candidates cs = fold add_candidate cs []"

text \<open>\<^verbatim>\<open>appendCandidateProjection\<close>: the new target and the new set \<^verbatim>\<open>seen\<close> of item identifiers.\<close>

fun append_items :: "string set \<Rightarrow> ai_item list \<Rightarrow> ai_item list \<times> string list \<Rightarrow> ai_item list \<times> string list" where
  "append_items selected [] (target, seen) = (target, seen)"
| "append_items selected (item # items) (target, seen) =
     (if it_ID item \<notin> selected \<or> it_ID item \<in> set seen then append_items selected items (target, seen)
      else append_items selected items (target @ [item], it_ID item # seen))"

fun append_referenced :: "('a \<Rightarrow> string) \<Rightarrow> string set \<Rightarrow> 'a list \<Rightarrow> 'a list \<Rightarrow> 'a list" where
  "append_referenced key used [] target = target"
| "append_referenced key used (x # xs) target =
     (if key x \<in> key ` set target \<or> key x \<notin> used then append_referenced key used xs target
      else append_referenced key used xs (target @ [x]))"

definition append_candidate_projection ::
  "projection \<Rightarrow> batch_payload \<Rightarrow> batch_candidate list \<Rightarrow> string list \<Rightarrow> projection \<times> string list" where
  "append_candidate_projection target batch candidates seen =
     (let selected = cd_ItemID ` set (normalize_batch_candidates candidates);
          (items, seen') = append_items selected (ba_Items batch) (pr_Items target, seen);
          catalogs = append_referenced ct_ID (it_CatalogID ` set items) (ba_Catalogs batch) (pr_Catalogs target);
          schemas = append_referenced sc_ID (set (List.map_filter it_AttributeSchemaID items))
                      (ba_AttributeSchemas batch) (pr_AttributeSchemas target)
      in (\<lparr>pr_Catalogs = catalogs, pr_AttributeSchemas = schemas, pr_Items = items\<rparr>, seen'))"

section \<open>What a splitter guarantees\<close>

text \<open>
  The interface between the recursion and the batches it builds: a batch remembers the items and the
  number it was built from.
\<close>

locale token_splitter =
  fixes mk :: "'i list \<Rightarrow> int \<Rightarrow> 'b" and items_of :: "'b \<Rightarrow> 'i list" and number_of :: "'b \<Rightarrow> int"
  assumes items_of_mk [simp]: "items_of (mk xs n) = xs"
    and number_of_mk [simp]: "number_of (mk xs n) = n"
begin

definition batches_for :: "('b \<Rightarrow> int result) \<Rightarrow> int \<Rightarrow> int \<Rightarrow> 'i list \<Rightarrow> 'b list \<Rightarrow> bool" where
  "batches_for cb budget n items bs \<longleftrightarrow>
     concat (map items_of bs) = items \<and>
     map number_of bs = map (\<lambda>i. n + int i) [0..<length bs] \<and>
     (\<forall>b \<in> set bs. items_of b \<noteq> [] \<and> b = mk (items_of b) (number_of b) \<and>
                    (\<exists>t. cb b = Inr t \<and> t \<le> budget))"

lemma batches_for_append:
  assumes "batches_for cb budget n xs as" and "batches_for cb budget (n + int (length as)) ys bs"
  shows "batches_for cb budget n (xs @ ys) (as @ bs)"
proof -
  have "map (\<lambda>i. n + int i) [0..<length as + length bs] =
        map (\<lambda>i. n + int i) [0..<length as] @ map (\<lambda>i. n + int (length as) + int i) [0..<length bs]"
    by (rule nth_equalityI) (auto simp: nth_append)
  with assms show ?thesis by (auto simp: batches_for_def)
qed

lemma split_sound:
  "split_items mk cb budget items (n, acc) = Inr (n', out) \<Longrightarrow>
     \<exists>bs. out = acc @ bs \<and> n' = n + int (length bs) \<and> batches_for cb budget n items bs"
proof (induction items arbitrary: n acc n' out rule: measure_induct_rule [where f = length])
  case (less items)
  show ?case
  proof (cases "items = [] \<or> (\<exists>t. cb (mk items n) = Inr t \<and> t \<le> budget)")
    case True
    with less.prems show ?thesis
      by (auto simp: split_items.simps [of _ _ _ items] batches_for_def
          intro: exI [of _ "[]"] split: if_splits)
  next
    case False
    let ?mid = "length items div 2"
    from False less.prems obtain n1 acc1
      where ne: "items \<noteq> []" "length items \<noteq> 1"
        and left: "split_items mk cb budget (take ?mid items) (n, acc) = Inr (n1, acc1)"
        and right: "split_items mk cb budget (drop ?mid items) (n1, acc1) = Inr (n', out)"
      by (subst (asm) split_items.simps) (auto simp: Let_def split: sum.splits if_splits)
    from ne have "0 < length items" "0 < ?mid" by (simp, cases items) (auto simp: Suc_le_eq)
    then have "length (take ?mid items) < length items" "length (drop ?mid items) < length items"
      by auto
    with less.IH left right obtain as bs
      where "acc1 = acc @ as" "n1 = n + int (length as)"
        "batches_for cb budget n (take ?mid items) as"
        "out = acc1 @ bs" "n' = n1 + int (length bs)"
        "batches_for cb budget n1 (drop ?mid items) bs"
      by meson
    then show ?thesis
      using batches_for_append [of cb budget n "take ?mid items" as "drop ?mid items" bs]
      by (intro exI [of _ "as @ bs"]) simp
  qed
qed

lemma split_total:
  assumes counted: "\<And>xs k. xs \<noteq> [] \<Longrightarrow> set xs \<subseteq> set items \<Longrightarrow> \<exists>t. cb (mk xs k) = Inr t"
    and fits: "\<And>x k. x \<in> set items \<Longrightarrow> \<exists>t. cb (mk [x] k) = Inr t \<and> t \<le> budget"
  shows "\<exists>st. split_items mk cb budget items (n, acc) = Inr st"
  using assms
proof (induction items arbitrary: n acc rule: measure_induct_rule [where f = length])
  case (less items)
  let ?mid = "length items div 2"
  show ?case
  proof (cases "length items \<le> 1")
    case True
    then consider "items = []" | x where "items = [x]" by (cases items) auto
    then show ?thesis
    proof cases
      case 1
      then show ?thesis by (simp add: split_items.simps)
    next
      case 2
      with less.prems(2) [of x n] show ?thesis by (auto simp: split_items.simps)
    qed
  next
    case False
    then have len: "length (take ?mid items) < length items" "length (drop ?mid items) < length items"
      by auto
    have sub: "set (take ?mid items) \<subseteq> set items" "set (drop ?mid items) \<subseteq> set items"
      by (simp_all add: set_take_subset set_drop_subset)
    from less.IH [OF len(1)] less.prems sub(1)
    obtain n1 acc1 where left: "split_items mk cb budget (take ?mid items) (n, acc) = Inr (n1, acc1)"
      by (metis prod.exhaust subset_iff)
    from less.IH [OF len(2)] less.prems sub(2)
    obtain st where right: "split_items mk cb budget (drop ?mid items) (n1, acc1) = Inr st"
      by (metis subset_iff)
    from False less.prems(1) [of items n] obtain t where "cb (mk items n) = Inr t" by fastforce
    with False left right show ?thesis by (subst split_items.simps) (simp add: Let_def)
  qed
qed

end

interpretation batch_split: token_splitter "build_batch order p" ba_Items ba_BatchNumber
  by unfold_locales (simp_all add: build_batch_def)

section \<open>What the coverage check accepts\<close>

text \<open>
  The declarative content of the check: identifiers are unique, every child belongs to its item, every
  item's catalog and schema are in the projection.
\<close>

definition item_wf :: "ai_item \<Rightarrow> bool" where
  "item_wf item \<longleftrightarrow>
     (\<forall>v \<in> set (it_Variants item). va_CatalogItemID v = it_ID item) \<and>
     distinct (map va_ID (it_Variants item)) \<and>
     (\<forall>f \<in> set (it_Offers item). of_CatalogItemID f = it_ID item \<and>
        (\<forall>v. of_VariantID f = Some v \<longrightarrow> v \<noteq> '''' \<longrightarrow> v \<in> va_ID ` set (it_Variants item))) \<and>
     distinct (map of_ID (it_Offers item))"

definition catalog_of_item :: "projection \<Rightarrow> ai_item \<Rightarrow> ai_catalog \<Rightarrow> bool" where
  "catalog_of_item p item c \<longleftrightarrow> c \<in> set (pr_Catalogs p) \<and> ct_ID c = it_CatalogID item"

definition schema_of_item :: "projection \<Rightarrow> ai_item \<Rightarrow> ai_schema \<Rightarrow> bool" where
  "schema_of_item p item s \<longleftrightarrow>
     s \<in> set (pr_AttributeSchemas p) \<and> it_AttributeSchemaID item = Some (sc_ID s) \<and>
     it_AttributeSchemaVersion item = Some (sc_Version s)"

definition has_schema :: "ai_item \<Rightarrow> bool" where
  "has_schema item \<longleftrightarrow> (\<exists>sid. it_AttributeSchemaID item = Some sid \<and> sid \<noteq> '''')"

definition projection_wf :: "projection \<Rightarrow> bool" where
  "projection_wf p \<longleftrightarrow>
     distinct (map ct_ID (pr_Catalogs p)) \<and> distinct (map sc_ID (pr_AttributeSchemas p)) \<and>
     distinct (map it_ID (pr_Items p)) \<and>
     (\<forall>item \<in> set (pr_Items p). item_wf item \<and>
        (pr_Catalogs p = [] \<or> (\<exists>c. catalog_of_item p item c)) \<and>
        (has_schema item \<longrightarrow> (\<exists>s. schema_of_item p item s)))"

text \<open>
  A batch is self-contained for an item. A catalog equal to Go's zero value counts as present: the
  code compares the looked-up value without testing for its presence.
\<close>

definition carries_catalog :: "ai_catalog list \<Rightarrow> ai_catalog \<Rightarrow> bool" where
  "carries_catalog cs c \<longleftrightarrow>
     (c = zero_catalog \<or> c \<in> set cs) \<and> (\<forall>c' \<in> set cs. ct_ID c' = ct_ID c \<longrightarrow> c' = c)"

definition batch_carries :: "projection \<Rightarrow> batch_payload \<Rightarrow> ai_item \<Rightarrow> bool" where
  "batch_carries p batch item \<longleftrightarrow>
     (pr_Catalogs p = [] \<or> (\<exists>c. catalog_of_item p item c \<and> carries_catalog (ba_Catalogs batch) c)) \<and>
     (has_schema item \<longrightarrow> (\<exists>s \<in> set (ba_AttributeSchemas batch). schema_of_item p item s))"

lemma index_by_Inr:
  "index_by key text xs m = Inr m' \<longleftrightarrow>
     distinct (map key xs) \<and> (\<forall>x \<in> set xs. map_of m (key x) = None) \<and>
     m' = rev (map (\<lambda>x. (key x, x)) xs) @ m"
proof (induction xs arbitrary: m)
  case Nil
  show ?case by auto
next
  case (Cons x xs)
  show ?case by (simp add: Cons.IH) (fastforce simp: image_iff)
qed

lemma check_variants_Inr:
  "check_variants item vs seen = Inr out \<longleftrightarrow>
     (\<forall>v \<in> set vs. va_CatalogItemID v = item) \<and> distinct (map va_ID vs) \<and>
     (\<forall>v \<in> set vs. va_ID v \<notin> set seen) \<and> out = rev (map va_ID vs) @ seen"
proof (induction vs arbitrary: seen)
  case Nil
  show ?case by auto
next
  case (Cons v vs)
  show ?case by (simp add: Cons.IH) (fastforce simp: image_iff)
qed

lemma check_offers_Inr:
  "check_offers item variants fs seen = Inr () \<longleftrightarrow>
     (\<forall>f \<in> set fs. of_CatalogItemID f = item \<and> of_ID f \<notin> set seen \<and>
        (\<forall>v. of_VariantID f = Some v \<longrightarrow> v \<noteq> '''' \<longrightarrow> v \<in> set variants)) \<and> distinct (map of_ID fs)"
proof (induction fs arbitrary: seen)
  case Nil
  show ?case by auto
next
  case (Cons f fs)
  show ?case by (simp add: Cons.IH split: option.splits) (fastforce simp: image_iff)
qed

lemma validate_item_relationships_iff: "validate_item_relationships item = Inr () \<longleftrightarrow> item_wf item"
proof (cases "check_variants (it_ID item) (it_Variants item) []")
  case (Inl e)
  then have "\<nexists>out. check_variants (it_ID item) (it_Variants item) [] = Inr out" by simp
  then have "\<not> item_wf item" by (auto simp: check_variants_Inr item_wf_def)
  with Inl show ?thesis by (simp add: validate_item_relationships_def)
next
  case (Inr out)
  then have "validate_item_relationships item = check_offers (it_ID item) out (it_Offers item) []"
    by (simp add: validate_item_relationships_def)
  with Inr show ?thesis by (auto simp: item_wf_def check_variants_Inr check_offers_Inr)
qed

lemma index_items_Inr:
  "index_items items m = Inr m' \<longleftrightarrow>
     distinct (map it_ID items) \<and> (\<forall>i \<in> set items. map_of m (it_ID i) = None \<and> item_wf i) \<and>
     m' = rev (map (\<lambda>i. (it_ID i, i)) items) @ m"
proof (induction items arbitrary: m)
  case Nil
  then show ?case by auto
next
  case (Cons i items)
  show ?case
  proof (cases "validate_item_relationships i")
    case (Inl e)
    then have "\<not> item_wf i" by (auto simp flip: validate_item_relationships_iff)
    with Inl show ?thesis by simp
  next
    case (Inr u)
    then have "item_wf i" by (auto simp flip: validate_item_relationships_iff)
    with Inr show ?thesis by (simp add: Cons.IH) (fastforce simp: image_iff)
  qed
qed

lemma map_of_rev_index:
  "distinct (map key xs) \<Longrightarrow>
     map_of (rev (map (\<lambda>x. (key x, x)) xs)) k = Some y \<longleftrightarrow> y \<in> set xs \<and> key y = k"
  by (subst map_of_rev_wf) (auto simp: comp_def map_of_eq_Some_iff)

lemma map_of_index_None: "map_of (rev (map (\<lambda>x. (key x, x)) xs)) k = None \<longleftrightarrow> k \<notin> key ` set xs"
  by (auto simp: map_of_eq_None_iff image_image)

abbreviation key_index :: "('a \<Rightarrow> string) \<Rightarrow> 'a list \<Rightarrow> (string \<times> 'a) list" where
  "key_index key xs \<equiv> rev (map (\<lambda>x. (key x, x)) xs)"

lemma check_entity_catalog_iff:
  assumes "distinct (map ct_ID (pr_Catalogs p))" and "distinct (map ct_ID cs)"
  shows "check_entity_catalog p (key_index ct_ID (pr_Catalogs p)) (key_index ct_ID cs) e = Inr () \<longleftrightarrow>
           pr_Catalogs p = [] \<or> (\<exists>c. catalog_of_item p e c \<and> carries_catalog cs c)"
proof (cases "map_of (key_index ct_ID (pr_Catalogs p)) (it_CatalogID e)")
  case None
  then have "it_CatalogID e \<notin> ct_ID ` set (pr_Catalogs p)" by (simp add: map_of_index_None)
  then have "\<not> catalog_of_item p e c" for c by (metis catalog_of_item_def image_eqI)
  with None show ?thesis by (simp add: check_entity_catalog_def)
next
  case (Some c)
  then have c: "catalog_of_item p e c"
    using assms(1) by (simp add: map_of_rev_index catalog_of_item_def)
  have only: "c' = c" if "catalog_of_item p e c'" for c'
    using that c assms(1) by (auto simp: catalog_of_item_def distinct_map inj_on_def)
  have "(case map_of (key_index ct_ID cs) (it_CatalogID e) of None \<Rightarrow> zero_catalog | Some x \<Rightarrow> x) = c \<longleftrightarrow>
        carries_catalog cs c"
  proof (cases "map_of (key_index ct_ID cs) (it_CatalogID e)")
    case None
    then have "it_CatalogID e \<notin> ct_ID ` set cs" by (simp add: map_of_index_None)
    with c have "ct_ID c' \<noteq> ct_ID c" if "c' \<in> set cs" for c'
      using that by (metis catalog_of_item_def image_eqI)
    then have "carries_catalog cs c \<longleftrightarrow> c = zero_catalog" by (auto simp: carries_catalog_def)
    with None show ?thesis by auto
  next
    case (Some c')
    with assms(2) have c': "c' \<in> set cs" "ct_ID c' = it_CatalogID e"
      by (simp_all add: map_of_rev_index)
    from c have "ct_ID c = it_CatalogID e" by (simp add: catalog_of_item_def)
    with c' assms(2) have "carries_catalog cs c \<longleftrightarrow> c' = c"
      unfolding carries_catalog_def distinct_map inj_on_def by metis
    with Some show ?thesis by simp
  qed
  moreover have "(\<exists>c. catalog_of_item p e c \<and> carries_catalog cs c) \<longleftrightarrow> carries_catalog cs c"
    using c only by blast
  moreover from c have "pr_Catalogs p \<noteq> []" by (auto simp: catalog_of_item_def)
  ultimately show ?thesis using Some by (simp add: check_entity_catalog_def)
qed

lemma check_entity_schema_iff:
  assumes "distinct (map sc_ID (pr_AttributeSchemas p))" and "distinct (map sc_ID ss)"
  shows "check_entity_schema (key_index sc_ID (pr_AttributeSchemas p)) (key_index sc_ID ss) e = Inr () \<longleftrightarrow>
           (has_schema e \<longrightarrow> (\<exists>s \<in> set ss. schema_of_item p e s))"
proof (cases "has_schema e")
  case False
  then show ?thesis by (auto simp: check_entity_schema_def has_schema_def split: option.splits)
next
  case True
  then obtain sid where sid: "it_AttributeSchemaID e = Some sid" "sid \<noteq> ''''"
    by (auto simp: has_schema_def)
  show ?thesis
  proof (cases "map_of (key_index sc_ID (pr_AttributeSchemas p)) sid")
    case None
    then have "sid \<notin> sc_ID ` set (pr_AttributeSchemas p)" by (simp add: map_of_index_None)
    with None sid True show ?thesis by (auto simp: check_entity_schema_def schema_of_item_def)
  next
    case (Some s)
    then have s: "s \<in> set (pr_AttributeSchemas p)" "sc_ID s = sid"
      using assms(1) by (simp_all add: map_of_rev_index)
    have found: "map_of (key_index sc_ID ss) sid = Some s \<longleftrightarrow> s \<in> set ss"
      using assms(2) s by (simp add: map_of_rev_index)
    have "zero_schema \<noteq> s" using s sid by (auto simp: zero_schema_def)
    moreover have "s' = s" if "schema_of_item p e s'" for s'
      using that s sid assms(1) by (auto simp: schema_of_item_def distinct_map inj_on_def)
    ultimately show ?thesis using Some s sid True found
      by (auto simp: check_entity_schema_def schema_of_item_def
          simp del: rev_map split: option.splits)
  qed
qed

lemma check_entities_Inr:
  "check_entities ix bcs bss es seen = Inr out \<longleftrightarrow>
     (\<forall>e \<in> set es. map_of (si_Items ix) (it_ID e) = Some e \<and>
        check_entity_catalog (si_Source ix) (si_Catalogs ix) bcs e = Inr () \<and>
        check_entity_schema (si_Schemas ix) bss e = Inr ()) \<and>
     set seen \<inter> it_ID ` set es = {} \<and>
     distinct (map it_ID es) \<and> out = rev (map it_ID es) @ seen"
proof (induction es arbitrary: seen)
  case Nil
  show ?case by auto
next
  case (Cons e es)
  show ?case
    by (cases "map_of (si_Items ix) (it_ID e)";
        cases "check_entity_catalog (si_Source ix) (si_Catalogs ix) bcs e";
        cases "check_entity_schema (si_Schemas ix) bss e")
      (simp_all add: Cons.IH Int_insert_left Int_insert_right conj_ac)
qed

lemma index_by_result:
  "index_by key text xs [] =
     (if distinct (map key xs) then Inr (key_index key xs) else Inl (PlainError text))"
proof -
  have "index_by key text xs m = Inl e \<Longrightarrow> e = PlainError text" for m e
    by (induction xs arbitrary: m) (auto split: if_splits)
  then show ?thesis
    using index_by_Inr [of key "text" xs "[]"] by (cases "index_by key text xs []") auto
qed

abbreviation batch_items :: "batch_payload list \<Rightarrow> ai_item list" where
  "batch_items batches \<equiv> concat (map ba_Items batches)"

lemma check_batches_Inr:
  "check_batches ix batches seen = Inr out \<longleftrightarrow>
     (\<forall>b \<in> set batches. distinct (map ct_ID (ba_Catalogs b)) \<and> distinct (map sc_ID (ba_AttributeSchemas b)) \<and>
        (\<forall>e \<in> set (ba_Items b). map_of (si_Items ix) (it_ID e) = Some e \<and>
           check_entity_catalog (si_Source ix) (si_Catalogs ix) (key_index ct_ID (ba_Catalogs b)) e = Inr () \<and>
           check_entity_schema (si_Schemas ix) (key_index sc_ID (ba_AttributeSchemas b)) e = Inr ())) \<and>
     set seen \<inter> it_ID ` set (batch_items batches) = {} \<and>
     distinct (map it_ID (batch_items batches)) \<and>
     out = rev (map it_ID (batch_items batches)) @ seen"
proof (induction batches arbitrary: seen)
  case Nil
  show ?case by auto
next
  case (Cons b batches)
  let ?bcs = "key_index ct_ID (ba_Catalogs b)" and ?bss = "key_index sc_ID (ba_AttributeSchemas b)"
  let ?ok = "distinct (map ct_ID (ba_Catalogs b)) \<and> distinct (map sc_ID (ba_AttributeSchemas b))"
  have "check_batches ix (b # batches) seen = Inr out \<longleftrightarrow>
        ?ok \<and> (\<exists>mid. check_entities ix ?bcs ?bss (ba_Items b) seen = Inr mid \<and>
                      check_batches ix batches mid = Inr out)"
    by (cases "check_entities ix ?bcs ?bss (ba_Items b) seen") (simp_all add: index_by_result)
  then show ?case
    unfolding Cons.IH check_entities_Inr
    by (simp add: Int_Un_distrib Int_Un_distrib2 image_Un Int_commute conj_ac)
qed

lemma mset_eq_if_keys_eq:
  assumes "distinct (map key xs)" and "distinct (map key ys)" and "set xs \<subseteq> set ys"
    and "key ` set ys \<subseteq> key ` set xs"
  shows "mset xs = mset ys"
proof -
  have "set ys \<subseteq> set xs"
  proof
    fix y assume y: "y \<in> set ys"
    with assms(4) obtain x where "x \<in> set xs" "key x = key y" by (metis image_iff subset_eq)
    with y assms(2,3) have "x = y" by (auto simp: distinct_map inj_on_def)
    with \<open>x \<in> set xs\<close> show "y \<in> set xs" by simp
  qed
  with assms show ?thesis by (simp add: set_eq_iff_mset_eq_distinct [symmetric] distinct_map subset_antisym)
qed

definition batch_wf :: "projection \<Rightarrow> batch_payload \<Rightarrow> bool" where
  "batch_wf p b \<longleftrightarrow>
     distinct (map ct_ID (ba_Catalogs b)) \<and> distinct (map sc_ID (ba_AttributeSchemas b)) \<and>
     (\<forall>item \<in> set (ba_Items b). batch_carries p b item)"

lemma validate_batch_coverage_unfold:
  "validate_batch_coverage p batches = Inr () \<longleftrightarrow>
     distinct (map ct_ID (pr_Catalogs p)) \<and> distinct (map sc_ID (pr_AttributeSchemas p)) \<and>
     distinct (map it_ID (pr_Items p)) \<and> (\<forall>i \<in> set (pr_Items p). item_wf i) \<and>
     (\<exists>out. check_batches \<lparr>si_Source = p, si_Catalogs = key_index ct_ID (pr_Catalogs p),
               si_Schemas = key_index sc_ID (pr_AttributeSchemas p),
               si_Items = key_index it_ID (pr_Items p)\<rparr> batches [] = Inr out \<and>
            it_ID ` set (pr_Items p) \<subseteq> set out)"
proof -
  have ii: "(\<forall>m. index_items (pr_Items p) [] \<noteq> Inr m) \<longleftrightarrow>
        \<not> (distinct (map it_ID (pr_Items p)) \<and> (\<forall>i \<in> set (pr_Items p). item_wf i))"
    by (auto simp: index_items_Inr)
  show ?thesis
  proof (cases "index_items (pr_Items p) []")
    case (Inl e)
    with ii show ?thesis by (auto simp: validate_batch_coverage_def index_by_result)
  next
    case (Inr m)
    then have "m = key_index it_ID (pr_Items p)" and "distinct (map it_ID (pr_Items p))"
      and "\<forall>i \<in> set (pr_Items p). item_wf i"
      by (simp_all add: index_items_Inr)
    with Inr show ?thesis
      by (simp add: validate_batch_coverage_def index_by_result image_subset_iff split: sum.splits)
  qed
qed

definition source_wf :: "projection \<Rightarrow> bool" where
  "source_wf p \<longleftrightarrow> distinct (map ct_ID (pr_Catalogs p)) \<and>
     distinct (map sc_ID (pr_AttributeSchemas p)) \<and> distinct (map it_ID (pr_Items p)) \<and>
     (\<forall>i \<in> set (pr_Items p). item_wf i)"

abbreviation source_ix :: "projection \<Rightarrow> source_index" where
  "source_ix p \<equiv> \<lparr>si_Source = p, si_Catalogs = key_index ct_ID (pr_Catalogs p),
     si_Schemas = key_index sc_ID (pr_AttributeSchemas p), si_Items = key_index it_ID (pr_Items p)\<rparr>"

lemma batch_check_iff:
  assumes "source_wf p"
  shows "(distinct (map ct_ID (ba_Catalogs b)) \<and> distinct (map sc_ID (ba_AttributeSchemas b)) \<and>
        (\<forall>e \<in> set (ba_Items b). map_of (si_Items (source_ix p)) (it_ID e) = Some e \<and>
           check_entity_catalog p (si_Catalogs (source_ix p)) (key_index ct_ID (ba_Catalogs b)) e = Inr () \<and>
           check_entity_schema (si_Schemas (source_ix p)) (key_index sc_ID (ba_AttributeSchemas b)) e = Inr ()))
     \<longleftrightarrow> batch_wf p b \<and> set (ba_Items b) \<subseteq> set (pr_Items p)"
proof (cases "distinct (map ct_ID (ba_Catalogs b)) \<and> distinct (map sc_ID (ba_AttributeSchemas b))")
  case True
  with assms show ?thesis
    by (simp add: check_entity_catalog_iff check_entity_schema_iff source_wf_def map_of_rev_index
        batch_wf_def batch_carries_def subset_iff) blast
qed (auto simp: batch_wf_def)

lemma mset_cover_iff:
  assumes "distinct (map key ys)"
  shows "set xs \<subseteq> set ys \<and> distinct (map key xs) \<and> key ` set ys \<subseteq> key ` set xs \<longleftrightarrow> mset xs = mset ys"
proof
  assume "mset xs = mset ys"
  moreover from this have "set xs = set ys" by (metis set_mset_mset)
  moreover have "distinct (map key xs)"
    using assms calculation by (metis distinct_map mset_eq_imp_distinct_iff)
  ultimately show "set xs \<subseteq> set ys \<and> distinct (map key xs) \<and> key ` set ys \<subseteq> key ` set xs" by simp
qed (use assms mset_eq_if_keys_eq in blast)

lemma source_and_batches_wf:
  assumes "source_wf p" and "mset (batch_items batches) = mset (pr_Items p)"
    and "\<forall>b \<in> set batches. batch_wf p b"
  shows "projection_wf p"
proof -
  have "\<exists>b \<in> set batches. batch_carries p b item" if "item \<in> set (pr_Items p)" for item
  proof -
    from that assms(2) have "item \<in> set (batch_items batches)" by (metis set_mset_mset)
    with assms(3) show ?thesis by (auto simp: batch_wf_def)
  qed
  with assms(1) show ?thesis unfolding source_wf_def projection_wf_def batch_carries_def by metis
qed

lemma validate_batch_coverage_iff:
  "validate_batch_coverage p batches = Inr () \<longleftrightarrow>
     projection_wf p \<and> mset (concat (map ba_Items batches)) = mset (pr_Items p) \<and>
     (\<forall>b \<in> set batches. batch_wf p b)"
proof (cases "source_wf p")
  case True
  then have items: "distinct (map it_ID (pr_Items p))" by (simp add: source_wf_def)
  have "validate_batch_coverage p batches = Inr () \<longleftrightarrow>
     (\<exists>out. check_batches (source_ix p) batches [] = Inr out \<and> it_ID ` set (pr_Items p) \<subseteq> set out)"
    using True by (simp add: validate_batch_coverage_unfold source_wf_def)
  also have "\<dots> \<longleftrightarrow> (\<forall>b \<in> set batches. batch_wf p b \<and> set (ba_Items b) \<subseteq> set (pr_Items p)) \<and>
      distinct (map it_ID (batch_items batches)) \<and>
      it_ID ` set (pr_Items p) \<subseteq> it_ID ` set (batch_items batches)"
    using batch_check_iff [OF True] by (simp add: check_batches_Inr)
  also have "\<dots> \<longleftrightarrow> (\<forall>b \<in> set batches. batch_wf p b) \<and> mset (batch_items batches) = mset (pr_Items p)"
    unfolding mset_cover_iff [OF items, symmetric] by auto
  finally show ?thesis using source_and_batches_wf [OF True] by auto
next
  case False
  then show ?thesis by (auto simp: validate_batch_coverage_unfold source_wf_def projection_wf_def)
qed

text \<open>
  \<^verbatim>\<open>validateCatalogBatchCoverage\<close> accepts exactly the well-formed projections whose batches together
  hold every item once and unchanged, each batch with unique identifiers and with the catalog and the
  schema (identifier and version) of every item it holds.
\<close>

theorem validate_batch_coverage_exact:
  "validate_batch_coverage p batches = Inr () \<longleftrightarrow>
     projection_wf p \<and> mset (concat (map ba_Items batches)) = mset (pr_Items p) \<and>
     (\<forall>b \<in> set batches. batch_wf p b)"
  by (rule validate_batch_coverage_iff)

section \<open>The batches of a projection\<close>

lemma schema_by_id_snoc:
  "schema_by_id schemas (items @ [item]) =
     (case it_AttributeSchemaID item of
        None \<Rightarrow> schema_by_id schemas items
      | Some sid \<Rightarrow> (case find (\<lambda>s. sc_ID s = sid) schemas of
                      None \<Rightarrow> schema_by_id schemas items
                    | Some s \<Rightarrow> map_put (sc_ID s) s (schema_by_id schemas items)))"
  by (simp add: schema_by_id_def split: option.splits)

lemma find_keyD: "find (\<lambda>x. key x = k) xs = Some x \<Longrightarrow> key x = k"
  by (auto simp: find_Some_iff)

lemma map_wf_schema_by_id: "map_wf (schema_by_id schemas items)"
proof (induction items rule: rev_induct)
  case Nil
  show ?case by (simp add: schema_by_id_def)
next
  case (snoc item items)
  then show ?case by (auto simp: schema_by_id_snoc map_wf_put split: option.splits)
qed

lemma map_of_schema_by_id:
  "map_of (schema_by_id schemas items) sid =
     (if Some sid \<in> it_AttributeSchemaID ` set items then find (\<lambda>s. sc_ID s = sid) schemas else None)"
proof (induction items rule: rev_induct)
  case Nil
  show ?case by (simp add: schema_by_id_def)
next
  case (snoc item items)
  show ?case
  proof (cases "it_AttributeSchemaID item")
    case None
    then show ?thesis by (simp add: schema_by_id_snoc snoc.IH)
  next
    case (Some k)
    then show ?thesis
      by (cases "find (\<lambda>s. sc_ID s = k) schemas")
        (auto simp: schema_by_id_snoc snoc.IH dest: find_keyD)
  qed
qed

lemma schema_by_id_values:
  "map sc_ID (map snd (schema_by_id schemas items)) = map fst (schema_by_id schemas items)"
proof -
  have "sc_ID (snd e) = fst e" if "e \<in> set (schema_by_id schemas items)" for e
  proof -
    from that have "map_of (schema_by_id schemas items) (fst e) = Some (snd e)"
      by (simp add: map_wf_distinct [OF map_wf_schema_by_id])
    then show ?thesis by (auto simp: map_of_schema_by_id find_Some_iff split: if_splits)
  qed
  then show ?thesis by simp
qed

lemma collect_schemas_perm:
  "(\<And>xs. mset (order xs) = mset xs) \<Longrightarrow> mset (collect_schemas order m) = mset (map snd m)"
  by (simp add: collect_schemas_def)

lemma build_batch_carries:
  assumes wf: "projection_wf p" and order: "\<And>xs. mset (order xs) = mset xs"
    and item: "item \<in> set items" "item \<in> set (pr_Items p)"
  shows "batch_carries p (build_batch order p items n) item"
  unfolding batch_carries_def
proof (intro conjI impI)
  let ?b = "build_batch order p items n"
  show "pr_Catalogs p = [] \<or> (\<exists>c. catalog_of_item p item c \<and> carries_catalog (ba_Catalogs ?b) c)"
  proof (cases "pr_Catalogs p = []")
    case False
    with wf item obtain c where c: "catalog_of_item p item c" by (auto simp: projection_wf_def)
    then have "c \<in> set (ba_Catalogs ?b)"
      using item by (auto simp: build_batch_def collect_catalogs_for_items_def catalog_of_item_def)
    moreover have "c' = c" if "c' \<in> set (ba_Catalogs ?b)" "ct_ID c' = ct_ID c" for c'
    proof -
      from that(1) have "c' \<in> set (pr_Catalogs p)"
        by (auto simp: build_batch_def collect_catalogs_for_items_def split: if_splits)
      with c that(2) wf show ?thesis
        unfolding projection_wf_def catalog_of_item_def distinct_map inj_on_def by metis
    qed
    ultimately have "carries_catalog (ba_Catalogs ?b) c" unfolding carries_catalog_def by blast
    with c show ?thesis by blast
  qed simp
  assume "has_schema item"
  with wf item obtain s where s: "schema_of_item p item s" by (auto simp: projection_wf_def)
  from wf s have "find (\<lambda>x. sc_ID x = sc_ID s) (pr_AttributeSchemas p) = Some s"
    by (simp add: find_key_iff projection_wf_def schema_of_item_def)
  moreover from s item have "Some (sc_ID s) \<in> it_AttributeSchemaID ` set items"
    unfolding schema_of_item_def by (metis image_eqI)
  ultimately have "map_of (schema_by_id (pr_AttributeSchemas p) items) (sc_ID s) = Some s"
    by (simp add: map_of_schema_by_id)
  then have "s \<in> set (map snd (schema_by_id (pr_AttributeSchemas p) items))"
    by (force dest: map_of_SomeD)
  then have "s \<in> set (ba_AttributeSchemas ?b)"
    using collect_schemas_perm [of order "schema_by_id (pr_AttributeSchemas p) items"] order
    by (metis batch_payload.select_convs(3) build_batch_def set_mset_mset)
  with s show "\<exists>s \<in> set (ba_AttributeSchemas ?b). schema_of_item p item s" by blast
qed

lemma build_batch_wf:
  assumes wf: "projection_wf p" and order: "\<And>xs. mset (order xs) = mset xs"
    and items: "set items \<subseteq> set (pr_Items p)"
  shows "batch_wf p (build_batch order p items n)"
proof -
  let ?m = "schema_by_id (pr_AttributeSchemas p) items"
  have "mset (map sc_ID (collect_schemas order ?m)) = mset (map fst ?m)"
    using schema_by_id_values collect_schemas_perm [of order ?m] order by (metis mset_map)
  then have "distinct (map sc_ID (ba_AttributeSchemas (build_batch order p items n)))"
    using map_wf_distinct [OF map_wf_schema_by_id]
    by (metis batch_payload.select_convs(3) build_batch_def mset_eq_imp_distinct_iff)
  moreover have "distinct (map ct_ID (ba_Catalogs (build_batch order p items n)))"
    using wf by (auto simp: build_batch_def collect_catalogs_for_items_def projection_wf_def
        distinct_map inj_on_def)
  moreover have "batch_carries p (build_batch order p items n) item" if "item \<in> set items" for item
    using build_batch_carries [OF wf order] that items by blast
  ultimately show ?thesis by (simp add: batch_wf_def)
qed

lemma split_into_batches_mode_Inr:
  "split_into_batches_mode order estimator budget p input start reduction = Inr batches \<longleftrightarrow>
     pr_Items p = [] \<and> batches = [] \<or>
     pr_Items p \<noteq> [] \<and> validate_batch_coverage p batches = Inr () \<and>
     (\<exists>est n. estimator = Some est \<and>
        split_items (build_batch order p) (\<lambda>b. est (mk_batch_input input reduction b))
          (effective_budget budget) (pr_Items p) (if start \<le> 0 then 1 else start, []) = Inr (n, batches))"
  by (auto simp: split_into_batches_mode_def split: option.splits sum.splits)

text \<open>
  C4: when \<^verbatim>\<open>splitIntoBatchesMode\<close> succeeds, the batches concatenated are the items of the projection in
  their order, the batch numbers are consecutive from the start number (from 1 when that is not
  positive), and every batch is non-empty, within the effective token budget by the estimator's own
  count, and self-contained: it carries the catalog and schema of each of its items.
\<close>

theorem split_into_batches_sound:
  assumes "split_into_batches_mode order estimator budget p input start reduction = Inr batches"
  shows "concat (map ba_Items batches) = pr_Items p \<and>
     map ba_BatchNumber batches = map (\<lambda>i. (if start \<le> 0 then 1 else start) + int i) [0..<length batches] \<and>
     (\<forall>b \<in> set batches. ba_Items b \<noteq> [] \<and> (\<forall>item \<in> set (ba_Items b). batch_carries p b item) \<and>
        (\<exists>est t. estimator = Some est \<and> est (mk_batch_input input reduction b) = Inr t \<and>
                 t \<le> effective_budget budget))"
proof (cases "pr_Items p = []")
  case True
  with assms show ?thesis by (simp add: split_into_batches_mode_Inr)
next
  case False
  let ?n = "if start \<le> 0 then 1 else start"
  from False assms obtain est n where est: "estimator = Some est"
    and run: "split_items (build_batch order p) (\<lambda>b. est (mk_batch_input input reduction b))
       (effective_budget budget) (pr_Items p) (?n, []) = Inr (n, batches)"
    and cover: "validate_batch_coverage p batches = Inr ()"
    unfolding split_into_batches_mode_Inr by blast
  from batch_split.split_sound [OF run] est
  have "concat (map ba_Items batches) = pr_Items p \<and>
     map ba_BatchNumber batches = map (\<lambda>i. ?n + int i) [0..<length batches] \<and>
     (\<forall>b \<in> set batches. ba_Items b \<noteq> [] \<and>
        (\<exists>t. est (mk_batch_input input reduction b) = Inr t \<and> t \<le> effective_budget budget))"
    by (auto simp: batch_split.batches_for_def)
  with cover est show ?thesis unfolding validate_batch_coverage_iff batch_wf_def by simp
qed

text \<open>
  C5: the self-check never gets in the way. On a well-formed projection, whatever order Go lists
  the schemas of a batch in, if the estimator counts every request made of items of the projection
  and every single item fits the budget, the split succeeds.
\<close>

theorem split_into_batches_complete:
  assumes wf: "projection_wf p" and order: "\<And>xs. mset (order xs) = mset xs"
    and counted: "\<And>xs n. xs \<noteq> [] \<Longrightarrow> set xs \<subseteq> set (pr_Items p) \<Longrightarrow>
                    \<exists>t. est (mk_batch_input input reduction (build_batch order p xs n)) = Inr t"
    and fits: "\<And>x n. x \<in> set (pr_Items p) \<Longrightarrow>
                 \<exists>t. est (mk_batch_input input reduction (build_batch order p [x] n)) = Inr t \<and>
                     t \<le> effective_budget budget"
  shows "\<exists>batches. split_into_batches_mode order (Some est) budget p input start reduction = Inr batches"
proof (cases "pr_Items p = []")
  case True
  then show ?thesis by (simp add: split_into_batches_mode_Inr)
next
  case False
  let ?n = "if start \<le> 0 then 1 else start"
  let ?cb = "\<lambda>b. est (mk_batch_input input reduction b)"
  obtain n batches where run: "split_items (build_batch order p) ?cb
      (effective_budget budget) (pr_Items p) (?n, []) = Inr (n, batches)"
    using batch_split.split_total [of "pr_Items p" ?cb order p "effective_budget budget" ?n "[]"]
      counted fits by auto
  from batch_split.split_sound [OF run]
  have items: "concat (map ba_Items batches) = pr_Items p"
    and built: "\<forall>b \<in> set batches. b = build_batch order p (ba_Items b) (ba_BatchNumber b)"
    by (auto simp: batch_split.batches_for_def)
  have "batch_wf p b" if "b \<in> set batches" for b
  proof -
    from that items have "set (ba_Items b) \<subseteq> set (pr_Items p)" by (auto simp flip: items)
    then show ?thesis using build_batch_wf [OF wf order] built that by metis
  qed
  with wf items have "validate_batch_coverage p batches = Inr ()"
    by (simp add: validate_batch_coverage_iff)
  with False run show ?thesis unfolding split_into_batches_mode_Inr by blast
qed

section \<open>A small catalog\<close>

text \<open>Two items of one catalog, the first with a schema, a variant and an offer of the variant.\<close>

definition sample_variant :: "string \<Rightarrow> string \<Rightarrow> ai_variant" where
  "sample_variant item v =
     \<lparr>va_EffectiveAttributes = [], va_ResolvedAttributes = [], va_Offers = [], va_ID = v,
      va_CatalogItemID = item, va_Name = ''red'', va_Attributes = [], va_Status = ''active''\<rparr>"

definition sample_offer :: "string \<Rightarrow> string \<Rightarrow> string option \<Rightarrow> ai_offer" where
  "sample_offer item f v =
     \<lparr>of_ID = f, of_CatalogItemID = item, of_VariantID = v, of_Name = ''retail'',
      of_PricingMode = ''fixed'', of_Amount = Some ''10.00'', of_Currency = Some ''USD'',
      of_PricingUnit = None, of_PriceSource = None, of_PriceVerificationStatus = None,
      of_PriceCheckedAt = None, of_AvailabilityMode = None, of_AvailabilityStatus = None,
      of_AvailabilitySource = None, of_AvailabilityCheckedAt = None,
      of_AvailabilityValidUntil = None, of_AvailabilityEvidenceRef = None,
      of_FulfillmentMode = None, of_ValidityFrom = None, of_ValidityUntil = None,
      of_Status = ''active''\<rparr>"

definition sample_item :: "string \<Rightarrow> string option \<Rightarrow> ai_variant list \<Rightarrow> ai_offer list \<Rightarrow> ai_item" where
  "sample_item i schema vs fs =
     \<lparr>it_Catalog = None, it_Schema = None, it_ResolvedAttributes = [], it_ID = i,
      it_CatalogID = ''c1'', it_AttributeSchemaID = schema,
      it_AttributeSchemaVersion = map_option (\<lambda>_. 1) schema, it_ItemType = ''product'',
      it_Name = ''shirt'', it_ShortDescription = None, it_LongDescription = None,
      it_Status = ''active'', it_PricingMode = ''fixed'', it_AvailabilityMode = ''always'',
      it_FulfillmentMode = ''pickup'', it_RequiresConfirmation = False, it_Attributes = [],
      it_Variants = vs, it_Offers = fs, it_ItemLevelOffers = []\<rparr>"

definition sample_projection :: projection where
  "sample_projection =
     \<lparr>pr_Catalogs = [\<lparr>ct_ID = ''c1'', ct_Name = ''main'', ct_Description = None, ct_Status = ''active''\<rparr>],
      pr_AttributeSchemas = [\<lparr>sc_ID = ''s1'', sc_Name = ''clothes'', sc_Version = 1, sc_Definitions = []\<rparr>],
      pr_Items = [sample_item ''i1'' (Some ''s1'') [sample_variant ''i1'' ''v1'', sample_variant ''i1'' ''v2'']
                    [sample_offer ''i1'' ''f1'' (Some ''v1''), sample_offer ''i1'' ''f2'' (Some ''v2'')],
                  sample_item ''i2'' None [] []]\<rparr>"

definition sample_input :: "(unit, unit) evaluation_input" where
  "sample_input =
     \<lparr>ei_SourceMessageReference = ''m1'', ei_AIRunID = ''run1'', ei_AttemptID = ''a1'',
      ei_BusinessID = ''b1'', ei_ConversationID = ''k1'', ei_CatalogScope = '''',
      ei_CustomerMessage = ''how much?'', ei_ConversationContext = (), ei_EntityContract = ()\<rparr>"

text \<open>An estimator that counts ten tokens per item.\<close>

definition sample_count :: "(unit, unit) batch_input \<Rightarrow> int result" where
  "sample_count bi = Inr (10 * int (length (ba_Items (bi_Batch bi))))"

definition sample_batches :: "batch_payload list" where
  "sample_batches = [build_batch (\<lambda>xs. xs) sample_projection [pr_Items sample_projection ! 0] 1,
                     build_batch (\<lambda>xs. xs) sample_projection [pr_Items sample_projection ! 1] 2]"

lemmas sample_defs = sample_projection_def sample_item_def sample_variant_def sample_offer_def
  sample_input_def sample_count_def sample_batches_def

lemma sample_split:
  "split_into_batches_mode (\<lambda>xs. xs) (Some sample_count) 15 sample_projection sample_input 0 False =
     Inr sample_batches"
  by code_simp

lemma sample_projection_wf: "projection_wf sample_projection"
  by (auto simp: projection_wf_def item_wf_def has_schema_def catalog_of_item_def schema_of_item_def
      sample_projection_def sample_item_def sample_variant_def sample_offer_def)

theorem validate_batch_coverage_exact_witness:
  "validate_batch_coverage sample_projection sample_batches = Inr () \<and>
   mset (concat (map ba_Items sample_batches)) = mset (pr_Items sample_projection) \<and>
   batch_wf sample_projection (sample_batches ! 0)"
proof -
  have "validate_batch_coverage sample_projection sample_batches = Inr ()" by code_simp
  moreover have "sample_batches ! 0 \<in> set sample_batches" by (simp add: sample_batches_def)
  ultimately show ?thesis
    using validate_batch_coverage_exact [of sample_projection sample_batches] by blast
qed

theorem split_into_batches_sound_witness:
  "concat (map ba_Items sample_batches) = pr_Items sample_projection \<and>
   map ba_BatchNumber sample_batches = [1, 2]"
  using split_into_batches_sound [OF sample_split] by (simp add: sample_batches_def)

theorem split_into_batches_complete_witness:
  "\<exists>batches. split_into_batches_mode rev (Some sample_count) 15 sample_projection sample_input 0 False = Inr batches"
  by (rule split_into_batches_complete [OF sample_projection_wf])
    (auto simp: sample_count_def mk_batch_input_def build_batch_def effective_budget_def)

text \<open>
  The token budget of the native catalog evaluator is computed without overflow on 64-bit
  integers: it exists exactly when both arguments are positive and leave room for a reserve of a tenth
  of the window, at least 2048 tokens, and then it is what remains, a positive number.
\<close>

theorem native_catalog_token_budget_exact:
  "native_catalog_token_budget contextWindow maxOutputTokens = Inr budget \<longleftrightarrow>
     0 < sint contextWindow \<and> 0 < sint maxOutputTokens \<and> 0 < sint budget \<and>
     sint budget = sint contextWindow - sint maxOutputTokens - max 2048 (sint contextWindow div 10)"
proof (cases "0 < sint contextWindow \<and> 0 < sint maxOutputTokens")
  case False
  then show ?thesis by (auto simp: native_catalog_token_budget_def)
next
  case True
  define safety :: "64 word" where
    "safety = (if sint (word_of_int (sint contextWindow div 10) :: 64 word) < 2048 then 2048
               else word_of_int (sint contextWindow div 10))"
  note range = sint64_range [of contextWindow] sint64_range [of maxOutputTokens]
  from True have "0 \<le> sint contextWindow div 10" "sint contextWindow div 10 \<le> sint contextWindow"
    by linarith+
  with range have "sint (word_of_int (sint contextWindow div 10) :: 64 word) = sint contextWindow div 10"
    by (intro sint64_of_int) simp_all
  then have safety: "sint safety = max 2048 (sint contextWindow div 10)"
    by (auto simp: safety_def)
  from True range have diff: "sint (contextWindow - maxOutputTokens) = sint contextWindow - sint maxOutputTokens"
    by (intro sint64_sub) simp_all
  have run: "native_catalog_token_budget contextWindow maxOutputTokens =
      (if sint (contextWindow - maxOutputTokens) \<le> sint safety
       then Inl (PlainError ''catalog context window cannot reserve output and safety tokens'')
       else Inr (contextWindow - maxOutputTokens - safety))"
    using True by (simp add: native_catalog_token_budget_def safety_def Let_def)
  have rest: "sint (contextWindow - maxOutputTokens - safety) =
      sint contextWindow - sint maxOutputTokens - max 2048 (sint contextWindow div 10)"
    if "sint safety < sint (contextWindow - maxOutputTokens)"
  proof -
    from that safety have "0 < sint (contextWindow - maxOutputTokens) - sint safety" "0 < sint safety"
      by simp_all
    with diff range True have "- (2 ^ 63) \<le> sint (contextWindow - maxOutputTokens) - sint safety"
      "sint (contextWindow - maxOutputTokens) - sint safety < 2 ^ 63" by linarith+
    then show ?thesis by (simp add: sint64_sub diff safety)
  qed
  show ?thesis
  proof (cases "sint safety < sint (contextWindow - maxOutputTokens)")
    case False
    with run diff safety show ?thesis by auto
  next
    case fits: True
    have "budget = contextWindow - maxOutputTokens - safety \<longleftrightarrow>
        sint budget = sint contextWindow - sint maxOutputTokens - max 2048 (sint contextWindow div 10)"
      unfolding rest [OF fits, symmetric] by (rule word_eq_iff_signed)
    with fits run True diff safety show ?thesis by auto
  qed
qed

section \<open>Candidates\<close>

lemma append_new_append: "append_new (xs @ ys) out = append_new ys (append_new xs out)"
  by (induction xs arbitrary: out) auto

lemma set_append_new: "set (append_new xs out) = set out \<union> set xs"
  by (induction xs arbitrary: out) auto

lemma distinct_append_new: "distinct out \<Longrightarrow> distinct (append_new xs out)"
  by (induction xs arbitrary: out) auto

lemma append_new_known: "set xs \<subseteq> set out \<Longrightarrow> append_new xs out = out"
  by (induction xs arbitrary: out) auto

lemma append_new_fresh:
  "distinct xs \<Longrightarrow> set xs \<inter> set out = {} \<Longrightarrow> append_new xs out = out @ xs"
  by (induction xs arbitrary: out) auto

text \<open>
  The reference: the items in the order of their first candidate; for each, the union of the
  identifiers its candidates name in order of first mention, and the first reason that is not empty.
\<close>

definition candidate_summary :: "batch_candidate list \<Rightarrow> string \<Rightarrow> batch_candidate" where
  "candidate_summary cs i =
     (let own = filter (\<lambda>c. cd_ItemID c = i) cs in
      \<lparr>cd_ItemID = i,
       cd_VariantIDs = append_new (concat (map cd_VariantIDs own)) [],
       cd_OfferIDs = append_new (concat (map cd_OfferIDs own)) [],
       cd_Reason = (case filter (\<lambda>r. r \<noteq> '''') (map cd_Reason own) of [] \<Rightarrow> '''' | r # _ \<Rightarrow> r)\<rparr>)"

definition candidate_items :: "batch_candidate list \<Rightarrow> string list" where
  "candidate_items cs = append_new (map cd_ItemID cs) []"

lemma candidate_summary_snoc:
  "candidate_summary (cs @ [c]) i =
     (if i = cd_ItemID c then merge_candidate (candidate_summary cs i) c else candidate_summary cs i)"
  by (auto simp: candidate_summary_def merge_candidate_def append_new_append Let_def
      dest: filter_eq_ConsD split: list.splits)

lemma candidate_summary_new:
  "cd_ItemID c \<notin> cd_ItemID ` set cs \<Longrightarrow>
     merge_candidate (candidate_summary cs (cd_ItemID c)) c =
     merge_candidate \<lparr>cd_ItemID = cd_ItemID c, cd_VariantIDs = [], cd_OfferIDs = [], cd_Reason = cd_Reason c\<rparr> c"
  by (simp add: notin_image_iff candidate_summary_def merge_candidate_def filter_False)

lemma add_candidate_new:
  "cd_ItemID c \<notin> cd_ItemID ` set out \<Longrightarrow>
     add_candidate c out = out @ add_candidate c []"
  by (induction out) auto

lemma add_candidate_known:
  "distinct (map cd_ItemID out) \<Longrightarrow> cd_ItemID c \<in> cd_ItemID ` set out \<Longrightarrow>
     add_candidate c out = map (\<lambda>e. if cd_ItemID e = cd_ItemID c then merge_candidate e c else e) out"
proof (induction out)
  case Nil
  then show ?case by simp
next
  case (Cons e out)
  show ?case
  proof (cases "cd_ItemID e = cd_ItemID c")
    case True
    with Cons.prems(1) have "\<forall>x \<in> set out. cd_ItemID x \<noteq> cd_ItemID c"
      by (simp add: notin_image_iff)
    with True show ?thesis by (simp add: map_idI)
  next
    case False
    with Cons.prems(2) have "cd_ItemID c \<in> cd_ItemID ` set out" by auto
    with False Cons show ?thesis by simp
  qed
qed

lemma cd_ItemID_summary [simp]: "cd_ItemID (candidate_summary cs i) = i"
  by (simp add: candidate_summary_def Let_def)

lemma normalize_batch_candidates_eq:
  "normalize_batch_candidates cs = map (candidate_summary cs) (candidate_items cs)"
proof (induction cs rule: rev_induct)
  case Nil
  show ?case by (simp add: normalize_batch_candidates_def candidate_items_def)
next
  case (snoc c cs)
  have set: "set (candidate_items cs) = cd_ItemID ` set cs"
    by (simp add: candidate_items_def set_append_new)
  have step: "normalize_batch_candidates (cs @ [c]) =
      add_candidate c (map (candidate_summary cs) (candidate_items cs))"
    by (simp add: normalize_batch_candidates_def flip: snoc.IH)
  show ?case
  proof (cases "cd_ItemID c \<in> cd_ItemID ` set cs")
    case True
    then have "candidate_items (cs @ [c]) = candidate_items cs"
      using set by (simp add: candidate_items_def append_new_append)
    moreover have "distinct (map cd_ItemID (map (candidate_summary cs) (candidate_items cs)))"
      by (simp add: comp_def candidate_items_def distinct_append_new)
    ultimately show ?thesis
      using True set by (auto simp: step add_candidate_known candidate_summary_snoc image_image)
  next
    case False
    then have "candidate_items (cs @ [c]) = candidate_items cs @ [cd_ItemID c]"
      using set by (simp add: candidate_items_def append_new_append)
    moreover have "candidate_summary (cs @ [c]) i = candidate_summary cs i" if "i \<in> set (candidate_items cs)" for i
      using that False set by (metis candidate_summary_snoc)
    ultimately show ?thesis
      using False set
      by (simp add: step add_candidate_new image_image candidate_summary_snoc candidate_summary_new)
  qed
qed

lemma candidate_items_distinct: "distinct (candidate_items cs)"
  by (simp add: candidate_items_def distinct_append_new)

lemma normalize_items: "cd_ItemID ` set (normalize_batch_candidates cs) = cd_ItemID ` set cs"
  by (simp add: normalize_batch_candidates_eq image_image candidate_items_def set_append_new)

lemma summary_of_normalized:
  assumes "i \<in> set (candidate_items cs)"
  shows "candidate_summary (map (candidate_summary cs) (candidate_items cs)) i = candidate_summary cs i"
proof -
  have "filter (\<lambda>c. cd_ItemID c = i) (map (candidate_summary cs) xs) = [candidate_summary cs i]"
    if "distinct xs" "i \<in> set xs" for xs
    using that by (induction xs) (auto simp: filter_map comp_def filter_empty_conv)
  then have own: "filter (\<lambda>c. cd_ItemID c = i) (map (candidate_summary cs) (candidate_items cs)) =
      [candidate_summary cs i]"
    using assms candidate_items_distinct by blast
  have "append_new (cd_VariantIDs (candidate_summary cs i)) [] = cd_VariantIDs (candidate_summary cs i)"
    "append_new (cd_OfferIDs (candidate_summary cs i)) [] = cd_OfferIDs (candidate_summary cs i)"
    by (simp_all add: candidate_summary_def Let_def append_new_fresh distinct_append_new)
  then show ?thesis unfolding candidate_summary_def [of "map _ _"] own by (simp add: Let_def)
qed

text \<open>
  C6: \<^verbatim>\<open>normalizeBatchCandidates\<close> is the reference summary: one entry per item in the order of first
  mention, with the union of the variant and offer identifiers its candidates name, none repeated, and
  the first non-empty reason. Normalising a second time changes nothing.
\<close>

theorem normalize_batch_candidates_correct:
  "normalize_batch_candidates cs = map (candidate_summary cs) (candidate_items cs) \<and>
   distinct (map cd_ItemID (normalize_batch_candidates cs)) \<and>
   cd_ItemID ` set (normalize_batch_candidates cs) = cd_ItemID ` set cs \<and>
   normalize_batch_candidates (normalize_batch_candidates cs) = normalize_batch_candidates cs"
proof -
  let ?n = "normalize_batch_candidates cs"
  have ids: "map cd_ItemID ?n = candidate_items cs"
    by (simp add: normalize_batch_candidates_eq comp_def)
  then have "candidate_items ?n = candidate_items cs"
    by (simp add: candidate_items_def [of ?n] append_new_fresh candidate_items_distinct)
  then have "normalize_batch_candidates ?n = map (candidate_summary ?n) (candidate_items cs)"
    by (simp add: normalize_batch_candidates_eq)
  also have "\<dots> = ?n"
    by (simp add: normalize_batch_candidates_eq summary_of_normalized cong: map_cong)
  finally have "normalize_batch_candidates ?n = ?n" .
  with ids show ?thesis
    by (simp add: normalize_items candidate_items_distinct) (simp add: normalize_batch_candidates_eq)
qed

text \<open>What evidence supports a candidate: the declarative content of \<^verbatim>\<open>validateBatchCandidates\<close>.\<close>

definition candidate_supported :: "ai_item list \<Rightarrow> batch_candidate \<Rightarrow> bool" where
  "candidate_supported items c \<longleftrightarrow>
     (\<exists>item \<in> set items. it_ID item = cd_ItemID c \<and>
        set (cd_VariantIDs c) \<subseteq> va_ID ` set (it_Variants item) \<and>
        (\<forall>fid \<in> set (cd_OfferIDs c). \<exists>f \<in> set (it_Offers item). of_ID f = fid \<and>
           (cd_VariantIDs c = [] \<or> of_VariantID f \<in> {None, Some ''''} \<or>
            of_VariantID f \<in> Some ` set (cd_VariantIDs c))))"

lemma check_candidate_offers_iff:
  assumes "distinct (map of_ID fs)"
  shows "check_candidate_offers (key_index of_ID fs) selected fids = Inr () \<longleftrightarrow>
     (\<forall>fid \<in> set fids. \<exists>f \<in> set fs. of_ID f = fid \<and>
        (selected = [] \<or> of_VariantID f \<in> {None, Some ''''} \<or> of_VariantID f \<in> Some ` set selected))"
proof (induction fids)
  case Nil
  show ?case by simp
next
  case (Cons fid fids)
  show ?case
  proof (cases "map_of (key_index of_ID fs) fid")
    case None
    then have "fid \<notin> of_ID ` set fs" by (simp add: map_of_index_None)
    with None show ?thesis by (auto simp: notin_image_iff)
  next
    case (Some f)
    with assms have f: "f \<in> set fs" "of_ID f = fid" by (simp_all add: map_of_rev_index)
    have only: "(\<exists>x \<in> set fs. of_ID x = fid \<and> P x) \<longleftrightarrow> P f" for P
      using f assms unfolding distinct_map inj_on_def by metis
    show ?thesis using Some by (auto simp: Cons.IH only split: option.splits)
  qed
qed

lemma check_candidate_iff:
  assumes "distinct (map it_ID items)" and "\<forall>item \<in> set items. distinct (map of_ID (it_Offers item))"
  shows "check_candidate (key_index it_ID items) c = Inr () \<longleftrightarrow> candidate_supported items c"
proof (cases "map_of (key_index it_ID items) (cd_ItemID c)")
  case None
  then have "cd_ItemID c \<notin> it_ID ` set items" by (simp add: map_of_index_None)
  with None show ?thesis by (auto simp: check_candidate_def candidate_supported_def notin_image_iff)
next
  case (Some item)
  with assms(1) have item: "item \<in> set items" "it_ID item = cd_ItemID c"
    by (simp_all add: map_of_rev_index)
  have only: "(\<exists>x \<in> set items. it_ID x = cd_ItemID c \<and> P x) \<longleftrightarrow> P item" for P
    using item assms(1) unfolding distinct_map inj_on_def by metis
  from assms(2) item have "distinct (map of_ID (it_Offers item))" by blast
  with Some show ?thesis
    by (simp add: check_candidate_def candidate_supported_def only check_candidate_offers_iff)
qed

text \<open>
  C7: on a batch with unique identifiers (which the coverage check ensures), the model's output is
  accepted exactly when every candidate names an item of the batch, variants of that item, and offers
  of that item which belong to the item itself or, when variants are selected, to one of them.
\<close>

theorem validate_batch_candidates_exact:
  assumes "distinct (map it_ID (ba_Items batch))"
    and "\<forall>item \<in> set (ba_Items batch). distinct (map of_ID (it_Offers item))"
  shows "validate_batch_candidates batch cs = Inr () \<longleftrightarrow>
           (\<forall>c \<in> set cs. candidate_supported (ba_Items batch) c)"
proof -
  have "check_candidates (key_index it_ID (ba_Items batch)) cs = Inr () \<longleftrightarrow>
      (\<forall>c \<in> set cs. check_candidate (key_index it_ID (ba_Items batch)) c = Inr ())"
    by (induction cs) (auto split: sum.splits)
  then show ?thesis by (simp add: validate_batch_candidates_def check_candidate_iff [OF assms])
qed

abbreviation sample_candidate :: "string list \<Rightarrow> string list \<Rightarrow> batch_candidate" where
  "sample_candidate vs fs \<equiv> \<lparr>cd_ItemID = ''i1'', cd_VariantIDs = vs, cd_OfferIDs = fs, cd_Reason = ''''\<rparr>"

theorem validate_batch_candidates_exact_witness:
  "validate_batch_candidates (sample_batches ! 0) [sample_candidate [''v1''] [''f1'']] = Inr () \<and>
   validate_batch_candidates (sample_batches ! 0) [sample_candidate [''v1''] [''f2'']] \<noteq> Inr ()"
proof -
  have batch: "distinct (map it_ID (ba_Items (sample_batches ! 0)))"
    "\<forall>item \<in> set (ba_Items (sample_batches ! 0)). distinct (map of_ID (it_Offers item))"
    by (simp_all add: sample_defs build_batch_def)
  show ?thesis
    unfolding validate_batch_candidates_exact [OF batch]
    by (simp add: candidate_supported_def sample_defs build_batch_def)
qed

text \<open>
  Merging is not validated again: two candidates of one item that the check accepts one by one can be
  merged by the normalisation into one that the check would refuse.
\<close>

lemma normalization_can_lose_support:
  "let cs = [sample_candidate [''v1''] [], sample_candidate [] [''f2'']] in
   validate_batch_candidates (sample_batches ! 0) cs = Inr () \<and>
   validate_batch_candidates (sample_batches ! 0) (normalize_batch_candidates cs) \<noteq> Inr ()"
  by code_simp

section \<open>The projection of the candidates\<close>

lemma append_items_eq:
  "distinct (map it_ID items) \<Longrightarrow>
     append_items selected items (target, seen) =
       (let new = filter (\<lambda>i. it_ID i \<in> selected \<and> it_ID i \<notin> set seen) items
        in (target @ new, rev (map it_ID new) @ seen))"
proof (induction items arbitrary: target seen)
  case Nil
  show ?case by simp
next
  case (Cons item items)
  from Cons.prems have fresh: "it_ID item \<notin> it_ID ` set items" by simp
  have "filter (\<lambda>i. it_ID i \<in> selected \<and> it_ID i \<notin> insert (it_ID item) (set seen)) items =
        filter (\<lambda>i. it_ID i \<in> selected \<and> it_ID i \<notin> set seen) items"
    using fresh by (auto simp: notin_image_iff intro: filter_cong)
  with Cons show ?case by (simp add: Let_def)
qed

lemma append_referenced_grows: "set target \<subseteq> set (append_referenced key used xs target)"
  by (induction key used xs target rule: append_referenced.induct) auto

lemma append_referenced_subset:
  "set (append_referenced key used xs target) \<subseteq> set target \<union> {x \<in> set xs. key x \<in> used}"
proof (induction key used xs target rule: append_referenced.induct)
  case (2 key used x xs target)
  then show ?case by (cases "key x \<in> key ` set target \<or> key x \<notin> used") auto
qed simp

lemma append_referenced_keys:
  "key ` set (append_referenced key used xs target) = key ` set target \<union> (key ` set xs \<inter> used)"
proof (induction key used xs target rule: append_referenced.induct)
  case (2 key used x xs target)
  then show ?case by (cases "key x \<in> key ` set target \<or> key x \<notin> used") auto
qed simp

lemma append_referenced_exact:
  "key ` set target = R \<Longrightarrow> U \<subseteq> key ` set xs \<Longrightarrow>
     key ` set (append_referenced key (R \<union> U) xs target) = R \<union> U"
  unfolding append_referenced_keys by blast

lemma append_referenced_distinct:
  "distinct (map key target) \<Longrightarrow> distinct (map key (append_referenced key used xs target))"
  by (induction key used xs target rule: append_referenced.induct) auto

text \<open>
  A projection whose references resolve: every item's catalog and schema identifiers are listed, and
  nothing else is.
\<close>

definition references_resolved :: "projection \<Rightarrow> bool" where
  "references_resolved p \<longleftrightarrow>
     ct_ID ` set (pr_Catalogs p) = it_CatalogID ` set (pr_Items p) \<and>
     sc_ID ` set (pr_AttributeSchemas p) = set (List.map_filter it_AttributeSchemaID (pr_Items p))"

text \<open>
  \<^verbatim>\<open>appendCandidateProjection\<close> appends, in the order of the batch and complete with variants and
  offers, exactly the items that are named by a candidate and were not taken before, and records them as
  seen. When the batch lists the catalogs and schemas its items refer to and the target's references
  resolve, the new target's references resolve as well and list nothing that is not referred to.
\<close>

theorem append_candidate_projection_correct:
  assumes distinct: "distinct (map it_ID (ba_Items batch))"
    and target: "references_resolved target"
    and catalogs: "it_CatalogID ` set (ba_Items batch) \<subseteq> ct_ID ` set (ba_Catalogs batch)"
    and schemas: "set (List.map_filter it_AttributeSchemaID (ba_Items batch)) \<subseteq>
                  sc_ID ` set (ba_AttributeSchemas batch)"
    and run: "append_candidate_projection target batch cs seen = (target', seen')"
  shows "pr_Items target' = pr_Items target @
           filter (\<lambda>i. it_ID i \<in> cd_ItemID ` set cs \<and> it_ID i \<notin> set seen) (ba_Items batch) \<and>
         set seen' = set seen \<union> (it_ID ` set (ba_Items batch) \<inter> cd_ItemID ` set cs) \<and>
         references_resolved target'"
proof -
  let ?new = "filter (\<lambda>i. it_ID i \<in> cd_ItemID ` set cs \<and> it_ID i \<notin> set seen) (ba_Items batch)"
  let ?items = "pr_Items target @ ?new"
  have step: "append_items (cd_ItemID ` set cs) (ba_Items batch) (pr_Items target, seen) =
      (?items, rev (map it_ID ?new) @ seen)"
    using append_items_eq [OF distinct] by (simp add: Let_def)
  have target': "target' = \<lparr>pr_Catalogs = append_referenced ct_ID (it_CatalogID ` set ?items)
        (ba_Catalogs batch) (pr_Catalogs target),
      pr_AttributeSchemas = append_referenced sc_ID (set (List.map_filter it_AttributeSchemaID ?items))
        (ba_AttributeSchemas batch) (pr_AttributeSchemas target),
      pr_Items = ?items\<rparr>"
    and seen': "seen' = rev (map it_ID ?new) @ seen"
    using run by (simp_all add: append_candidate_projection_def normalize_items step)
  have used: "it_CatalogID ` set ?new \<subseteq> it_CatalogID ` set (ba_Items batch)"
    "set (List.map_filter it_AttributeSchemaID ?new) \<subseteq> set (List.map_filter it_AttributeSchemaID (ba_Items batch))"
    by (auto simp: set_map_filter)
  from target have tc: "ct_ID ` set (pr_Catalogs target) = it_CatalogID ` set (pr_Items target)"
    and ts: "sc_ID ` set (pr_AttributeSchemas target) =
      set (List.map_filter it_AttributeSchemaID (pr_Items target))"
    by (simp_all add: references_resolved_def)
  have "ct_ID ` set (pr_Catalogs target') = it_CatalogID ` set ?items"
    unfolding target' projection.select_convs set_append image_Un
    by (rule append_referenced_exact [OF tc subset_trans [OF used(1) catalogs]])
  moreover have "sc_ID ` set (pr_AttributeSchemas target') = set (List.map_filter it_AttributeSchemaID ?items)"
    unfolding target' projection.select_convs map_filter_append set_append
    by (rule append_referenced_exact [OF ts subset_trans [OF used(2) schemas]])
  ultimately have "references_resolved target'" by (simp add: references_resolved_def target')
  moreover have "set seen' = set seen \<union> (it_ID ` set (ba_Items batch) \<inter> cd_ItemID ` set cs)"
    unfolding seen' by auto
  ultimately show ?thesis by (simp add: target')
qed

theorem append_candidate_projection_correct_witness:
  "let (target, seen) = append_candidate_projection empty_projection (sample_batches ! 0)
                          [sample_candidate [''v1''] [''f1'']] []
   in map it_ID (pr_Items target) = [''i1''] \<and> references_resolved target"
proof -
  obtain target seen where run: "append_candidate_projection empty_projection (sample_batches ! 0)
      [sample_candidate [''v1''] [''f1'']] [] = (target, seen)" by force
  have "references_resolved empty_projection" by (simp add: references_resolved_def empty_projection_def)
  from append_candidate_projection_correct [OF _ this _ _ run] run show ?thesis
    by (simp add: sample_defs build_batch_def empty_projection_def collect_catalogs_for_items_def
        schema_by_id_def collect_schemas_def)
qed

end
