(* ===== verification/AI_Usage.thy ===== *)
theory AI_Usage
  imports Go_Prelude
begin

text \<open>
  Accounting of model calls: \<^verbatim>\<open>services/native_provider_spend.go\<close>, \<^verbatim>\<open>services/ai_usage_provider.go\<close>,
  \<^verbatim>\<open>NativeMerchantUsageRecorder.Record\<close> of \<^verbatim>\<open>services/native_merchant_usage.go\<close> and
  \<^verbatim>\<open>recordBatchUsage\<close> of \<^verbatim>\<open>services/catalog_batch_controller.go\<close>. Token counts, prices and costs are
  64-bit words, as Go's \<^verbatim>\<open>int\<close> and \<^verbatim>\<open>int64\<close>; \<^verbatim>\<open>big.Int\<close> is \<^typ>\<open>int\<close>.
\<close>

section \<open>Data\<close>

record usage_telemetry =
  tel_InputTokens :: "64 word"
  tel_CachedTokens :: "64 word"
  tel_OutputTokens :: "64 word"
  tel_Provider :: string
  tel_Model :: string
  tel_EstimatedCostMicros :: "64 word"
  tel_GatewayCallID :: string
  tel_GatewayDeploymentID :: string
  tel_GatewayCostUSD :: string
  tel_GatewayCostKnown :: bool
  tel_LatencyMs :: "64 word"
  tel_ModelRequests :: "64 word"

record pricing_version =
  pv_ID :: string
  pv_Provider :: string
  pv_Model :: string
  pv_PricingVersion :: string
  pv_InputPerMillionYER :: "64 word"
  pv_CachedInputPerMillionYER :: "64 word"
  pv_OutputPerMillionYER :: "64 word"
  pv_EffectiveFrom :: time
  pv_EffectiveTo :: "time option"
  pv_CreatedAt :: time

record usage_append =
  ua_ID :: string
  ua_BusinessID :: string
  ua_SubscriptionID :: string
  ua_Provider :: string
  ua_Model :: string
  ua_InputTokens :: "64 word"
  ua_CachedInputTokens :: "64 word"
  ua_OutputTokens :: "64 word"
  ua_ModelRequests :: "64 word"
  ua_ToolCalls :: "64 word"
  ua_FinalAIReplies :: "64 word"
  ua_ProviderCostYER :: "64 word"
  ua_PricingVersion :: string
  ua_Status :: string
  ua_FailureCode :: "string option"
  ua_CorrelationID :: "string option"
  ua_StartedAt :: time
  ua_CompletedAt :: time
  ua_Now :: time
  ua_GatewayCostUSD :: string
  ua_GatewayFXRateYER :: string
  ua_GatewayCallID :: string
  ua_GatewayDeploymentID :: string

text \<open>
  The collaborators of a recorder, acting on a world \<^typ>\<open>'w\<close>; a field that may be \<^verbatim>\<open>nil\<close> is an option. Of
  the page of active subscriptions only the identifiers are used, of an appended record nothing.
\<close>

record 'w usage_ports =
  us_AppendRecord :: "(usage_append \<Rightarrow> ('w, unit) run) option"
  us_ListSubscriptions :: "(string \<Rightarrow> string \<Rightarrow> int \<Rightarrow> ('w, string list) run) option"
  us_GetCurrentForProvider :: "(string \<Rightarrow> string \<Rightarrow> ('w, pricing_version) run) option"
  us_FXRateYER :: string
  us_Now :: "'w \<Rightarrow> time \<times> 'w"
  us_NewID :: "'w \<Rightarrow> string \<times> 'w"

section \<open>Prices\<close>

definition usage_provider :: "string \<Rightarrow> string" where
  "usage_provider provider = trim_space provider"

definition max_native_requests :: "64 word \<Rightarrow> 64 word" where
  "max_native_requests n = (if sint n < 1 then 1 else n)"

definition native_provider_spend :: "usage_telemetry \<Rightarrow> string \<Rightarrow> string \<times> string \<times> string \<times> bool" where
  "native_provider_spend usage fxRate =
     (if blank (tel_Provider usage) \<or> \<not> tel_GatewayCostKnown usage \<or>
         blank (tel_GatewayCostUSD usage) \<or> blank fxRate
      then (''unknown'', '''', '''', True)
      else (''native_provider_usd'', tel_GatewayCostUSD usage, fxRate, False))"

text \<open>The cost in millionths of a rial, and what is recorded of it.\<close>

definition token_cost_micros :: "pricing_version \<Rightarrow> usage_telemetry \<Rightarrow> int" where
  "token_cost_micros v usage =
     sint (tel_InputTokens usage - tel_CachedTokens usage) * sint (pv_InputPerMillionYER v) +
     sint (tel_CachedTokens usage) * sint (pv_CachedInputPerMillionYER v) +
     sint (tel_OutputTokens usage) * sint (pv_OutputPerMillionYER v)"

definition priced_total :: "pricing_version \<Rightarrow> usage_telemetry \<Rightarrow> 64 word \<times> string \<times> bool" where
  "priced_total v usage =
     (let total = token_cost_micros v usage in
      if total < 0 then (0, ''unknown'', True)
      else let total = (total + 999999) div 1000000 in
        if \<not> (- (2 ^ 63) \<le> total \<and> total < 2 ^ 63) \<or> sint (word_of_int total :: 64 word) > 2 ^ 63 - 1
        then (0, ''unknown'', True)
        else (word_of_int total, pv_PricingVersion v, False))"

definition native_token_priced_spend ::
  "(string \<Rightarrow> string \<Rightarrow> ('w, pricing_version) run) option \<Rightarrow> usage_telemetry \<Rightarrow> 'w \<Rightarrow>
   (64 word \<times> string \<times> bool) \<times> 'w" where
  "native_token_priced_spend pricing usage w =
     (case pricing of
        None \<Rightarrow> ((0, ''unknown'', True), w)
      | Some getCurrent \<Rightarrow>
          if blank (tel_Provider usage) \<or> blank (tel_Model usage) \<or>
             sint (tel_InputTokens usage) < 0 \<or> sint (tel_CachedTokens usage) < 0 \<or>
             sint (tel_CachedTokens usage) > sint (tel_InputTokens usage) \<or> sint (tel_OutputTokens usage) < 0
          then ((0, ''unknown'', True), w)
          else (case getCurrent (usage_provider (tel_Provider usage)) (tel_Model usage) w of
                  (Inl _, w') \<Rightarrow> ((0, ''unknown'', True), w')
                | (Inr v, w') \<Rightarrow>
                    if blank (pv_PricingVersion v) \<or> sint (pv_InputPerMillionYER v) \<le> 0 \<or>
                       sint (pv_CachedInputPerMillionYER v) < 0 \<or> sint (pv_OutputPerMillionYER v) \<le> 0
                    then ((0, ''unknown'', True), w')
                    else (priced_total v usage, w')))"

text \<open>
  How both recorders price a call: the provider's own figure when it has one, else the approved price
  list, else nothing. The result is the price version, the provider's figure and rate, the cost in rials
  and whether no price was found.
\<close>

definition priced_call ::
  "'w usage_ports \<Rightarrow> usage_telemetry \<Rightarrow> 'w \<Rightarrow> (string \<times> string \<times> string \<times> 64 word \<times> bool) \<times> 'w" where
  "priced_call P usage w =
     (case native_provider_spend usage (us_FXRateYER P) of (version, usd, rate, failed) \<Rightarrow>
        if failed
        then (case native_token_priced_spend (us_GetCurrentForProvider P) usage w of ((cost, pv, unpriced), w') \<Rightarrow>
                if \<not> unpriced then ((pv, usd, rate, cost, False), w')
                else ((version, usd, rate, 0, True), w'))
        else ((version, usd, rate, 0, False), w))"

section \<open>The recorders\<close>

definition uncached_tokens :: "usage_telemetry \<Rightarrow> 64 word" where
  "uncached_tokens usage =
     (let n = tel_InputTokens usage - tel_CachedTokens usage in if sint n < 0 then 0 else n)"

text \<open>\<^verbatim>\<open>recordBatchUsage\<close>: best effort, no error ever leaves it.\<close>

definition batch_usage_record ::
  "string \<Rightarrow> string \<Rightarrow> string \<Rightarrow> string \<Rightarrow> usage_telemetry \<Rightarrow>
   string \<times> string \<times> string \<times> 64 word \<times> bool \<Rightarrow> string \<Rightarrow> time \<Rightarrow> usage_append" where
  "batch_usage_record businessID subscriptionID runID phase usage price recordID now =
     (case price of (version, usd, rate, cost, failed) \<Rightarrow>
       \<lparr>ua_ID = recordID, ua_BusinessID = businessID, ua_SubscriptionID = subscriptionID,
        ua_Provider = usage_provider (tel_Provider usage), ua_Model = tel_Model usage,
        ua_InputTokens = uncached_tokens usage, ua_CachedInputTokens = tel_CachedTokens usage,
        ua_OutputTokens = tel_OutputTokens usage,
        ua_ModelRequests = max_native_requests (tel_ModelRequests usage),
        ua_ToolCalls = 0, ua_FinalAIReplies = 0, ua_ProviderCostYER = cost, ua_PricingVersion = version,
        ua_Status = (if failed then ''pricing_failed'' else ''success''), ua_FailureCode = None,
        ua_CorrelationID = Some (runID @ ''|'' @ phase),
        ua_StartedAt = now + sint (- tel_LatencyMs usage * 1000000), ua_CompletedAt = now, ua_Now = now,
        ua_GatewayCostUSD = usd, ua_GatewayFXRateYER = rate,
        ua_GatewayCallID = tel_GatewayCallID usage, ua_GatewayDeploymentID = tel_GatewayDeploymentID usage\<rparr>)"

definition active_subscription :: "'w usage_ports \<Rightarrow> string \<Rightarrow> 'w \<Rightarrow> string \<times> 'w" where
  "active_subscription P businessID w =
     (case us_ListSubscriptions P of
        None \<Rightarrow> ('''', w)
      | Some listSubs \<Rightarrow> (case listSubs businessID ''ACTIVE'' 1 w of
                       (Inr (s # _), w') \<Rightarrow> (s, w')
                     | (_, w') \<Rightarrow> ('''', w')))"

definition record_batch_usage ::
  "'w usage_ports \<Rightarrow> string \<Rightarrow> string \<Rightarrow> usage_telemetry \<Rightarrow> string \<Rightarrow> 'w \<Rightarrow> 'w" where
  "record_batch_usage P businessID runID usage phase w =
     (case us_AppendRecord P of
        None \<Rightarrow> w
      | Some appendRecord \<Rightarrow>
          (case active_subscription P businessID w of (subscriptionID, w1) \<Rightarrow>
             if subscriptionID = '''' then w1
             else (case priced_call P usage w1 of (price, w2) \<Rightarrow>
                   case us_NewID P w2 of (recordID, w3) \<Rightarrow>
                   case us_Now P w3 of (now, w4) \<Rightarrow>
                     snd (appendRecord (batch_usage_record businessID subscriptionID runID phase usage price recordID now) w4))))"

text \<open>\<^verbatim>\<open>NativeMerchantUsageRecorder.Record\<close>\<close>

definition record_merchant_usage ::
  "'w usage_ports \<Rightarrow> string \<Rightarrow> string \<Rightarrow> usage_telemetry \<Rightarrow> ('w, unit) run" where
  "record_merchant_usage P businessID sessionID usage w =
     (case (us_AppendRecord P, us_ListSubscriptions P) of
        (Some appendRecord, Some listSubs) \<Rightarrow>
          (case listSubs businessID ''ACTIVE'' 1 w of
             (Inl e, w1) \<Rightarrow> (Inl e, w1)
           | (Inr [], w1) \<Rightarrow> (Inl (PlainError ''merchant AI has no active subscription for usage accounting''), w1)
           | (Inr (subscriptionID # _), w1) \<Rightarrow>
               (case priced_call P usage w1 of ((version, usd, rate, cost, failed), w2) \<Rightarrow>
                case us_Now P w2 of (now, w3) \<Rightarrow>
                case (if tel_GatewayCallID usage = '''' then us_NewID P w3 else (tel_GatewayCallID usage, w3)) of (attemptID, w4) \<Rightarrow>
                case us_NewID P w4 of (recordID, w5) \<Rightarrow>
                  appendRecord \<lparr>ua_ID = recordID, ua_BusinessID = businessID, ua_SubscriptionID = subscriptionID,
                    ua_Provider = usage_provider (tel_Provider usage), ua_Model = tel_Model usage,
                    ua_InputTokens = uncached_tokens usage, ua_CachedInputTokens = tel_CachedTokens usage,
                    ua_OutputTokens = tel_OutputTokens usage,
                    ua_ModelRequests = max_native_requests (tel_ModelRequests usage),
                    ua_ToolCalls = 0, ua_FinalAIReplies = 0, ua_ProviderCostYER = cost, ua_PricingVersion = version,
                    ua_Status = (if failed then ''pricing_failed'' else ''success''), ua_FailureCode = None,
                    ua_CorrelationID = Some (''merchant:'' @ sessionID @ '':'' @ attemptID),
                    ua_StartedAt = now, ua_CompletedAt = now, ua_Now = now,
                    ua_GatewayCostUSD = usd, ua_GatewayFXRateYER = rate,
                    ua_GatewayCallID = tel_GatewayCallID usage, ua_GatewayDeploymentID = tel_GatewayDeploymentID usage\<rparr> w5))
      | _ \<Rightarrow> (Inl (PlainError ''merchant AI accounting is not configured''), w))"

section \<open>What is charged\<close>

definition usage_valid :: "usage_telemetry \<Rightarrow> bool" where
  "usage_valid usage \<longleftrightarrow> 0 \<le> sint (tel_CachedTokens usage) \<and>
     sint (tel_CachedTokens usage) \<le> sint (tel_InputTokens usage) \<and> 0 \<le> sint (tel_OutputTokens usage)"



lemma uncached_sub:
  "0 \<le> sint c \<Longrightarrow> sint c \<le> sint i \<Longrightarrow> sint (i - c :: 64 word) = sint i - sint c"
  using sint64_range [of i] by (intro sint64_sub) simp_all






definition sample_usage :: usage_telemetry where
  "sample_usage = \<lparr>tel_InputTokens = 1500, tel_CachedTokens = 500, tel_OutputTokens = 200, tel_Provider = ''p1'',
     tel_Model = ''m1'', tel_EstimatedCostMicros = 0, tel_GatewayCallID = '''', tel_GatewayDeploymentID = '''',
     tel_GatewayCostUSD = '''', tel_GatewayCostKnown = False, tel_LatencyMs = 20, tel_ModelRequests = 0\<rparr>"

definition sample_price :: pricing_version where
  "sample_price = \<lparr>pv_ID = ''x1'', pv_Provider = ''p1'', pv_Model = ''m1'', pv_PricingVersion = ''v7'',
     pv_InputPerMillionYER = 300, pv_CachedInputPerMillionYER = 30, pv_OutputPerMillionYER = 900,
     pv_EffectiveFrom = 1, pv_EffectiveTo = None, pv_CreatedAt = 1\<rparr>"

definition sample_pricing :: "string \<Rightarrow> string \<Rightarrow> (usage_append list, pricing_version) run" where
  "sample_pricing provider model log = (if provider = ''p1'' \<and> model = ''m1'' then Inr sample_price else Inl ErrNoRows, log)"



section \<open>What is recorded\<close>

text \<open>
  A record accounts for a call when its input tokens are those reported, split into cached and uncached
  ones, its output tokens are those reported, it counts at least one request and no customer reply, and
  its price is the provider's own figure, or an amount under a named version of the price list, or
  declared missing with no amount.
\<close>

definition accounts_for :: "usage_append \<Rightarrow> usage_telemetry \<Rightarrow> bool" where
  "accounts_for rec usage \<longleftrightarrow>
     (usage_valid usage \<longrightarrow>
        sint (ua_InputTokens rec) + sint (ua_CachedInputTokens rec) = sint (tel_InputTokens usage)) \<and>
     0 \<le> sint (ua_InputTokens rec) \<and>
     ua_OutputTokens rec = tel_OutputTokens usage \<and> 1 \<le> sint (ua_ModelRequests rec) \<and> ua_FinalAIReplies rec = 0 \<and>
     (ua_Status rec = ''pricing_failed'' \<longrightarrow>
        ua_PricingVersion rec = ''unknown'' \<and> ua_ProviderCostYER rec = 0 \<and> ua_GatewayCostUSD rec = '''') \<and>
     (ua_Status rec \<noteq> ''pricing_failed'' \<longrightarrow> ua_Status rec = ''success'' \<and> ua_PricingVersion rec \<noteq> '''' \<and>
        (ua_GatewayCostUSD rec = '''' \<or>
         ua_GatewayCostUSD rec = tel_GatewayCostUSD usage \<and> tel_GatewayCostKnown usage \<and>
         \<not> blank (ua_GatewayFXRateYER rec) \<and> ua_ProviderCostYER rec = 0))"

lemma blank_Nil [simp]: "blank ''''"
  by (simp add: trim_space_def)

lemma priced_total_version:
  "priced_total v usage = (cost, version, False) \<Longrightarrow> version = pv_PricingVersion v"
  by (auto simp: priced_total_def Let_def split: if_splits)

lemma native_token_priced_spend_version:
  assumes "native_token_priced_spend pricing usage w = ((cost, version, False), w')"
  shows "version \<noteq> ''''"
  using assms blank_Nil
  by (auto simp: native_token_priced_spend_def split: option.splits prod.splits sum.splits if_splits
      dest!: priced_total_version)

lemma priced_call_cases:
  assumes "priced_call P usage w = ((version, usd, rate, cost, failed), w')"
  shows "(failed \<longrightarrow> version = ''unknown'' \<and> usd = '''' \<and> cost = 0) \<and>
     (\<not> failed \<longrightarrow> version \<noteq> '''' \<and>
       (usd = '''' \<or> usd = tel_GatewayCostUSD usage \<and> tel_GatewayCostKnown usage \<and> \<not> blank rate \<and> cost = 0))"
  using assms native_token_priced_spend_version [of "us_GetCurrentForProvider P" usage w]
  by (auto simp: priced_call_def native_provider_spend_def split: if_splits prod.splits)

lemma uncached_tokens_split:
  "0 \<le> sint (uncached_tokens usage)"
  "usage_valid usage \<Longrightarrow> sint (uncached_tokens usage) + sint (tel_CachedTokens usage) = sint (tel_InputTokens usage)"
  by (auto simp: uncached_tokens_def usage_valid_def uncached_sub Let_def)

lemma max_native_requests_pos: "1 \<le> sint (max_native_requests n)"
  by (simp add: max_native_requests_def)

lemma accounts_forI:
  assumes "priced_call P usage w = ((version, usd, rate, cost, failed), w')"
    and "ua_InputTokens rec = uncached_tokens usage" "ua_CachedInputTokens rec = tel_CachedTokens usage"
    and "ua_OutputTokens rec = tel_OutputTokens usage" "ua_ModelRequests rec = max_native_requests (tel_ModelRequests usage)"
    and "ua_FinalAIReplies rec = 0" "ua_ProviderCostYER rec = cost" "ua_PricingVersion rec = version"
    and "ua_Status rec = (if failed then ''pricing_failed'' else ''success'')"
    and "ua_GatewayCostUSD rec = usd" "ua_GatewayFXRateYER rec = rate"
  shows "accounts_for rec usage"
  using priced_call_cases [OF assms(1)] uncached_tokens_split [of usage] max_native_requests_pos assms(2-)
  unfolding accounts_for_def by (cases failed) simp_all

text \<open>
  Both recorders write at most one record for a call, for the calling business and an active
  subscription of it, and the record accounts for the call. The merchant's recorder reports success only
  when the record was appended; the recorder of catalog batches never fails and leaves the record out only
  when no repository is wired or no active subscription is found.
\<close>

theorem usage_recorders_account:
  assumes "us_AppendRecord P = Some appendRecord"
  shows "(case record_merchant_usage P businessID sessionID usage w of
            (Inl _, _) \<Rightarrow> True
          | (Inr _, w') \<Rightarrow> \<exists>rec w1. appendRecord rec w1 = (Inr (), w') \<and> accounts_for rec usage \<and>
                             ua_BusinessID rec = businessID) \<and>
         (\<exists>rec w1. let (subscription, w0) = active_subscription P businessID w in
            record_batch_usage P businessID runID usage phase w =
              (if subscription = '''' then w0 else snd (appendRecord rec w1)) \<and>
            accounts_for rec usage \<and> ua_BusinessID rec = businessID \<and> ua_SubscriptionID rec = subscription \<and>
            ua_CorrelationID rec = Some (runID @ ''|'' @ phase))"
proof
  show "case record_merchant_usage P businessID sessionID usage w of
            (Inl _, _) \<Rightarrow> True
          | (Inr _, w') \<Rightarrow> \<exists>rec w1. appendRecord rec w1 = (Inr (), w') \<and> accounts_for rec usage \<and>
                             ua_BusinessID rec = businessID"
    using assms
    by (auto simp: record_merchant_usage_def split: option.splits prod.splits sum.splits list.splits if_splits
        intro!: exI conjI accounts_forI)
next
  obtain subscription w0 where sub: "active_subscription P businessID w = (subscription, w0)" by force
  obtain version usd rate cost failed w2 where price: "priced_call P usage w0 = ((version, usd, rate, cost, failed), w2)"
    by (metis prod.exhaust)
  obtain recordID w3 where id: "us_NewID P w2 = (recordID, w3)" by force
  obtain now w4 where now: "us_Now P w3 = (now, w4)" by force
  let ?rec = "batch_usage_record businessID subscription runID phase usage (version, usd, rate, cost, failed) recordID now"
  have "accounts_for ?rec usage" by (rule accounts_forI [OF price]) (simp_all add: batch_usage_record_def)
  with sub price id now assms show "\<exists>rec w1. let (subscription, w0) = active_subscription P businessID w in
            record_batch_usage P businessID runID usage phase w =
              (if subscription = '''' then w0 else snd (appendRecord rec w1)) \<and>
            accounts_for rec usage \<and> ua_BusinessID rec = businessID \<and> ua_SubscriptionID rec = subscription \<and>
            ua_CorrelationID rec = Some (runID @ ''|'' @ phase)"
    by (intro exI [of _ ?rec] exI [of _ w4]) (auto simp: record_batch_usage_def batch_usage_record_def)
qed

definition sample_usage_ports :: "usage_append list usage_ports" where
  "sample_usage_ports =
     \<lparr>us_AppendRecord = Some (\<lambda>rec log. (Inr (), log @ [rec])),
      us_ListSubscriptions = Some (\<lambda>business status limit log. (Inr (if business = ''b1'' then [''s1''] else []), log)),
      us_GetCurrentForProvider = Some sample_pricing, us_FXRateYER = '''',
      us_Now = (\<lambda>log. (50, log)), us_NewID = (\<lambda>log. (''n1'', log))\<rparr>"

theorem usage_recorders_account_witness:
  "fst (record_merchant_usage sample_usage_ports ''b1'' ''se1'' sample_usage []) = Inr () \<and>
   (\<exists>rec w1. w1 @ [rec] = snd (record_merchant_usage sample_usage_ports ''b1'' ''se1'' sample_usage []) \<and>
      accounts_for rec sample_usage)"
proof -
  have wired: "us_AppendRecord sample_usage_ports = Some (\<lambda>rec log. (Inr (), log @ [rec]))"
    by (simp add: sample_usage_ports_def)
  have ok: "fst (record_merchant_usage sample_usage_ports ''b1'' ''se1'' sample_usage []) = Inr ()" by code_simp
  obtain w' where run: "record_merchant_usage sample_usage_ports ''b1'' ''se1'' sample_usage [] = (Inr (), w')"
    using ok by (metis prod.collapse)
  from usage_recorders_account [OF wired, where businessID = "''b1''" and sessionID = "''se1''"
      and usage = sample_usage and w = "[]" and runID = "''r1''" and phase = "''batch_1''"]
  show ?thesis unfolding run by auto
qed

end
