(* ===== verification/Observed_Runs.thy ===== *)
theory Observed_Runs
  imports Go_Prelude
begin

text \<open>
  Services call collaborators that act on the outside world. A run of such a service is a computation on
  a world \<^typ>\<open>'w\<close>, given by the behaviour of the collaborators, together with the list of what the
  service asked of them and learned from them, in order: the observations \<^typ>\<open>'o\<close>. The code never reads
  the list; theorems speak about it.
\<close>

section \<open>Calls with and without an observation\<close>

type_synonym ('w, 'o) observed = "'w \<times> 'o list"

definition quietly :: "('w, 'a) run \<Rightarrow> (('w, 'o) observed, 'a) run" where
  "quietly m = (\<lambda>(w, tr). case m w of (r, w') \<Rightarrow> (r, (w', tr)))"

definition note_that :: "'o \<Rightarrow> (('w, 'o) observed, unit) run" where
  "note_that ev = (\<lambda>(w, tr). (Inr (), (w, tr @ [ev])))"

definition noting :: "('a \<Rightarrow> 'o) \<Rightarrow> ('w, 'a) run \<Rightarrow> (('w, 'o) observed, 'a) run" where
  "noting ev m = run_bind (quietly m) (\<lambda>x. run_bind (note_that (ev x)) (\<lambda>_. run_return x))"

section \<open>What a successful run observed\<close>

lemma quietly_Inr: "quietly m s = (Inr x, s') \<longleftrightarrow> m (fst s) = (Inr x, fst s') \<and> snd s' = snd s"
  by (cases s; cases s') (auto simp: quietly_def split: prod.splits)

lemma note_that_eq: "note_that ev s = (r, s') \<longleftrightarrow> r = Inr () \<and> s' = (fst s, snd s @ [ev])"
  by (cases s) (auto simp: note_that_def)

lemma noting_Inr:
  "noting ev m s = (Inr x, s') \<longleftrightarrow> m (fst s) = (Inr x, fst s') \<and> snd s' = snd s @ [ev x]"
  by (cases s') (auto simp: noting_def run_rules quietly_Inr note_that_eq)

lemmas observed_rules = run_rules quietly_Inr note_that_eq noting_Inr

lemma snd_quietly: "quietly m s = (r, s') \<Longrightarrow> snd s' = snd s"
  by (cases s) (auto simp: quietly_def split: prod.splits)

lemma noting_Inl: "noting ev m s = (Inl e, s') \<Longrightarrow> snd s' = snd s"
  by (cases "quietly m s") (auto simp: noting_def run_bind_def note_that_def run_return_def
      dest: snd_quietly split: sum.splits prod.splits)

section \<open>What any run may observe\<close>

text \<open>A run that, whatever its outcome, only adds observations of a kind.\<close>

definition adds :: "'o set \<Rightarrow> (('w, 'o) observed, 'a) run \<Rightarrow> bool" where
  "adds K m \<longleftrightarrow> (\<forall>s. \<exists>tr. snd (snd (m s)) = snd s @ tr \<and> set tr \<subseteq> K)"

lemma adds_bind: "adds K m \<Longrightarrow> (\<And>x. adds K (f x)) \<Longrightarrow> adds K (run_bind m f)"
  unfolding adds_def run_bind_def
  by (auto split: prod.splits sum.splits) (metis Un_subset_iff append.assoc set_append snd_conv)+

lemma adds_quietly: "adds K (quietly m)"
  unfolding adds_def by (metis append_Nil2 empty_set empty_subsetI prod.exhaust snd_conv snd_quietly)

lemma adds_return: "adds K (run_return x)"
  by (simp add: adds_def run_return_def)

lemma adds_fail: "adds K (run_fail e)"
  by (simp add: adds_def run_fail_def)

lemma adds_note: "ev \<in> K \<Longrightarrow> adds K (note_that ev)"
  by (auto simp: adds_def note_that_def split: prod.splits)

lemma adds_wrap: "adds K m \<Longrightarrow> adds K (run_wrap text m)"
  by (auto simp: adds_def run_wrap_def split: prod.splits) (metis snd_conv)

lemma adds_ignore: "adds K m \<Longrightarrow> adds K (run_ignore m)"
  by (simp add: adds_def run_ignore_def)

lemma adds_case_sum: "(\<And>e. adds K (f e)) \<Longrightarrow> (\<And>x. adds K (g x)) \<Longrightarrow> adds K (case r of Inl e \<Rightarrow> f e | Inr x \<Rightarrow> g x)"
  by (cases r) simp_all

lemma adds_case_prod: "(\<And>a b. adds K (f a b)) \<Longrightarrow> adds K (case p of (a, b) \<Rightarrow> f a b)"
  by (cases p) simp

lemma adds_then: "(\<And>r. adds K (f r)) \<Longrightarrow> adds K (\<lambda>s. case quietly m s of (r, s1) \<Rightarrow> f r s1)"
  unfolding adds_def by (metis (no_types, lifting) case_prod_unfold prod.collapse snd_quietly)

lemmas adds_rules = adds_bind adds_quietly adds_return adds_fail adds_note adds_wrap adds_ignore
  adds_case_sum adds_case_prod adds_then

section \<open>Which errors a run may return\<close>

definition on_error :: "(go_error \<Rightarrow> go_error) \<Rightarrow> ('s, 'a) run \<Rightarrow> ('s, 'a) run" where
  "on_error f m s = (case m s of (Inl e, s') \<Rightarrow> (Inl (f e), s') | (Inr x, s') \<Rightarrow> (Inr x, s'))"

lemma on_error_Inr: "on_error f m s = (Inr x, s') \<longleftrightarrow> m s = (Inr x, s')"
  by (auto simp: on_error_def split: prod.splits sum.splits)

lemma snd_on_error [simp]: "snd (on_error f m s) = snd (m s)"
  by (simp add: on_error_def split: prod.splits sum.splits)

lemma run_bind_on_error:
  "m s = (a, s1) \<Longrightarrow> run_bind (on_error f m) g s = (case a of Inl e \<Rightarrow> (Inl (f e), s1) | Inr x \<Rightarrow> g x s1)"
  by (cases a) (simp_all add: run_bind_def on_error_def)

definition fails_in :: "go_error set \<Rightarrow> ('s, 'a) run \<Rightarrow> bool" where
  "fails_in E m \<longleftrightarrow> (\<forall>s e s'. m s = (Inl e, s') \<longrightarrow> e \<in> E)"

text \<open>A call without an error result.\<close>

definition total_call :: "('w \<Rightarrow> 'a \<times> 'w) \<Rightarrow> ('w, 'a) run" where
  "total_call m w = (case m w of (x, w') \<Rightarrow> (Inr x, w'))"

lemma fails_bind: "fails_in E m \<Longrightarrow> (\<And>x. fails_in E (f x)) \<Longrightarrow> fails_in E (run_bind m f)"
  unfolding fails_in_def run_bind_def by (auto split: prod.splits sum.splits)

lemma fails_return: "fails_in E (run_return x)"
  by (simp add: fails_in_def run_return_def)

lemma fails_fail: "e \<in> E \<Longrightarrow> fails_in E (run_fail e)"
  by (simp add: fails_in_def run_fail_def)

lemma fails_note: "fails_in E (note_that ev)"
  by (simp add: fails_in_def note_that_eq)

lemma fails_ignore: "fails_in E (run_ignore m)"
  by (simp add: fails_in_def run_ignore_def)

lemma fails_on_error: "(\<And>e. f e \<in> E) \<Longrightarrow> fails_in E (on_error f m)"
  by (auto simp: fails_in_def on_error_def split: prod.splits sum.splits)

lemma fails_total_call: "fails_in E (quietly (total_call m))"
  by (auto simp: fails_in_def quietly_def total_call_def split: prod.splits)

lemma fails_noting_total: "fails_in E (noting ev (total_call m))"
  unfolding noting_def by (intro fails_bind fails_total_call fails_note fails_return)

lemma fails_if: "(b \<Longrightarrow> fails_in E m) \<Longrightarrow> (\<not> b \<Longrightarrow> fails_in E m') \<Longrightarrow> fails_in E (if b then m else m')"
  by simp

text \<open>Which results a run may return.\<close>

definition returns_in :: "'a set \<Rightarrow> ('s, 'a) run \<Rightarrow> bool" where
  "returns_in R m \<longleftrightarrow> (\<forall>s x s'. m s = (Inr x, s') \<longrightarrow> x \<in> R)"

lemma returns_bind: "(\<And>x. returns_in R (f x)) \<Longrightarrow> returns_in R (run_bind m f)"
  unfolding returns_in_def run_bind_def by (auto split: prod.splits sum.splits)

lemma returns_return: "x \<in> R \<Longrightarrow> returns_in R (run_return x)"
  by (simp add: returns_in_def run_return_def)

lemma returns_fail: "returns_in R (run_fail e)"
  by (simp add: returns_in_def run_fail_def)

lemma returns_if: "(b \<Longrightarrow> returns_in R m) \<Longrightarrow> (\<not> b \<Longrightarrow> returns_in R m') \<Longrightarrow> returns_in R (if b then m else m')"
  by simp

lemma returns_feed: "returns_in R' m \<Longrightarrow> (\<And>x. x \<in> R' \<Longrightarrow> returns_in R (f x)) \<Longrightarrow> returns_in R (run_bind m f)"
  unfolding returns_in_def run_bind_def by (auto split: prod.splits sum.splits) blast

lemmas fails_rules = fails_bind fails_return fails_note fails_ignore fails_total_call fails_noting_total fails_if

section \<open>Observations that follow a law\<close>

text \<open>
  A law says which observation may follow which history. A run obeys it when it only extends the history,
  every observation it adds is allowed where it is added, and, like a Hoare triple, it takes histories that
  satisfy an assertion to histories that satisfy one about its result. The rules below are one per
  construct of a service, so that a service obeys a law by its structure.
\<close>

locale observation_law =
  fixes allowed :: "'o list \<Rightarrow> 'o \<Rightarrow> bool"
begin

definition lawful :: "'o list \<Rightarrow> bool" where
  "lawful tr \<longleftrightarrow> (\<forall>pre ev post. tr = pre @ ev # post \<longrightarrow> allowed pre ev)"

definition obeys :: "('o list \<Rightarrow> bool) \<Rightarrow> (('w, 'o) observed, 'a) run \<Rightarrow> ('a \<Rightarrow> 'o list \<Rightarrow> bool) \<Rightarrow> bool" where
  "obeys P m Q \<longleftrightarrow> (\<forall>s r s'. m s = (r, s') \<longrightarrow> P (snd s) \<longrightarrow> lawful (snd s) \<longrightarrow>
     lawful (snd s') \<and> (\<exists>ext. snd s' = snd s @ ext) \<and> (case r of Inl _ \<Rightarrow> True | Inr x \<Rightarrow> Q x (snd s')))"

lemma lawful_Nil [simp]: "lawful []"
  by (simp add: lawful_def)

lemma lawful_snoc [simp]: "lawful (tr @ [ev]) \<longleftrightarrow> lawful tr \<and> allowed tr ev"
proof
  assume all: "lawful (tr @ [ev])"
  have "allowed pre x" if "tr = pre @ x # post" for pre x post
    using all that unfolding lawful_def by simp
  with all show "lawful tr \<and> allowed tr ev" unfolding lawful_def by simp
next
  assume "lawful tr \<and> allowed tr ev"
  then show "lawful (tr @ [ev])"
    unfolding lawful_def
    by (metis (no_types, lifting) append_butlast_last_id append_is_Nil_conv butlast_append butlast.simps(2)
        butlast_snoc last_ConsL last_appendR list.distinct(1) last_snoc)
qed

lemma obeysD:
  "obeys P m Q \<Longrightarrow> m s = (r, s') \<Longrightarrow> P (snd s) \<Longrightarrow> lawful (snd s) \<Longrightarrow>
     lawful (snd s') \<and> (\<exists>ext. snd s' = snd s @ ext) \<and> (case r of Inl _ \<Rightarrow> True | Inr x \<Rightarrow> Q x (snd s'))"
  unfolding obeys_def by blast

lemma obeys_weaken:
  "obeys P m Q \<Longrightarrow> (\<And>tr. P' tr \<Longrightarrow> P tr) \<Longrightarrow> (\<And>x tr. Q x tr \<Longrightarrow> Q' x tr) \<Longrightarrow> obeys P' m Q'"
  unfolding obeys_def by (auto split: sum.splits)

lemma obeys_bind:
  assumes "obeys P m Q" and "\<And>x. obeys (Q x) (f x) R"
  shows "obeys P (run_bind m f) R"
  unfolding obeys_def
proof (intro allI impI)
  fix s r s' assume run: "run_bind m f s = (r, s')" and pre: "P (snd s)" "lawful (snd s)"
  obtain r1 s1 where m: "m s = (r1, s1)" by (metis surj_pair)
  with assms(1) pre have m': "lawful (snd s1)" "\<exists>ext. snd s1 = snd s @ ext" "case r1 of Inl _ \<Rightarrow> True | Inr x \<Rightarrow> Q x (snd s1)"
    using obeysD by blast+
  show "lawful (snd s') \<and> (\<exists>ext. snd s' = snd s @ ext) \<and> (case r of Inl _ \<Rightarrow> True | Inr x \<Rightarrow> R x (snd s'))"
  proof (cases r1)
    case (Inl e)
    with run m m' show ?thesis by (auto simp: run_bind_def)
  next
    case (Inr x)
    with run m have "f x s1 = (r, s')" by (simp add: run_bind_def)
    with obeysD [OF assms(2) this] m' Inr show ?thesis by auto
  qed
qed

lemma obeys_return: "(\<And>tr. P tr \<Longrightarrow> Q x tr) \<Longrightarrow> obeys P (run_return x) Q"
  by (simp add: obeys_def run_return_def)

lemma obeys_fail: "obeys P (run_fail e) Q"
  by (simp add: obeys_def run_fail_def)

lemma obeys_quietly: "(\<And>x tr. P tr \<Longrightarrow> Q x tr) \<Longrightarrow> obeys P (quietly m) Q"
  unfolding obeys_def by (auto dest: snd_quietly split: sum.splits)

lemma obeys_note: "(\<And>tr. P tr \<Longrightarrow> allowed tr ev \<and> Q () (tr @ [ev])) \<Longrightarrow> obeys P (note_that ev) Q"
  by (simp add: obeys_def note_that_eq)

lemma obeys_noting: "(\<And>x tr. P tr \<Longrightarrow> allowed tr (ev x) \<and> Q x (tr @ [ev x])) \<Longrightarrow> obeys P (noting ev m) Q"
  unfolding noting_def
  by (rule obeys_bind [where Q = "\<lambda>_. P"], rule obeys_quietly, assumption,
      rule obeys_bind [where Q = "\<lambda>_. Q _"], rule obeys_note, blast, rule obeys_return, assumption)

text \<open>The same for a step that leaves the assertion as it is.\<close>

lemma obeys_then: "obeys P m (\<lambda>_. P) \<Longrightarrow> (\<And>x. obeys P (f x) R) \<Longrightarrow> obeys P (run_bind m f) R"
  by (rule obeys_bind)

lemma obeys_quiet: "obeys P (quietly m) (\<lambda>_. P)"
  by (rule obeys_quietly)

lemma obeys_done: "obeys P (run_return x) (\<lambda>_. P)"
  by (rule obeys_return)

text \<open>What no extension of the history can undo stays true along a run.\<close>

lemma obeys_frame:
  assumes "\<And>tr ext. F tr \<Longrightarrow> F (tr @ ext)" and "obeys P m Q"
  shows "obeys (\<lambda>tr. P tr \<and> F tr) m (\<lambda>x tr. Q x tr \<and> F tr)"
  using assms unfolding obeys_def by (fastforce split: sum.splits)

lemma obeys_on_error: "obeys P m Q \<Longrightarrow> obeys P (on_error f m) Q"
  unfolding obeys_def on_error_def by (auto split: prod.splits sum.splits)

lemma obeys_ignore:
  assumes "obeys P m (\<lambda>_ _. True)" and "\<And>tr ext. P tr \<Longrightarrow> P (tr @ ext)"
  shows "obeys P (run_ignore m) (\<lambda>_. P)"
  using assms unfolding obeys_def run_ignore_eq by (metis prod.collapse sum.case(2))

lemma obeys_if: "(b \<Longrightarrow> obeys P m Q) \<Longrightarrow> (\<not> b \<Longrightarrow> obeys P m' Q) \<Longrightarrow> obeys P (if b then m else m') Q"
  by simp

lemma obeys_lawful: "obeys P m Q \<Longrightarrow> P [] \<Longrightarrow> lawful (snd (snd (m (w, []))))"
  unfolding obeys_def by (metis lawful_Nil prod.collapse snd_conv)

end

end
