(* ===== verification/Catalog_Evaluation.thy ===== *)
theory Catalog_Evaluation
  imports Catalog_Batching AI_Usage Observed_Runs
begin

text \<open>
  The evaluation of a whole catalog: \<^verbatim>\<open>RunCatalogEvaluation\<close> and what it calls in
  \<^verbatim>\<open>services/catalog_batch_controller.go\<close>, with the registry of capabilities of
  \<^verbatim>\<open>ports/customer_sales_capabilities.go\<close>. The controller's collaborators act on a world \<^typ>\<open>'w\<close>; beside
  it a run keeps the list of what it learned from them, in order, for the theorems to speak about. Error
  texts keep the constant part of the source's message; log lines and catalog dumps are left out.
\<close>

section \<open>Capabilities\<close>

record capability_definition =
  cp_Executor :: string
  cp_RequiresSalesRuntime :: bool
  cp_Terminal :: bool
  cp_SendsCustomerMessage :: bool
  cp_RequiresHuman :: bool
  cp_ConversationState :: string
  cp_ConversationOwnership :: string
  cp_RequiresFullCatalogRuntime :: bool

definition no_capability :: capability_definition where
  "no_capability = \<lparr>cp_Executor = '''', cp_RequiresSalesRuntime = False, cp_Terminal = False,
     cp_SendsCustomerMessage = False, cp_RequiresHuman = False, cp_ConversationState = '''',
     cp_ConversationOwnership = '''', cp_RequiresFullCatalogRuntime = False\<rparr>"

definition capability_registry :: "(string \<times> capability_definition) list" where
  "capability_registry =
     [(''respond_without_action'', no_capability\<lparr>cp_Terminal := True, cp_SendsCustomerMessage := True,
         cp_ConversationState := ''waiting_customer'', cp_ConversationOwnership := ''ai''\<rparr>),
      (''ask_customer'', no_capability\<lparr>cp_Terminal := True, cp_SendsCustomerMessage := True,
         cp_ConversationState := ''waiting_customer'', cp_ConversationOwnership := ''ai''\<rparr>),
      (''handoff_to_human'', no_capability\<lparr>cp_Terminal := True, cp_SendsCustomerMessage := True,
         cp_RequiresHuman := True, cp_ConversationState := ''waiting_human''\<rparr>),
      (''evaluate_full_catalog'', no_capability\<lparr>cp_RequiresFullCatalogRuntime := True\<rparr>),
      (''record_lead'', no_capability\<lparr>cp_Terminal := True, cp_Executor := ''sales'', cp_RequiresSalesRuntime := True\<rparr>),
      (''create_transaction_draft'', no_capability\<lparr>cp_Terminal := True, cp_Executor := ''sales'', cp_RequiresSalesRuntime := True\<rparr>),
      (''update_transaction_draft'', no_capability\<lparr>cp_Terminal := True, cp_Executor := ''sales'', cp_RequiresSalesRuntime := True\<rparr>)]"

definition capability_definition_for :: "string \<Rightarrow> capability_definition option" where
  "capability_definition_for capability = map_of capability_registry capability"

definition customer_sales_capabilities :: "bool \<Rightarrow> bool list \<Rightarrow> string list" where
  "customer_sales_capabilities fullCatalogAvailable salesAvailable =
     map fst (filter (\<lambda>(_, d).
       cp_Terminal d \<and> (\<not> cp_RequiresSalesRuntime d \<or> (salesAvailable \<noteq> [] \<and> hd salesAvailable)) \<or>
       cp_RequiresFullCatalogRuntime d \<and> fullCatalogAvailable) capability_registry)"

definition is_terminal_capability :: "string \<Rightarrow> bool" where
  "is_terminal_capability capability =
     (case capability_definition_for capability of None \<Rightarrow> False | Some d \<Rightarrow> cp_Terminal d)"

section \<open>Data\<close>

record batch_record =
  br_ID :: string
  br_AIRunID :: string
  br_BatchNumber :: int
  br_Status :: string
  br_ItemsCount :: int
  br_SchemasCount :: int
  br_InputTokens :: int
  br_CandidateCount :: int
  br_FailureReason :: string
  br_StartedAt :: "time option"
  br_CompletedAt :: "time option"
  br_CreatedAt :: time
  br_UpdatedAt :: time

record batch_patch =
  bp_Status :: string
  bp_CandidateCount :: "int option"
  bp_InputTokens :: "int option"
  bp_FailureReason :: "string option"
  bp_StartedAt :: "time option"
  bp_CompletedAt :: "time option"

record batch_result =
  bz_BatchNumber :: int
  bz_Candidates :: "batch_candidate list"
  bz_Usage :: usage_telemetry
  bz_LatencyMs :: int

record selected_reference =
  sl_ItemID :: string
  sl_VariantID :: "string option"
  sl_OfferID :: "string option"

text \<open>The sales proposal inside a decision is only passed on.\<close>

record 'sp capability_decision =
  dc_Capability :: string
  dc_ResponseText :: string
  dc_Selected :: "selected_reference list"
  dc_Sales :: "'sp option"

record ('cx, 'ec) final_input =
  fi_SourceMessageReference :: string
  fi_AIRunID :: string
  fi_AttemptID :: string
  fi_BusinessID :: string
  fi_ConversationID :: string
  fi_CustomerMessage :: string
  fi_ConversationContext :: 'cx
  fi_EntityContract :: 'ec
  fi_CandidateResults :: "batch_candidate list"

record projection_request =
  pq_BusinessID :: string
  pq_CatalogID :: string
  pq_Limit :: int
  pq_Cursor :: string

record 'sp evaluation_result =
  er_Decision :: "'sp capability_decision"
  er_Evidence :: "(string \<times> evidence_item) list"

text \<open>
  The controller. \<open>cc_Wired\<close> says that none of the collaborators \<^verbatim>\<open>Ready\<close> compares with \<^verbatim>\<open>nil\<close> is missing; an
  estimator the evaluator does not implement is \<open>None\<close>. \<open>cc_SchemaOrder\<close> is the order in which Go iterates
  over a map of schemas, \<open>cc_ErrorText\<close> is \<^verbatim>\<open>Error()\<close>, and the three \<^verbatim>\<open>JSON\<close> fields are the renderings
  that enter the prompt.
\<close>

record ('w, 'cx, 'ec, 'sp) controller =
  cc_Wired :: bool
  cc_GetRevision :: "string \<Rightarrow> ('w, string) run"
  cc_ListProjectionPage :: "projection_request \<Rightarrow> ('w, projection_page) run"
  cc_CreateCatalogBatch :: "batch_record \<Rightarrow> ('w, batch_record) run"
  cc_UpdateCatalogBatch :: "string \<Rightarrow> batch_patch \<Rightarrow> ('w, batch_record) run"
  cc_EvaluateBatch :: "('cx, 'ec) batch_input \<Rightarrow> ('w, batch_result) run"
  cc_FinalEvaluate :: "('cx, 'ec) final_input \<Rightarrow> string \<Rightarrow> ('w, 'sp capability_decision \<times> usage_telemetry) run"
  cc_CountBatchTokens :: "(('cx, 'ec) batch_input \<Rightarrow> int result) option"
  cc_CountFinalTokens :: "(('cx, 'ec) final_input \<Rightarrow> string \<Rightarrow> int result) option"
  cc_TokenBudget :: int
  cc_Usage :: "'w usage_ports"
  cc_ContextError :: "'w \<Rightarrow> go_error option"
  cc_SchemaOrder :: "ai_schema list \<Rightarrow> ai_schema list"
  cc_ErrorText :: "go_error \<Rightarrow> string"
  cc_ContextJSON :: "'cx \<Rightarrow> string"
  cc_CandidatesJSON :: "batch_candidate list \<Rightarrow> string"
  cc_ProjectionJSON :: "projection \<Rightarrow> string"

datatype observation =
    Revision string
  | Page projection_request projection_page
  | Evaluated bool batch_payload "batch_candidate list"
  | Oversize int
  | Decided "batch_candidate list" projection

section \<open>Batch records\<close>

definition create_batch_record ::
  "('w, 'cx, 'ec, 'sp) controller \<Rightarrow> string \<Rightarrow> batch_payload \<Rightarrow> ('w, batch_record) run" where
  "create_batch_record C runID batch w =
     (case us_Now (cc_Usage C) w of (now, w1) \<Rightarrow>
      case us_NewID (cc_Usage C) w1 of (i, w2) \<Rightarrow>
        cc_CreateCatalogBatch C
          \<lparr>br_ID = i, br_AIRunID = runID, br_BatchNumber = ba_BatchNumber batch, br_Status = ''pending'',
           br_ItemsCount = int (length (ba_Items batch)),
           br_SchemasCount = int (length (ba_AttributeSchemas batch)),
           br_InputTokens = 0, br_CandidateCount = 0, br_FailureReason = '''',
           br_StartedAt = None, br_CompletedAt = None, br_CreatedAt = now, br_UpdatedAt = now\<rparr> w2)"

definition mark_batch_running :: "('w, 'cx, 'ec, 'sp) controller \<Rightarrow> string \<Rightarrow> ('w, unit) run" where
  "mark_batch_running C batchID w =
     (case us_Now (cc_Usage C) w of (now, w1) \<Rightarrow>
        run_bind (cc_UpdateCatalogBatch C batchID
          \<lparr>bp_Status = ''running'', bp_CandidateCount = None, bp_InputTokens = None, bp_FailureReason = None,
           bp_StartedAt = Some now, bp_CompletedAt = None\<rparr>) (\<lambda>_. run_return ()) w1)"

definition mark_batch_completed :: "('w, 'cx, 'ec, 'sp) controller \<Rightarrow> string \<Rightarrow> int \<Rightarrow> ('w, unit) run" where
  "mark_batch_completed C batchID candidateCount w =
     (case us_Now (cc_Usage C) w of (now, w1) \<Rightarrow>
        run_bind (cc_UpdateCatalogBatch C batchID
          \<lparr>bp_Status = ''completed'', bp_CandidateCount = Some candidateCount, bp_InputTokens = None,
           bp_FailureReason = None, bp_StartedAt = None, bp_CompletedAt = Some now\<rparr>) (\<lambda>_. run_return ()) w1)"

definition mark_batch_failed :: "('w, 'cx, 'ec, 'sp) controller \<Rightarrow> string \<Rightarrow> string \<Rightarrow> ('w, unit) run" where
  "mark_batch_failed C batchID reason w =
     (case us_Now (cc_Usage C) w of (now, w1) \<Rightarrow>
        run_bind (cc_UpdateCatalogBatch C batchID
          \<lparr>bp_Status = ''failed'', bp_CandidateCount = None, bp_InputTokens = None,
           bp_FailureReason = Some reason, bp_StartedAt = None, bp_CompletedAt = Some now\<rparr>) (\<lambda>_. run_return ()) w1)"

definition coverage_complete :: "batch_record list \<Rightarrow> bool" where
  "coverage_complete records \<longleftrightarrow> (\<forall>r \<in> set records. br_Status r = ''completed'')"

section \<open>One batch\<close>

definition ai_failure :: "string \<Rightarrow> go_error \<Rightarrow> go_error" where
  "ai_failure kind e = Wrapped kind e"

text \<open>
  What happens to one batch, in the loop over the pages and in a round of reduction: first the answer of
  the evaluator, then the whole turn. The two places differ in the flag of the request, the phase of the usage
  record and the error texts.
\<close>

definition settle_batch ::
  "('w, 'cx, 'ec, 'sp) controller \<Rightarrow> ('cx, 'ec) evaluation_input \<Rightarrow> bool \<Rightarrow> batch_payload \<Rightarrow> batch_record \<Rightarrow>
   batch_result result \<Rightarrow> (('w, observation) observed, batch_record \<times> batch_candidate list) run" where
  "settle_batch C input reduction batch rec answer =
     (case answer of
        Inl e \<Rightarrow>
          run_bind (run_ignore (quietly (mark_batch_failed C (br_ID rec) (cc_ErrorText C e)))) (\<lambda>_.
            run_fail (Wrapped (if reduction then ''candidate reduction batch'' else ''batch evaluation'') e))
      | Inr result \<Rightarrow>
          run_bind (note_that (Evaluated reduction batch (bz_Candidates result))) (\<lambda>_.
          run_bind (quietly (\<lambda>w. (Inr (), record_batch_usage (cc_Usage C) (ei_BusinessID input) (ei_AIRunID input) (bz_Usage result)
                       ((if reduction then ''candidate_reduction_batch_'' else ''batch_'') @ decimal (ba_BatchNumber batch)) w))) (\<lambda>_.
            case validate_batch_candidates batch (bz_Candidates result) of
              Inl e \<Rightarrow>
                run_bind (run_ignore (quietly (mark_batch_failed C (br_ID rec) (cc_ErrorText C e)))) (\<lambda>_.
                  run_fail (if reduction then Wrapped ''candidate reduction batch returned invalid evidence'' e
                            else ai_failure ''invalid_ai_output'' (Wrapped ''batch returned invalid candidate evidence'' e)))
            | Inr _ \<Rightarrow>
                run_bind (quietly (mark_batch_completed C (br_ID rec) (int (length (bz_Candidates result))))) (\<lambda>_.
                  run_return (rec, bz_Candidates result)))))"

definition evaluate_batch ::
  "('w, 'cx, 'ec, 'sp) controller \<Rightarrow> ('cx, 'ec) evaluation_input \<Rightarrow> bool \<Rightarrow> batch_payload \<Rightarrow>
   (('w, observation) observed, batch_record \<times> batch_candidate list) run" where
  "evaluate_batch C input reduction batch =
     run_bind (run_wrap (if reduction then ''create reduction batch'' else ''create batch record'')
                 (quietly (create_batch_record C (ei_AIRunID input) batch))) (\<lambda>rec.
     run_bind (quietly (mark_batch_running C (br_ID rec))) (\<lambda>_ s.
       case quietly (cc_EvaluateBatch C (mk_batch_input input reduction batch)) s of
         (answer, s1) \<Rightarrow> settle_batch C input reduction batch rec answer s1))"

section \<open>The pages\<close>

record loop_state =
  ls_NextBatchNumber :: int
  ls_BatchRecords :: "batch_record list"
  ls_CandidateSet :: "batch_candidate list"
  ls_CandidateProjection :: projection
  ls_CandidateItemsSeen :: "string list"

text \<open>The loop over the batches of a page; a record is appended as pending and set to completed at the end of its turn.\<close>

fun evaluate_batches ::
  "('w, 'cx, 'ec, 'sp) controller \<Rightarrow> ('cx, 'ec) evaluation_input \<Rightarrow> batch_payload list \<Rightarrow>
   batch_record list \<times> batch_candidate list \<times> batch_candidate list \<Rightarrow>
   (('w, observation) observed, batch_record list \<times> batch_candidate list \<times> batch_candidate list) run" where
  "evaluate_batches C input [] acc = run_return acc"
| "evaluate_batches C input (batch # batches) (records, candidateSet, pageCandidates) =
     run_bind (evaluate_batch C input False batch) (\<lambda>(rec, cs).
       let recordIndex = length records;
           records' = (records @ [rec])[recordIndex := rec\<lparr>br_Status := ''completed''\<rparr>]
       in evaluate_batches C input batches (records', candidateSet @ cs, pageCandidates @ cs))"

definition page_projection :: "projection_page \<Rightarrow> projection" where
  "page_projection page = append_catalog_records (projection_from_bundles (pp_Items page)) (pp_Catalogs page)"

definition payload_of :: "projection \<Rightarrow> batch_payload" where
  "payload_of p = \<lparr>ba_BatchNumber = 0, ba_Catalogs = pr_Catalogs p, ba_AttributeSchemas = pr_AttributeSchemas p,
     ba_Items = pr_Items p\<rparr>"

definition keep_candidates ::
  "projection \<Rightarrow> batch_candidate list \<Rightarrow> projection \<times> string list \<Rightarrow> projection \<times> string list" where
  "keep_candidates pageProjection pageCandidates = (\<lambda>(target, seen).
     if pageCandidates \<noteq> []
     then append_candidate_projection target (payload_of pageProjection) (normalize_batch_candidates pageCandidates) seen
     else (target, seen))"

definition evaluate_page ::
  "('w, 'cx, 'ec, 'sp) controller \<Rightarrow> ('cx, 'ec) evaluation_input \<Rightarrow> projection_page \<Rightarrow> loop_state \<Rightarrow>
   (('w, observation) observed, loop_state) run" where
  "evaluate_page C input page st =
     (if pp_Items page = [] then run_return st
      else case split_into_batches_mode (cc_SchemaOrder C) (cc_CountBatchTokens C) (cc_TokenBudget C)
                  (page_projection page) input (ls_NextBatchNumber st) False of
        Inl e \<Rightarrow> run_fail (Wrapped ''split catalog page into budgeted batches'' e)
      | Inr batches \<Rightarrow>
          run_bind (evaluate_batches C input batches (ls_BatchRecords st, ls_CandidateSet st, []))
            (\<lambda>(records, candidateSet, pageCandidates).
              let (target, seen) = keep_candidates (page_projection page) pageCandidates
                                     (ls_CandidateProjection st, ls_CandidateItemsSeen st)
              in run_return \<lparr>ls_NextBatchNumber = ls_NextBatchNumber st + int (length batches),
                   ls_BatchRecords = records, ls_CandidateSet = candidateSet,
                   ls_CandidateProjection = target, ls_CandidateItemsSeen = seen\<rparr>))"

definition page_request :: "('cx, 'ec) evaluation_input \<Rightarrow> string \<Rightarrow> projection_request" where
  "page_request input cursor =
     \<lparr>pq_BusinessID = ei_BusinessID input, pq_CatalogID = ei_CatalogScope input, pq_Limit = 200, pq_Cursor = cursor\<rparr>"

definition list_page ::
  "('w, 'cx, 'ec, 'sp) controller \<Rightarrow> ('cx, 'ec) evaluation_input \<Rightarrow> string \<Rightarrow> (('w, observation) observed, projection_page) run" where
  "list_page C input cursor =
     run_wrap ''list catalog projection page''
       (noting (Page (page_request input cursor)) (cc_ListProjectionPage C (page_request input cursor)))"

text \<open>The loop ends only as far as the repository's pages end: not returning is \<open>None\<close>.\<close>

partial_function (option) paged_loop ::
  "('w, 'cx, 'ec, 'sp) controller \<Rightarrow> ('cx, 'ec) evaluation_input \<Rightarrow> string \<Rightarrow> loop_state \<Rightarrow> ('w, observation) observed \<Rightarrow>
   (loop_state result \<times> ('w, observation) observed) option" where
  "paged_loop C input cursor st s =
     (case list_page C input cursor s of
        (Inl e, s1) \<Rightarrow> Some (Inl e, s1)
      | (Inr page, s1) \<Rightarrow>
          (case evaluate_page C input page st s1 of
             (Inl e, s2) \<Rightarrow> Some (Inl e, s2)
           | (Inr st', s2) \<Rightarrow>
               if \<not> pp_HasMore page then Some (Inr st', s2)
               else if blank (pp_NextCursor page) \<or> pp_NextCursor page = cursor
               then Some (Inl (PlainError ''catalog projection cursor did not advance''), s2)
               else paged_loop C input (pp_NextCursor page) st' s2))"

declare paged_loop.simps [code]

section \<open>The final evaluation\<close>

definition build_final_evaluation_payload ::
  "('w, 'cx, 'ec, 'sp) controller \<Rightarrow> ('cx, 'ec) evaluation_input \<Rightarrow> batch_candidate list \<Rightarrow> projection \<Rightarrow>
   ('cx, 'ec) final_input \<times> string" where
  "build_final_evaluation_payload C input candidates p =
     (\<lparr>fi_SourceMessageReference = ei_SourceMessageReference input, fi_AIRunID = ei_AIRunID input,
       fi_AttemptID = ei_AttemptID input, fi_BusinessID = ei_BusinessID input,
       fi_ConversationID = ei_ConversationID input, fi_CustomerMessage = ei_CustomerMessage input,
       fi_ConversationContext = ei_ConversationContext input, fi_EntityContract = ei_EntityContract input,
       fi_CandidateResults = candidates\<rparr>,
      ''Customer message: '' @ ei_CustomerMessage input @
      ''\<newline>\<newline>Verified conversation context:\<newline>'' @ cc_ContextJSON C (ei_ConversationContext input) @
      ''\<newline>\<newline>Aggregated candidates:\<newline>'' @ cc_CandidatesJSON C candidates @
      ''\<newline>\<newline>Candidate catalog projection:\<newline>'' @ cc_ProjectionJSON C p)"

fun reduce_batches ::
  "('w, 'cx, 'ec, 'sp) controller \<Rightarrow> ('cx, 'ec) evaluation_input \<Rightarrow> batch_payload list \<Rightarrow>
   batch_candidate list \<times> projection \<times> string list \<Rightarrow>
   (('w, observation) observed, batch_candidate list \<times> projection \<times> string list) run" where
  "reduce_batches C input [] acc = run_return acc"
| "reduce_batches C input (batch # batches) (reduced, p, seen) =
     run_bind (evaluate_batch C input True batch) (\<lambda>(rec, cs).
       let (p', seen') = append_candidate_projection p batch cs seen
       in reduce_batches C input batches (reduced @ cs, p', seen'))"

definition reduce_candidate_round ::
  "('w, 'cx, 'ec, 'sp) controller \<Rightarrow> ('cx, 'ec) evaluation_input \<Rightarrow> projection \<Rightarrow> int \<Rightarrow>
   (('w, observation) observed, batch_candidate list \<times> projection \<times> int) run" where
  "reduce_candidate_round C input p startBatchNumber =
     (case split_into_batches_mode (cc_SchemaOrder C) (cc_CountBatchTokens C) (cc_TokenBudget C) p input startBatchNumber True of
        Inl e \<Rightarrow> run_fail (Wrapped ''split candidate reduction batches'' e)
      | Inr batches \<Rightarrow>
          run_bind (reduce_batches C input batches ([], empty_projection, [])) (\<lambda>(reduced, p', _).
            run_return (normalize_batch_candidates reduced, p', startBatchNumber + int (length batches))))"

text \<open>The call of the final model on a request that fits.\<close>

definition decide ::
  "('w, 'cx, 'ec, 'sp) controller \<Rightarrow> ('cx, 'ec) evaluation_input \<Rightarrow> batch_candidate list \<Rightarrow> projection \<Rightarrow>
   (('w, observation) observed, 'sp capability_decision \<times> projection) run" where
  "decide C input candidates p =
     (case build_final_evaluation_payload C input candidates p of (finalInput, userPrompt) \<Rightarrow>
        run_bind (noting (\<lambda>_. Decided candidates p) (cc_FinalEvaluate C finalInput userPrompt)) (\<lambda>(proposal, usage).
          if \<not> is_terminal_capability (dc_Capability proposal)
          then run_fail (PlainError ''final catalog evaluation returned a non-terminal or unavailable capability after complete catalog coverage'')
          else run_bind (quietly (\<lambda>w. (Inr (), record_batch_usage (cc_Usage C) (ei_BusinessID input) (ei_AIRunID input) usage ''final_evaluation'' w)))
                 (\<lambda>_. run_return (proposal, p))))"

abbreviation max_reduction_rounds :: nat where
  "max_reduction_rounds \<equiv> 3"

text \<open>What the estimator says about the request: it fits (or there is no estimator), it is too large, or counting failed.\<close>

definition final_size ::
  "('w, 'cx, 'ec, 'sp) controller \<Rightarrow> ('cx, 'ec) evaluation_input \<Rightarrow> batch_candidate list \<Rightarrow> projection \<Rightarrow> (int option) result" where
  "final_size C input candidates p =
     (case cc_CountFinalTokens C of
        None \<Rightarrow> Inr None
      | Some countTokens \<Rightarrow>
          (case build_final_evaluation_payload C input candidates p of (finalInput, userPrompt) \<Rightarrow>
           case countTokens finalInput userPrompt of
             Inl e \<Rightarrow> Inl (Wrapped ''count final evaluation tokens'' e)
           | Inr tokens \<Rightarrow> Inr (if tokens > effective_budget (cc_TokenBudget C) then Some tokens else None)))"

function final_loop ::
  "('w, 'cx, 'ec, 'sp) controller \<Rightarrow> ('cx, 'ec) evaluation_input \<Rightarrow> batch_candidate list \<Rightarrow> projection \<Rightarrow> int \<Rightarrow>
   int \<Rightarrow> nat \<Rightarrow> (('w, observation) observed, 'sp capability_decision \<times> projection) run" where
  "final_loop C input candidates p nextBatchNumber lastOversizeTokens rounds s =
     (case cc_ContextError C (fst s) of
        Some e \<Rightarrow> (Inl e, s)
      | None \<Rightarrow>
          (case final_size C input candidates p of
             Inl e \<Rightarrow> (Inl e, s)
           | Inr None \<Rightarrow> decide C input candidates p s
           | Inr (Some tokens) \<Rightarrow>
               if pr_Items p = []
               then (Inl (PlainError ''final evaluation base context exceeds token budget''), s)
               else if lastOversizeTokens > 0 \<and> tokens \<ge> lastOversizeTokens
               then (Inl (ai_failure ''catalog_budget_exceeded'' (PlainError ''candidate reduction made no token progress'')), s)
               else if rounds \<ge> max_reduction_rounds
               then (Inl (ai_failure ''catalog_budget_exceeded'' (PlainError ''candidate reduction exceeded bounded rounds'')), s)
               else (case run_bind (note_that (Oversize tokens)) (\<lambda>_. reduce_candidate_round C input p nextBatchNumber) s of
                       (Inl e, s1) \<Rightarrow> (Inl e, s1)
                     | (Inr (reduced, p', nextNumber), s1) \<Rightarrow>
                         final_loop C input (normalize_batch_candidates reduced) p' nextNumber tokens (rounds + 1) s1)))"
  by pat_completeness auto
termination
  by (relation "measure (\<lambda>(C, input, candidates, p, n, last, rounds, s). max_reduction_rounds - rounds)") auto

declare final_loop.simps [simp del]

definition run_final_evaluation ::
  "('w, 'cx, 'ec, 'sp) controller \<Rightarrow> ('cx, 'ec) evaluation_input \<Rightarrow> batch_candidate list \<Rightarrow> projection \<Rightarrow> int \<Rightarrow>
   (('w, observation) observed, 'sp capability_decision \<times> projection) run" where
  "run_final_evaluation C input candidates p startBatchNumber =
     (let candidates' = normalize_batch_candidates candidates;
          (p', _) = append_candidate_projection empty_projection (payload_of p) candidates' []
      in final_loop C input candidates' p' (if startBatchNumber \<le> 0 then 1 else startBatchNumber) 0 0)"

section \<open>The whole run\<close>

definition get_revision ::
  "('w, 'cx, 'ec, 'sp) controller \<Rightarrow> ('cx, 'ec) evaluation_input \<Rightarrow> string \<Rightarrow> (('w, observation) observed, string) run" where
  "get_revision C input text = run_wrap text (noting Revision (cc_GetRevision C (ei_BusinessID input)))"

text \<open>What follows the loop over the pages.\<close>

definition conclude ::
  "('w, 'cx, 'ec, 'sp) controller \<Rightarrow> ('cx, 'ec) evaluation_input \<Rightarrow> string \<Rightarrow> loop_state \<Rightarrow>
   (('w, observation) observed, 'sp evaluation_result) run" where
  "conclude C input revisionStart st =
     (if \<not> coverage_complete (ls_BatchRecords st)
      then run_fail (PlainError ''coverage incomplete'')
      else run_bind (get_revision C input ''read catalog revision after evaluation'') (\<lambda>revisionEnd.
        if revisionEnd \<noteq> revisionStart
        then run_fail (PlainError ''catalog changed during full evaluation; refusing mixed-snapshot AI result'')
        else run_bind (run_final_evaluation C input (ls_CandidateSet st) (ls_CandidateProjection st) (ls_NextBatchNumber st))
          (\<lambda>(proposal, finalProjection).
            run_bind (get_revision C input ''read catalog revision after final evaluation'') (\<lambda>revisionAfterFinal.
              if revisionAfterFinal \<noteq> revisionStart
              then run_fail (PlainError ''catalog changed during final evaluation; refusing stale commercial AI result'')
              else run_return \<lparr>er_Decision = proposal, er_Evidence = evidence_from_projection finalProjection\<rparr>))))"

definition start_state :: loop_state where
  "start_state = \<lparr>ls_NextBatchNumber = 1, ls_BatchRecords = [], ls_CandidateSet = [],
     ls_CandidateProjection = empty_projection, ls_CandidateItemsSeen = []\<rparr>"

definition run_paged_catalog_evaluation ::
  "('w, 'cx, 'ec, 'sp) controller \<Rightarrow> ('cx, 'ec) evaluation_input \<Rightarrow> ('w, observation) observed \<Rightarrow>
   ('sp evaluation_result result \<times> ('w, observation) observed) option" where
  "run_paged_catalog_evaluation C input s =
     (case get_revision C input ''read catalog revision before evaluation'' s of
        (Inl e, s1) \<Rightarrow> Some (Inl e, s1)
      | (Inr revisionStart, s1) \<Rightarrow>
          (case paged_loop C input '''' start_state s1 of
             None \<Rightarrow> None
           | Some (Inl e, s2) \<Rightarrow> Some (Inl e, s2)
           | Some (Inr st, s2) \<Rightarrow> Some (conclude C input revisionStart st s2)))"

definition controller_ready :: "('w, 'cx, 'ec, 'sp) controller \<Rightarrow> bool" where
  "controller_ready C \<longleftrightarrow> cc_Wired C \<and> cc_CountBatchTokens C \<noteq> None"

definition run_catalog_evaluation ::
  "('w, 'cx, 'ec, 'sp) controller \<Rightarrow> ('cx, 'ec) evaluation_input \<Rightarrow> ('w, observation) observed \<Rightarrow>
   ('sp evaluation_result result \<times> ('w, observation) observed) option" where
  "run_catalog_evaluation C input s =
     (if \<not> controller_ready C
      then Some (Inl (PlainError ''CatalogBatchController is not fully wired with a token counter''), s)
      else if blank (ei_BusinessID input) \<or> blank (ei_AIRunID input)
      then Some (Inl (PlainError ''business_id and ai_run_id are required for Catalog Evaluation''), s)
      else run_paged_catalog_evaluation C input s)"

section \<open>Reading the observations\<close>

definition revisions :: "observation list \<Rightarrow> string list" where
  "revisions = List.map_filter (\<lambda>ev. case ev of Revision r \<Rightarrow> Some r | _ \<Rightarrow> None)"

definition pages :: "observation list \<Rightarrow> (projection_request \<times> projection_page) list" where
  "pages = List.map_filter (\<lambda>ev. case ev of Page q p \<Rightarrow> Some (q, p) | _ \<Rightarrow> None)"

definition evaluated :: "bool \<Rightarrow> observation list \<Rightarrow> (batch_payload \<times> batch_candidate list) list" where
  "evaluated reduction = List.map_filter (\<lambda>ev. case ev of
     Evaluated red b cs \<Rightarrow> if red = reduction then Some (b, cs) else None | _ \<Rightarrow> None)"

definition oversizes :: "observation list \<Rightarrow> int list" where
  "oversizes = List.map_filter (\<lambda>ev. case ev of Oversize t \<Rightarrow> Some t | _ \<Rightarrow> None)"

definition decisions :: "observation list \<Rightarrow> (batch_candidate list \<times> projection) list" where
  "decisions = List.map_filter (\<lambda>ev. case ev of Decided cs p \<Rightarrow> Some (cs, p) | _ \<Rightarrow> None)"

lemmas observation_lists = revisions_def pages_def evaluated_def oversizes_def decisions_def

lemma observations_append [simp]:
  "revisions (xs @ ys) = revisions xs @ revisions ys" "pages (xs @ ys) = pages xs @ pages ys"
  "evaluated red (xs @ ys) = evaluated red xs @ evaluated red ys"
  "oversizes (xs @ ys) = oversizes xs @ oversizes ys" "decisions (xs @ ys) = decisions xs @ decisions ys"
  by (simp_all add: observation_lists map_filter_append)

lemma observations_Cons [simp]:
  "revisions (Revision r # tr) = r # revisions tr"
  "revisions (Page q p # tr) = revisions tr"
  "revisions (Evaluated red b cs # tr) = revisions tr"
  "revisions (Oversize t # tr) = revisions tr"
  "revisions (Decided cs pr # tr) = revisions tr"
  "pages (Revision r # tr) = pages tr"
  "pages (Page q p # tr) = (q, p) # pages tr"
  "pages (Evaluated red b cs # tr) = pages tr"
  "pages (Oversize t # tr) = pages tr"
  "pages (Decided cs pr # tr) = pages tr"
  "evaluated red' (Revision r # tr) = evaluated red' tr"
  "evaluated red' (Page q p # tr) = evaluated red' tr"
  "evaluated red' (Evaluated red b cs # tr) = (if red = red' then (b, cs) # evaluated red' tr else evaluated red' tr)"
  "evaluated red' (Oversize t # tr) = evaluated red' tr"
  "evaluated red' (Decided cs pr # tr) = evaluated red' tr"
  "oversizes (Revision r # tr) = oversizes tr"
  "oversizes (Page q p # tr) = oversizes tr"
  "oversizes (Evaluated red b cs # tr) = oversizes tr"
  "oversizes (Oversize t # tr) = t # oversizes tr"
  "oversizes (Decided cs pr # tr) = oversizes tr"
  "decisions (Revision r # tr) = decisions tr"
  "decisions (Page q p # tr) = decisions tr"
  "decisions (Evaluated red b cs # tr) = decisions tr"
  "decisions (Oversize t # tr) = decisions tr"
  "decisions (Decided cs pr # tr) = (cs, pr) # decisions tr"
  by (simp_all add: observation_lists List.map_filter_def)

lemma observations_Nil [simp]:
  "revisions [] = []" "pages [] = []" "evaluated red [] = []" "oversizes [] = []" "decisions [] = []"
  by (simp_all add: observation_lists List.map_filter_def)

text \<open>The pages read are one chain of cursors, from the first page to one that says it is the last.\<close>

fun linked :: "('cx, 'ec) evaluation_input \<Rightarrow> string \<Rightarrow> (projection_request \<times> projection_page) list \<Rightarrow> bool" where
  "linked input cursor [] = False"
| "linked input cursor ((q, p) # rest) =
     (q = page_request input cursor \<and>
      (if pp_HasMore p then linked input (pp_NextCursor p) rest else rest = []))"

definition page_items :: "observation list \<Rightarrow> ai_item list" where
  "page_items tr = concat (map (\<lambda>(q, p). pr_Items (page_projection p)) (pages tr))"

definition sent_items :: "bool \<Rightarrow> observation list \<Rightarrow> ai_item list" where
  "sent_items reduction tr = concat (map (\<lambda>(b, cs). ba_Items b) (evaluated reduction tr))"

definition named_items :: "bool \<Rightarrow> observation list \<Rightarrow> string set" where
  "named_items reduction tr = cd_ItemID ` set (concat (map snd (evaluated reduction tr)))"

definition accepted_batches :: "observation list \<Rightarrow> bool" where
  "accepted_batches tr \<longleftrightarrow>
     (\<forall>(b, cs) \<in> set (evaluated False tr) \<union> set (evaluated True tr). validate_batch_candidates b cs = Inr ())"

lemma item_lists_append [simp]:
  "page_items (xs @ ys) = page_items xs @ page_items ys"
  "sent_items red (xs @ ys) = sent_items red xs @ sent_items red ys"
  "named_items red (xs @ ys) = named_items red xs \<union> named_items red ys"
  "accepted_batches (xs @ ys) \<longleftrightarrow> accepted_batches xs \<and> accepted_batches ys"
  by (auto simp: page_items_def sent_items_def named_items_def accepted_batches_def)

lemma item_lists_Cons [simp]:
  "page_items (Revision r # tr) = page_items tr"
  "page_items (Page q p # tr) = pr_Items (page_projection p) @ page_items tr"
  "page_items (Evaluated red b cs # tr) = page_items tr"
  "page_items (Oversize t # tr) = page_items tr"
  "page_items (Decided cs pr # tr) = page_items tr"
  "sent_items red' (Revision r # tr) = sent_items red' tr"
  "sent_items red' (Page q p # tr) = sent_items red' tr"
  "sent_items red' (Evaluated red b cs # tr) = (if red = red' then ba_Items b else []) @ sent_items red' tr"
  "sent_items red' (Oversize t # tr) = sent_items red' tr"
  "sent_items red' (Decided cs pr # tr) = sent_items red' tr"
  "named_items red' (Revision r # tr) = named_items red' tr"
  "named_items red' (Page q p # tr) = named_items red' tr"
  "named_items red' (Evaluated red b cs # tr) = (if red = red' then cd_ItemID ` set cs else {}) \<union> named_items red' tr"
  "named_items red' (Oversize t # tr) = named_items red' tr"
  "named_items red' (Decided cs pr # tr) = named_items red' tr"
  "accepted_batches (Revision r # tr) \<longleftrightarrow> accepted_batches tr"
  "accepted_batches (Page q p # tr) \<longleftrightarrow> accepted_batches tr"
  "accepted_batches (Evaluated red b cs # tr) \<longleftrightarrow> validate_batch_candidates b cs = Inr () \<and> accepted_batches tr"
  "accepted_batches (Oversize t # tr) \<longleftrightarrow> accepted_batches tr"
  "accepted_batches (Decided cs pr # tr) \<longleftrightarrow> accepted_batches tr"
  by (auto simp: page_items_def sent_items_def named_items_def accepted_batches_def)

lemma item_lists_Nil [simp]:
  "page_items [] = []" "sent_items red [] = []" "named_items red [] = {}" "accepted_batches []"
  by (simp_all add: page_items_def sent_items_def named_items_def accepted_batches_def)

section \<open>What each part adds to the observations\<close>

lemma settle_batch_Inr:
  assumes "settle_batch C input reduction batch rec answer s = (Inr (rec', cs), s')"
  shows "snd s' = snd s @ [Evaluated reduction batch cs] \<and> validate_batch_candidates batch cs = Inr ()"
  using assms
  by (cases answer) (auto simp: settle_batch_def observed_rules split: sum.splits)

lemma evaluate_batch_Inr:
  assumes "evaluate_batch C input reduction batch s = (Inr (rec, cs), s')"
  shows "snd s' = snd s @ [Evaluated reduction batch cs] \<and> validate_batch_candidates batch cs = Inr ()"
proof -
  from assms obtain rec0 s1 s2 answer where "snd s1 = snd s"
    "quietly (cc_EvaluateBatch C (mk_batch_input input reduction batch)) s1 = (answer, s2)"
    "settle_batch C input reduction batch rec0 answer s2 = (Inr (rec, cs), s')"
    by (auto simp: evaluate_batch_def observed_rules split: prod.splits) (metis prod.exhaust snd_conv)
  with settle_batch_Inr snd_quietly show ?thesis by metis
qed

lemma evaluate_batches_Inr:
  assumes "evaluate_batches C input batches (records, cands, pcs) s = (Inr (records', cands', pcs'), s')"
  shows "\<exists>css. length css = length batches \<and> snd s' = snd s @ map2 (Evaluated False) batches css \<and>
     cands' = cands @ concat css \<and> pcs' = pcs @ concat css \<and>
     (coverage_complete records \<longrightarrow> coverage_complete records') \<and>
     accepted_batches (map2 (Evaluated False) batches css)"
  using assms
proof (induction batches arbitrary: records cands pcs s)
  case Nil
  then show ?case by (simp add: observed_rules)
next
  case (Cons batch batches)
  from Cons.prems obtain rec cs s1 where one: "evaluate_batch C input False batch s = (Inr (rec, cs), s1)"
    and rest: "evaluate_batches C input batches
        ((records @ [rec])[length records := rec\<lparr>br_Status := ''completed''\<rparr>], cands @ cs, pcs @ cs) s1 =
      (Inr (records', cands', pcs'), s')"
    by (auto simp: observed_rules Let_def)
  from Cons.IH [OF rest] obtain css where css: "length css = length batches"
    "snd s' = snd s1 @ map2 (Evaluated False) batches css" "cands' = (cands @ cs) @ concat css"
    "pcs' = (pcs @ cs) @ concat css"
    "coverage_complete ((records @ [rec])[length records := rec\<lparr>br_Status := ''completed''\<rparr>]) \<longrightarrow> coverage_complete records'"
    "accepted_batches (map2 (Evaluated False) batches css)" by blast
  have "coverage_complete records \<longrightarrow> coverage_complete records'"
    using css(5) by (simp add: coverage_complete_def)
  moreover have "accepted_batches (map2 (Evaluated False) (batch # batches) (cs # css))"
    using css(6) evaluate_batch_Inr [OF one] by simp
  ultimately show ?case
    using css evaluate_batch_Inr [OF one] by (intro exI [of _ "cs # css"]) simp
qed

lemma split_into_batches_items:
  assumes "split_into_batches_mode order estimator budget p input start reduction = Inr batches"
  shows "concat (map ba_Items batches) = pr_Items p"
  using assms batch_split.split_sound
  by (fastforce simp: split_into_batches_mode_Inr batch_split.batches_for_def)

lemma observations_batches:
  assumes "length css = length batches"
  shows "evaluated red' (map2 (Evaluated red) batches css) = (if red = red' then zip batches css else [])"
    and "pages (map2 (Evaluated red) batches css) = []" and "revisions (map2 (Evaluated red) batches css) = []"
    and "oversizes (map2 (Evaluated red) batches css) = []" and "decisions (map2 (Evaluated red) batches css) = []"
  using assms by (induction css batches rule: list_induct2) auto

lemma items_of_batches:
  assumes "length css = length batches"
  shows "sent_items red' (map2 (Evaluated red) batches css) = (if red = red' then concat (map ba_Items batches) else [])"
    and "named_items red' (map2 (Evaluated red) batches css) = (if red = red' then cd_ItemID ` set (concat css) else {})"
    and "page_items (map2 (Evaluated red) batches css) = []"
proof -
  have "map (\<lambda>(b, cs). ba_Items b) (zip batches css) = map ba_Items batches" "map snd (zip batches css) = css"
    using assms by (induction css batches rule: list_induct2) simp_all
  then show "sent_items red' (map2 (Evaluated red) batches css) = (if red = red' then concat (map ba_Items batches) else [])"
    "named_items red' (map2 (Evaluated red) batches css) = (if red = red' then cd_ItemID ` set (concat css) else {})"
    "page_items (map2 (Evaluated red) batches css) = []"
    by (simp_all add: sent_items_def named_items_def page_items_def observations_batches [OF assms] del: set_concat)
qed

lemma append_items_subset:
  "append_items selected items (target, seen) = (target', seen') \<Longrightarrow>
     set target' \<subseteq> set target \<union> {i \<in> set items. it_ID i \<in> selected}"
  by (induction selected items "(target, seen)" arbitrary: target seen rule: append_items.induct)
    (fastforce split: if_splits)+

lemma append_candidate_projection_items:
  assumes "append_candidate_projection target batch cs seen = (target', seen')"
  shows "set (pr_Items target') \<subseteq> set (pr_Items target) \<union> {i \<in> set (ba_Items batch). it_ID i \<in> cd_ItemID ` set cs}"
  using assms append_items_subset [of "cd_ItemID ` set cs" "ba_Items batch" "pr_Items target" seen]
  by (auto simp: append_candidate_projection_def Let_def normalize_items split: prod.splits)

lemma keep_candidates_items:
  "set (pr_Items (fst (keep_candidates p cs (target, seen)))) \<subseteq> set (pr_Items target) \<union> {i \<in> set (pr_Items p). it_ID i \<in> cd_ItemID ` set cs}"
  using append_candidate_projection_items [of target "payload_of p" "normalize_batch_candidates cs" seen,
      OF surjective_pairing]
  by (auto simp: keep_candidates_def payload_of_def normalize_items)

text \<open>What a stretch of the loop over the pages adds.\<close>

definition covered :: "loop_state \<Rightarrow> observation list \<Rightarrow> loop_state \<Rightarrow> bool" where
  "covered st tr st' \<longleftrightarrow>
     sent_items False tr = page_items tr \<and> accepted_batches tr \<and>
     revisions tr = [] \<and> evaluated True tr = [] \<and> oversizes tr = [] \<and> decisions tr = [] \<and>
     (coverage_complete (ls_BatchRecords st) \<longrightarrow> coverage_complete (ls_BatchRecords st')) \<and>
     cd_ItemID ` set (ls_CandidateSet st') = cd_ItemID ` set (ls_CandidateSet st) \<union> named_items False tr \<and>
     set (pr_Items (ls_CandidateProjection st')) \<subseteq>
       set (pr_Items (ls_CandidateProjection st)) \<union> {i \<in> set (page_items tr). it_ID i \<in> named_items False tr}"

lemma covered_trans: "covered st tr st' \<Longrightarrow> covered st' tr' st'' \<Longrightarrow> covered st (tr @ tr') st''"
  unfolding covered_def by (auto simp: image_Un)

lemma evaluate_page_Inr:
  assumes "evaluate_page C input page st s = (Inr st', s')"
  shows "\<exists>tr. snd s' = snd s @ tr \<and> pages tr = [] \<and> covered st (Page q page # tr) st'"
proof (cases "pp_Items page = []")
  case True
  then have "pr_Items (page_projection page) = []"
    by (simp add: page_projection_def append_catalog_records_def projection_from_bundles_def
        attach_item_catalog_meaning_def Let_def)
  with True assms show ?thesis
    by (intro exI [of _ "[]"]) (simp add: evaluate_page_def observed_rules covered_def)
next
  case False
  let ?pp = "page_projection page"
  from False assms obtain batches records cands pcs where
    split: "split_into_batches_mode (cc_SchemaOrder C) (cc_CountBatchTokens C) (cc_TokenBudget C) ?pp input (ls_NextBatchNumber st) False = Inr batches"
    and run: "evaluate_batches C input batches (ls_BatchRecords st, ls_CandidateSet st, []) s = (Inr (records, cands, pcs), s')"
    and target: "ls_CandidateProjection st' = fst (keep_candidates ?pp pcs (ls_CandidateProjection st, ls_CandidateItemsSeen st))"
    and st': "ls_BatchRecords st' = records" "ls_CandidateSet st' = cands"
    by (auto simp: evaluate_page_def observed_rules Let_def case_prod_unfold split: sum.split_asm)
  from evaluate_batches_Inr [OF run] obtain css where css: "length css = length batches"
    "snd s' = snd s @ map2 (Evaluated False) batches css" "cands = ls_CandidateSet st @ concat css" "pcs = concat css"
    "coverage_complete (ls_BatchRecords st) \<longrightarrow> coverage_complete records"
    "accepted_batches (map2 (Evaluated False) batches css)" by auto
  let ?tr = "map2 (Evaluated False) batches css"
  from keep_candidates_items [of ?pp pcs "ls_CandidateProjection st" "ls_CandidateItemsSeen st"]
  have "set (pr_Items (ls_CandidateProjection st')) \<subseteq>
      set (pr_Items (ls_CandidateProjection st)) \<union> {i \<in> set (pr_Items ?pp). it_ID i \<in> cd_ItemID ` set (concat css)}"
    by (simp add: target css(4))
  then have "covered st (Page q page # ?tr) st'"
    using css st' split_into_batches_items [OF split]
    by (simp add: covered_def items_of_batches observations_batches image_Un image_UN)
  with css show ?thesis
    by (intro exI [of _ ?tr]) (simp add: observations_batches)
qed

lemma list_page_Inr:
  "list_page C input cursor s = (Inr page, s') \<Longrightarrow> snd s' = snd s @ [Page (page_request input cursor) page]"
  by (simp add: list_page_def observed_rules)

lemma paged_loop_Inr:
  assumes "paged_loop C input cursor st s = Some (Inr st', s')"
  shows "\<exists>tr. snd s' = snd s @ tr \<and> linked input cursor (pages tr) \<and> covered st tr st'"
proof -
  let ?P = "\<lambda>C input cursor st s out. \<forall>st'. fst (out :: loop_state result \<times> _) = Inr st' \<longrightarrow>
      (\<exists>tr. snd (snd out) = snd s @ tr \<and> linked input cursor (pages tr) \<and> covered st tr st')"
  have "?P C input cursor st s (Inr st', s')"
  proof (rule paged_loop.raw_induct [where P = ?P, OF _ assms], goal_cases)
    case (1 loop C input cursor st s out)
    show ?case
    proof (intro allI impI)
      fix st' assume ok: "fst out = Inr st'"
      from 1(2) ok obtain page s1 st1 s2 where page: "list_page C input cursor s = (Inr page, s1)"
        and eval: "evaluate_page C input page st s1 = (Inr st1, s2)"
        and more: "(if \<not> pp_HasMore page then Some (Inr st1, s2)
          else if blank (pp_NextCursor page) \<or> pp_NextCursor page = cursor
          then Some (Inl (PlainError ''catalog projection cursor did not advance''), s2)
          else loop C input (pp_NextCursor page) st1 s2) = Some out"
        by (auto split: prod.splits sum.splits) (metis fst_conv sum.distinct(1))
      from evaluate_page_Inr [OF eval] obtain tr where tr: "snd s2 = snd s1 @ tr" "pages tr = []"
        "covered st (Page (page_request input cursor) page # tr) st1" by blast
      note s1 = list_page_Inr [OF page]
      show "\<exists>tr. snd (snd out) = snd s @ tr \<and> linked input cursor (pages tr) \<and> covered st tr st'"
      proof (cases "pp_HasMore page")
        case False
        with more ok have "out = (Inr st1, s2)" "st1 = st'" by auto
        with tr s1 False show ?thesis
          by (intro exI [of _ "Page (page_request input cursor) page # tr"]) simp
      next
        case True
        with more ok have "loop C input (pp_NextCursor page) st1 s2 = Some out" by (auto split: if_splits)
        from 1(1) [OF this] ok obtain tr' where "snd (snd out) = snd s2 @ tr'"
          "linked input (pp_NextCursor page) (pages tr')" "covered st1 tr' st'" by blast
        with tr s1 True covered_trans [OF tr(3)] show ?thesis
          by (intro exI [of _ "Page (page_request input cursor) page # tr @ tr'"]) auto
      qed
    qed
  qed
  then show ?thesis by simp
qed

section \<open>The rounds of reduction\<close>

definition evaluations :: "bool \<Rightarrow> observation set" where
  "evaluations reduction = {Evaluated reduction b cs | b cs. True}"

lemma Evaluated_evaluations [simp]: "Evaluated red b cs \<in> evaluations red"
  by (auto simp: evaluations_def)

lemma adds_evaluate_batch: "adds (evaluations red) (evaluate_batch C input red batch)"
  unfolding evaluate_batch_def settle_batch_def
  by (intro adds_rules Evaluated_evaluations)

lemma adds_reduce_batches: "adds (evaluations True) (reduce_batches C input batches acc)"
proof (induction batches arbitrary: acc)
  case Nil
  show ?case by (simp add: adds_return)
next
  case (Cons batch batches)
  obtain reduced p seen where "acc = (reduced, p, seen)" by (metis prod.exhaust)
  then show ?case
    by (simp add: Let_def) (intro adds_rules adds_evaluate_batch Cons.IH)
qed

lemma adds_reduce_candidate_round: "adds (evaluations True) (reduce_candidate_round C input p n)"
  unfolding reduce_candidate_round_def by (intro adds_rules adds_reduce_batches)

lemma evaluations_only:
  assumes "set tr \<subseteq> evaluations red"
  shows "revisions tr = []" "pages tr = []" "oversizes tr = []" "decisions tr = []" "evaluated (\<not> red) tr = []"
  using assms by (induction tr) (auto simp: evaluations_def)

lemma reduce_batches_Inr:
  assumes "reduce_batches C input batches (reduced, p, seen) s = (Inr (reduced', p', seen'), s')"
  shows "\<exists>css. length css = length batches \<and> snd s' = snd s @ map2 (Evaluated True) batches css \<and>
     accepted_batches (map2 (Evaluated True) batches css) \<and>
     set (pr_Items p') \<subseteq> set (pr_Items p) \<union> set (concat (map ba_Items batches))"
  using assms
proof (induction batches arbitrary: reduced p seen s)
  case Nil
  then show ?case by (simp add: observed_rules)
next
  case (Cons batch batches)
  from Cons.prems obtain rec cs s1 p1 seen1 where one: "evaluate_batch C input True batch s = (Inr (rec, cs), s1)"
    and kept: "append_candidate_projection p batch cs seen = (p1, seen1)"
    and rest: "reduce_batches C input batches (reduced @ cs, p1, seen1) s1 = (Inr (reduced', p', seen'), s')"
    by (auto simp: observed_rules Let_def case_prod_unfold) (metis prod.collapse)
  from Cons.IH [OF rest] obtain css where "length css = length batches"
    "snd s' = snd s1 @ map2 (Evaluated True) batches css" "accepted_batches (map2 (Evaluated True) batches css)"
    "set (pr_Items p') \<subseteq> set (pr_Items p1) \<union> set (concat (map ba_Items batches))" by blast
  with evaluate_batch_Inr [OF one] append_candidate_projection_items [OF kept] show ?case
    by (intro exI [of _ "cs # css"]) auto
qed

lemma reduce_candidate_round_Inr:
  assumes "reduce_candidate_round C input p n s = (Inr (reduced, p', n'), s')"
  shows "\<exists>tr. snd s' = snd s @ tr \<and> set tr \<subseteq> evaluations True \<and> accepted_batches tr \<and>
     set (pr_Items p') \<subseteq> set (pr_Items p)"
proof -
  from assms obtain batches acc seen' where
    split: "split_into_batches_mode (cc_SchemaOrder C) (cc_CountBatchTokens C) (cc_TokenBudget C) p input n True = Inr batches"
    and run: "reduce_batches C input batches ([], empty_projection, []) s = (Inr (acc, p', seen'), s')"
    by (auto simp: reduce_candidate_round_def observed_rules split: sum.splits)
  from reduce_batches_Inr [OF run] obtain css where css: "length css = length batches"
    "snd s' = snd s @ map2 (Evaluated True) batches css" "accepted_batches (map2 (Evaluated True) batches css)"
    "set (pr_Items p') \<subseteq> set (concat (map ba_Items batches))"
    by (auto simp: empty_projection_def)
  then have "set (map2 (Evaluated True) batches css) \<subseteq> evaluations True" by (auto simp: evaluations_def)
  with css split_into_batches_items [OF split] show ?thesis by (intro exI [of _ "map2 (Evaluated True) batches css"]) simp
qed

lemma effective_budget_pos: "0 < effective_budget b"
  by (simp add: effective_budget_def)

lemma final_size_oversize: "final_size C input cs p = Inr (Some t) \<Longrightarrow> effective_budget (cc_TokenBudget C) < t"
  by (auto simp: final_size_def split: option.splits prod.splits sum.splits if_splits)

section \<open>The final evaluation\<close>

lemma adds_decide: "adds {Decided cs p} (decide C input cs p)"
  unfolding decide_def noting_def by (intro adds_rules) (auto intro!: adds_rules)

lemma decide_Inr:
  assumes "decide C input cs p s = (Inr (proposal, q), s')"
  shows "q = p \<and> snd s' = snd s @ [Decided cs p] \<and> is_terminal_capability (dc_Capability proposal)"
  using assms
  by (auto simp: decide_def observed_rules case_prod_unfold split: if_splits)

text \<open>One turn of the loop, by what it comes to.\<close>

lemma final_loop_cases:
  assumes "final_loop C input cs p n lst rounds s = (r, s')"
  obtains (stop) e where "r = Inl e" "s' = s"
  | (decide) "final_size C input cs p = Inr None" "decide C input cs p s = (r, s')"
  | (failed) t e tr where "final_size C input cs p = Inr (Some t)" "lst > 0 \<longrightarrow> t < lst" "rounds < max_reduction_rounds"
      "r = Inl e" "snd s' = snd s @ Oversize t # tr" "set tr \<subseteq> evaluations True"
  | (reduced) t reduced p' n' s1 tr where "final_size C input cs p = Inr (Some t)" "lst > 0 \<longrightarrow> t < lst"
      "rounds < max_reduction_rounds" "snd s1 = snd s @ Oversize t # tr" "set tr \<subseteq> evaluations True"
      "accepted_batches tr" "set (pr_Items p') \<subseteq> set (pr_Items p)"
      "final_loop C input (normalize_batch_candidates reduced) p' n' t (rounds + 1) s1 = (r, s')"
proof (cases "\<exists>t. cc_ContextError C (fst s) = None \<and> final_size C input cs p = Inr (Some t) \<and> pr_Items p \<noteq> [] \<and>
    (lst > 0 \<longrightarrow> t < lst) \<and> rounds < max_reduction_rounds")
  case False
  with assms stop decide show thesis
    unfolding final_loop.simps [of C input cs p n lst rounds s]
    by (auto split: option.splits sum.splits if_splits)
next
  case True
  then obtain t where t: "cc_ContextError C (fst s) = None" "final_size C input cs p = Inr (Some t)" "pr_Items p \<noteq> []"
    "lst > 0 \<longrightarrow> t < lst" "rounds < max_reduction_rounds" by blast
  obtain out s1 where round: "reduce_candidate_round C input p n (fst s, snd s @ [Oversize t]) = (out, s1)"
    by (metis surj_pair)
  from t round have step: "final_loop C input cs p n lst rounds s =
     (case out of Inl e \<Rightarrow> (Inl e, s1)
      | Inr (reduced, p', n') \<Rightarrow> final_loop C input (normalize_batch_candidates reduced) p' n' t (rounds + 1) s1)"
    unfolding final_loop.simps [of C input cs p n lst rounds s]
    by (auto simp: run_bind_def note_that_def split: sum.splits prod.splits)
  show thesis
  proof (cases out)
    case (Inl e)
    from adds_reduce_candidate_round [of C input p n] round obtain tr
      where "snd s1 = (snd s @ [Oversize t]) @ tr" "set tr \<subseteq> evaluations True"
      unfolding adds_def by (metis snd_conv)
    with t step Inl assms show thesis by (intro failed [of t e tr]) auto
  next
    case (Inr res)
    then obtain reduced p' n' where res: "out = Inr (reduced, p', n')" by (metis prod.exhaust)
    from reduce_candidate_round_Inr [OF round [unfolded res]] obtain tr
      where "snd s1 = (snd s @ [Oversize t]) @ tr" "set tr \<subseteq> evaluations True" "accepted_batches tr"
        "set (pr_Items p') \<subseteq> set (pr_Items p)" by auto
    with t step res assms show thesis by (intro reduced [of t s1 tr p' reduced n']) auto
  qed
qed

text \<open>The rounds of a run: how many, and by which sizes.\<close>

lemma final_loop_rounds:
  assumes "final_loop C input cs p n lst rounds s = (r, s')"
  shows "\<exists>tr. snd s' = snd s @ tr \<and> length (oversizes tr) \<le> max_reduction_rounds - rounds \<and>
     sorted_wrt (>) (oversizes tr) \<and>
     (\<forall>t \<in> set (oversizes tr). effective_budget (cc_TokenBudget C) < t \<and> (lst > 0 \<longrightarrow> t < lst))"
  using assms
proof (induction "max_reduction_rounds - rounds" arbitrary: cs p n lst rounds s rule: less_induct)
  case less
  from less.prems show ?case
  proof (cases rule: final_loop_cases)
    case stop
    then show ?thesis by simp
  next
    case decide
    with adds_decide [of cs p C input] obtain tr where "snd s' = snd s @ tr" "set tr \<subseteq> {Decided cs p}"
      unfolding adds_def by (metis snd_conv)
    moreover from this(2) have "oversizes tr = []" by (induction tr) auto
    ultimately show ?thesis by auto
  next
    case (failed t e tr)
    then show ?thesis
      using final_size_oversize [OF failed(1)]
      by (intro exI [of _ "Oversize t # tr"]) (simp add: evaluations_only)
  next
    case (reduced t red p' n' s1 tr)
    note t = final_size_oversize [OF reduced(1)] effective_budget_pos [of "cc_TokenBudget C"]
    from reduced(3) have "max_reduction_rounds - (rounds + 1) < max_reduction_rounds - rounds" by simp
    from less.hyps [OF this reduced(8)] obtain tr' where tr': "snd s' = snd s1 @ tr'" "length (oversizes tr') \<le> max_reduction_rounds - (rounds + 1)"
      "sorted_wrt (>) (oversizes tr')"
      "\<forall>u \<in> set (oversizes tr'). effective_budget (cc_TokenBudget C) < u \<and> (t > 0 \<longrightarrow> u < t)"
      by blast
    with reduced t show ?thesis
      by (intro exI [of _ "Oversize t # tr @ tr'"]) (auto simp: evaluations_only)
  qed
qed

lemma final_loop_Inr:
  assumes "final_loop C input cs p n lst rounds s = (Inr (proposal, q), s')"
  shows "\<exists>tr cs'. snd s' = snd s @ tr \<and> accepted_batches tr \<and> revisions tr = [] \<and> pages tr = [] \<and>
     evaluated False tr = [] \<and> decisions tr = [(cs', q)] \<and> set (pr_Items q) \<subseteq> set (pr_Items p) \<and>
     final_size C input cs' q = Inr None \<and> is_terminal_capability (dc_Capability proposal)"
  using assms
proof (induction "max_reduction_rounds - rounds" arbitrary: cs p n lst rounds s rule: less_induct)
  case less
  from less.prems show ?case
  proof (cases rule: final_loop_cases)
    case decide
    with decide_Inr [OF decide(2)] show ?thesis by (intro exI [of _ "[Decided cs p]"] exI [of _ cs]) simp
  next
    case (reduced t red p' n' s1 tr)
    from reduced(3) have "max_reduction_rounds - (rounds + 1) < max_reduction_rounds - rounds" by simp
    from less.hyps [OF this reduced(8)] obtain tr' cs' where
      "snd s' = snd s1 @ tr'" "accepted_batches tr'" "revisions tr' = []" "pages tr' = []" "evaluated False tr' = []"
      "decisions tr' = [(cs', q)]" "set (pr_Items q) \<subseteq> set (pr_Items p')" "final_size C input cs' q = Inr None"
      "is_terminal_capability (dc_Capability proposal)" by blast
    moreover from evaluations_only [OF reduced(5)] have "evaluated False tr = []" by simp
    ultimately show ?thesis
      using reduced evaluations_only [OF reduced(5)]
      by (intro exI [of _ "Oversize t # tr @ tr'"] exI [of _ cs']) auto
  qed simp_all
qed

lemma run_final_evaluation_Inr:
  assumes "run_final_evaluation C input cs p n s = (Inr (proposal, q), s')"
  shows "\<exists>tr cs'. snd s' = snd s @ tr \<and> accepted_batches tr \<and> revisions tr = [] \<and> pages tr = [] \<and>
     evaluated False tr = [] \<and> decisions tr = [(cs', q)] \<and>
     set (pr_Items q) \<subseteq> {i \<in> set (pr_Items p). it_ID i \<in> cd_ItemID ` set cs} \<and>
     final_size C input cs' q = Inr None \<and> is_terminal_capability (dc_Capability proposal)"
proof -
  obtain p' seen where kept: "append_candidate_projection empty_projection (payload_of p) (normalize_batch_candidates cs) [] = (p', seen)"
    by (metis surj_pair)
  with assms have "final_loop C input (normalize_batch_candidates cs) p' (if n \<le> 0 then 1 else n) 0 0 s = (Inr (proposal, q), s')"
    by (simp add: run_final_evaluation_def)
  from final_loop_Inr [OF this] append_candidate_projection_items [OF kept] show ?thesis
    by (simp add: payload_of_def normalize_items empty_projection_def) blast
qed

lemma get_revision_Inr: "get_revision C input text s = (Inr r, s') \<Longrightarrow> snd s' = snd s @ [Revision r]"
  by (simp add: get_revision_def observed_rules)

lemma conclude_Inr:
  assumes "conclude C input r st s = (Inr res, s')"
  shows "\<exists>tr cs q. snd s' = snd s @ [Revision r] @ tr @ [Revision r] \<and> coverage_complete (ls_BatchRecords st) \<and>
     accepted_batches tr \<and> revisions tr = [] \<and> pages tr = [] \<and> evaluated False tr = [] \<and> decisions tr = [(cs, q)] \<and>
     set (pr_Items q) \<subseteq> {i \<in> set (pr_Items (ls_CandidateProjection st)). it_ID i \<in> cd_ItemID ` set (ls_CandidateSet st)} \<and>
     final_size C input cs q = Inr None \<and> is_terminal_capability (dc_Capability (er_Decision res)) \<and>
     er_Evidence res = evidence_from_projection q"
proof -
  from assms obtain proposal q s1 s2 where
    cover: "coverage_complete (ls_BatchRecords st)"
    and r1: "get_revision C input ''read catalog revision after evaluation'' s = (Inr r, s1)"
    and final: "run_final_evaluation C input (ls_CandidateSet st) (ls_CandidateProjection st) (ls_NextBatchNumber st) s1 = (Inr (proposal, q), s2)"
    and r2: "get_revision C input ''read catalog revision after final evaluation'' s2 = (Inr r, s')"
    and res: "res = \<lparr>er_Decision = proposal, er_Evidence = evidence_from_projection q\<rparr>"
    by (auto simp: conclude_def run_rules split: if_splits)
  from run_final_evaluation_Inr [OF final] get_revision_Inr [OF r1] get_revision_Inr [OF r2] cover res
  show ?thesis by auto
qed

text \<open>
  C21: an evaluation that returns a decision rests on one snapshot of the whole catalog. The revision read
  before the first page, after the last batch and after the final model call is the same; the pages read
  form one chain of cursors from the first page to one without successor; every item of these pages, in
  their order and each exactly once, was sent to the evaluator in the batches; every answer of the
  evaluator, in these batches and in the rounds of reduction, passed the check of its candidates. There was
  exactly one final call, on a request the estimator does not find too large, it answered with a terminal
  capability, and the evidence returned is that of the projection shown to it, all of whose items are
  items of the pages that some candidate had named.
\<close>

theorem catalog_evaluation_snapshot:
  assumes run: "run_catalog_evaluation C input (w, []) = Some (Inr res, (w', tr))"
  shows "\<exists>r tr1 tr2. tr = Revision r # tr1 @ Revision r # tr2 @ [Revision r] \<and> revisions (tr1 @ tr2) = [] \<and>
     linked input '''' (pages tr) \<and>
     sent_items False tr = page_items tr \<and>
     accepted_batches tr \<and>
     (\<exists>cs p. decisions tr = [(cs, p)] \<and> final_size C input cs p = Inr None \<and>
        er_Evidence res = evidence_from_projection p \<and>
        set (pr_Items p) \<subseteq> {i \<in> set (page_items tr). it_ID i \<in> named_items False tr}) \<and>
     is_terminal_capability (dc_Capability (er_Decision res))"
proof -
  from run obtain r s1 st s2 where
    r: "get_revision C input ''read catalog revision before evaluation'' (w, []) = (Inr r, s1)"
    and loop: "paged_loop C input '''' start_state s1 = Some (Inr st, s2)"
    and fin: "conclude C input r st s2 = (Inr res, (w', tr))"
    by (auto simp: run_catalog_evaluation_def run_paged_catalog_evaluation_def
        split: if_splits prod.splits sum.splits option.splits)
  from paged_loop_Inr [OF loop] obtain tr1 where tr1: "snd s2 = snd s1 @ tr1" "linked input '''' (pages tr1)"
    "covered start_state tr1 st" by blast
  from conclude_Inr [OF fin] obtain tr2 cs q where
    tr2: "tr = snd s2 @ [Revision r] @ tr2 @ [Revision r]" "accepted_batches tr2" "revisions tr2 = []" "pages tr2 = []"
      "evaluated False tr2 = []" "decisions tr2 = [(cs, q)]" "final_size C input cs q = Inr None"
      "set (pr_Items q) \<subseteq> {i \<in> set (pr_Items (ls_CandidateProjection st)). it_ID i \<in> cd_ItemID ` set (ls_CandidateSet st)}"
      "is_terminal_capability (dc_Capability (er_Decision res))" "er_Evidence res = evidence_from_projection q" by auto
  have cov: "sent_items False tr1 = page_items tr1" "accepted_batches tr1" "revisions tr1 = []" "decisions tr1 = []"
    "set (pr_Items (ls_CandidateProjection st)) \<subseteq> {i \<in> set (page_items tr1). it_ID i \<in> named_items False tr1}"
    using tr1(3) by (simp_all add: covered_def start_state_def empty_projection_def)
  have none: "sent_items False tr2 = []" "page_items tr2 = []" "named_items False tr2 = {}"
    using tr2(4,5) by (simp_all add: sent_items_def page_items_def named_items_def)
  have eq: "tr = Revision r # tr1 @ Revision r # tr2 @ [Revision r]"
    using tr2(1) tr1(1) get_revision_Inr [OF r] by simp
  show ?thesis
    by (rule exI [of _ r], rule exI [of _ tr1], rule exI [of _ tr2], unfold eq)
      (use tr1(2) tr2(2-) cov none in auto)
qed

text \<open>
  C22: the final evaluation is bounded. Whatever its outcome, it starts at most three rounds of candidate
  reduction, each because the request was over the budget and each on a request smaller than the one before.
\<close>

theorem final_evaluation_bounded:
  "\<exists>tr. snd (snd (run_final_evaluation C input cs p n s)) = snd s @ tr \<and> length (oversizes tr) \<le> 3 \<and>
     sorted_wrt (>) (oversizes tr) \<and> set (oversizes tr) \<subseteq> {effective_budget (cc_TokenBudget C)<..}"
proof -
  obtain p' seen where kept: "append_candidate_projection empty_projection (payload_of p) (normalize_batch_candidates cs) [] = (p', seen)"
    by (metis surj_pair)
  obtain r s' where run: "final_loop C input (normalize_batch_candidates cs) p' (if n \<le> 0 then 1 else n) 0 0 s = (r, s')"
    by (metis surj_pair)
  with kept have "snd (run_final_evaluation C input cs p n s) = s'" by (simp add: run_final_evaluation_def)
  with final_loop_rounds [OF run] show ?thesis by auto
qed



section \<open>A sample run\<close>

text \<open>Two pages of one item each; the world counts the identifiers drawn.\<close>

definition sample_catalog_record :: catalog_record where
  "sample_catalog_record = \<lparr>cr_ID = ''c1'', cr_BusinessID = ''b1'', cr_Name = ''main'', cr_Description = None,
     cr_Status = ''active'', cr_ResourceVersion = 1, cr_CreatedAt = 1, cr_UpdatedAt = 1\<rparr>"

definition sample_pages :: "projection_request \<Rightarrow> (nat, projection_page) run" where
  "sample_pages q w =
     (if pq_Cursor q = ''''
      then (Inr \<lparr>pp_Catalogs = [sample_catalog_record], pp_Items = [sample_bundle ''i1''], pp_NextCursor = ''p2'', pp_HasMore = True\<rparr>, w)
      else if pq_Cursor q = ''p2''
      then (Inr \<lparr>pp_Catalogs = [sample_catalog_record], pp_Items = [sample_bundle ''i2''], pp_NextCursor = '''', pp_HasMore = False\<rparr>, w)
      else (Inl (PlainError ''invalid cursor''), w))"

definition sample_evaluator :: "(unit, unit) batch_input \<Rightarrow> (nat, batch_result) run" where
  "sample_evaluator bi w =
     (Inr \<lparr>bz_BatchNumber = bi_BatchNumber bi,
           bz_Candidates = map (\<lambda>i. \<lparr>cd_ItemID = it_ID i, cd_VariantIDs = [], cd_OfferIDs = [], cd_Reason = ''fits''\<rparr>)
             (filter (\<lambda>i. it_ID i = ''i2'') (ba_Items (bi_Batch bi))),
           bz_Usage = sample_usage, bz_LatencyMs = 1\<rparr>, w)"

definition sample_controller :: "(nat, unit, unit, unit) controller" where
  "sample_controller =
     \<lparr>cc_Wired = True, cc_GetRevision = (\<lambda>_ w. (Inr ''rev1'', w)), cc_ListProjectionPage = sample_pages,
      cc_CreateCatalogBatch = (\<lambda>rec w. (Inr rec, w)),
      cc_UpdateCatalogBatch = (\<lambda>i patch w. (Inr
        \<lparr>br_ID = i, br_AIRunID = ''run1'', br_BatchNumber = 1, br_Status = bp_Status patch, br_ItemsCount = 1,
         br_SchemasCount = 0, br_InputTokens = 0, br_CandidateCount = 0, br_FailureReason = '''',
         br_StartedAt = bp_StartedAt patch, br_CompletedAt = bp_CompletedAt patch, br_CreatedAt = 1, br_UpdatedAt = 1\<rparr>, w)),
      cc_EvaluateBatch = sample_evaluator,
      cc_FinalEvaluate = (\<lambda>_ _ w. (Inr (\<lparr>dc_Capability = ''respond_without_action'', dc_ResponseText = ''ok'', dc_Selected = [], dc_Sales = None\<rparr>, sample_usage), w)),
      cc_CountBatchTokens = Some sample_count, cc_CountFinalTokens = Some (\<lambda>_ _. Inr 7), cc_TokenBudget = 15,
      cc_Usage = \<lparr>us_AppendRecord = None, us_ListSubscriptions = None, us_GetCurrentForProvider = None,
                  us_FXRateYER = '''', us_Now = (\<lambda>w. (1, w)), us_NewID = (\<lambda>w. (''n'', Suc w))\<rparr>,
      cc_ContextError = (\<lambda>_. None), cc_SchemaOrder = (\<lambda>xs. xs), cc_ErrorText = (\<lambda>_. ''''),
      cc_ContextJSON = (\<lambda>_. ''''), cc_CandidatesJSON = (\<lambda>_. ''''), cc_ProjectionJSON = (\<lambda>_. '''')\<rparr>"

theorem catalog_evaluation_snapshot_witness:
  "\<exists>res w' tr. run_catalog_evaluation sample_controller sample_input (0, []) = Some (Inr res, (w', tr)) \<and>
     map fst (er_Evidence res) = [''i2''] \<and> sent_items False tr = page_items tr \<and> length (page_items tr) = 2"
proof -
  let ?run = "run_catalog_evaluation sample_controller sample_input (0, [])"
  have ok: "case ?run of Some (Inr res, w', tr) \<Rightarrow> map fst (er_Evidence res) = [''i2''] \<and> length (page_items tr) = 2 | _ \<Rightarrow> False"
    by code_simp
  then obtain res w' tr where run: "?run = Some (Inr res, (w', tr))"
    by (auto split: option.splits prod.splits sum.splits)
  with ok catalog_evaluation_snapshot [OF run] show ?thesis by auto
qed


end
