(* ===== verification/Postgres.thy ===== *)
theory Postgres
  imports Go_Prelude "HOL-Library.Product_Lexorder"
begin

text \<open>
  What the stores of \<^verbatim>\<open>internal/adapters/secondary/persistence/postgres\<close> share: the classification
  of database errors (\<^verbatim>\<open>core_repositories.go\<close>, \<^verbatim>\<open>communication_repositories.go\<close>) and the meaning of
  the few statement shapes they send. A table is the list of its rows; a statement runs alone on it.
  PostgreSQL itself is outside the repository: the record \<open>pg_env\<close> holds what it supplies at a
  call, namely its clock, the reading of a text as a \<^verbatim>\<open>uuid\<close> (canonical text, or an error), the
  rounding of an instant on storage, and the failure of a statement. A lost connection may hide that
  the statement was applied. A read that follows a missed update sees the table the update saw.
\<close>

section \<open>The environment of a call\<close>

datatype db_fault = ServerError string | ConnectionLost string bool

record pg_env =
  pg_now :: time
  go_now :: time
  pg_uuid :: "string \<Rightarrow> string option"
  pg_ts :: "time \<Rightarrow> time"
  pg_executor :: "go_error option"
  pg_write_fault :: "db_fault option"
  pg_read_fault :: "db_fault option"

fun fault_error :: "db_fault \<Rightarrow> go_error" where
  "fault_error (ServerError code) = PgError code"
| "fault_error (ConnectionLost t _) = PlainError t"

section \<open>Classification of errors\<close>

definition invalid_repository_input :: "string \<Rightarrow> string \<Rightarrow> go_error" where
  "invalid_repository_input operation message =
     RepositoryError operation RepositoryInvalid (PlainError message)"

definition classify_repository_get_error :: "string \<Rightarrow> go_error \<Rightarrow> go_error" where
  "classify_repository_get_error operation err =
     (if is_no_rows err then RepositoryError operation RepositoryNotFound err
      else RepositoryError operation RepositoryInvalid err)"

definition classify_repository_write_error :: "string \<Rightarrow> go_error \<Rightarrow> go_error" where
  "classify_repository_write_error operation err =
     (if is_no_rows err then RepositoryError operation RepositoryNotFound err
      else if pg_code err = Some ''23505'' then RepositoryError operation RepositoryConflict err
      else RepositoryError operation RepositoryInvalid (Wrapped operation err))"

section \<open>Statements\<close>

text \<open>The SQLSTATE of a text that is no \<^verbatim>\<open>uuid\<close>, of a violated \<^verbatim>\<open>CHECK\<close>, of a violated unique key,
  of a missing referenced row and of an integer out of range.\<close>

definition invalid_text :: go_error where "invalid_text = PgError ''22P02''"
definition check_violation :: string where "check_violation = ''23514''"
definition unique_violation :: string where "unique_violation = ''23505''"
definition foreign_key_violation :: string where "foreign_key_violation = ''23503''"
definition out_of_range :: string where "out_of_range = ''22003''"

lemmas sqlstates [go_defs] = invalid_text_def check_violation_def unique_violation_def
  foreign_key_violation_def out_of_range_def

definition with_uuid :: "pg_env \<Rightarrow> string \<Rightarrow> (string \<Rightarrow> 'a result) \<Rightarrow> 'a result" where
  "with_uuid env s k = (case pg_uuid env s of None \<Rightarrow> Inl invalid_text | Some u \<Rightarrow> k u)"

definition pg_write :: "pg_env \<Rightarrow> ('t \<Rightarrow> ('a \<times> 't) result) \<Rightarrow> 't \<Rightarrow> 'a result \<times> 't" where
  "pg_write env stmt t =
     (case pg_write_fault env of
        None \<Rightarrow> (case stmt t of Inl e \<Rightarrow> (Inl e, t) | Inr (x, t') \<Rightarrow> (Inr x, t'))
      | Some (ServerError code) \<Rightarrow> (Inl (PgError code), t)
      | Some (ConnectionLost msg applied) \<Rightarrow>
          (Inl (PlainError msg), if applied then (case stmt t of Inl _ \<Rightarrow> t | Inr (_, t') \<Rightarrow> t') else t))"

definition pg_read :: "pg_env \<Rightarrow> ('t \<Rightarrow> 'a result) \<Rightarrow> 't \<Rightarrow> 'a result" where
  "pg_read env query t = (case pg_read_fault env of None \<Rightarrow> query t | Some f \<Rightarrow> Inl (fault_error f))"

text \<open>The call of \<^verbatim>\<open>executor(ctx)\<close> that opens every store method.\<close>

definition on_executor :: "pg_env \<Rightarrow> ('t \<Rightarrow> 'a result \<times> 't) \<Rightarrow> 't \<Rightarrow> 'a result \<times> 't" where
  "on_executor env body t = (case pg_executor env of Some e \<Rightarrow> (Inl e, t) | None \<Rightarrow> body t)"

text \<open>A statement of a call, where \<open>fault\<close> is how it fails, if it does.\<close>

definition faulty_write :: "pg_env \<Rightarrow> db_fault option \<Rightarrow> ('t \<Rightarrow> ('a \<times> 't) result) \<Rightarrow> ('t, 'a) run" where
  "faulty_write env fault stmt = pg_write (env\<lparr>pg_write_fault := fault\<rparr>) stmt"

definition faulty_read :: "pg_env \<Rightarrow> db_fault option \<Rightarrow> ('t \<Rightarrow> 'a result) \<Rightarrow> ('t, 'a) run" where
  "faulty_read env fault query t = (pg_read (env\<lparr>pg_read_fault := fault\<rparr>) query t, t)"

definition select_one :: "('r \<Rightarrow> bool) \<Rightarrow> 'r list \<Rightarrow> 'r result" where
  "select_one p rows = (case find p rows of None \<Rightarrow> Inl ErrNoRows | Some r \<Rightarrow> Inr r)"

text \<open>\<^verbatim>\<open>UPDATE ... SET f WHERE p RETURNING ...\<close> on a table whose key \<open>p\<close> fixes; \<open>violated\<close> names the
  SQLSTATE of a constraint that the new row breaks, if any.\<close>

definition update_returning ::
  "('r \<Rightarrow> bool) \<Rightarrow> ('r \<Rightarrow> 'r) \<Rightarrow> ('r \<Rightarrow> string option) \<Rightarrow> 'r list \<Rightarrow> ('r \<times> 'r list) result" where
  "update_returning p f violated rows =
     (case find p rows of
        None \<Rightarrow> Inl ErrNoRows
      | Some r \<Rightarrow> (case violated (f r) of
                     Some code \<Rightarrow> Inl (PgError code)
                   | None \<Rightarrow> Inr (f r, update_where p f rows)))"

definition insert_returning :: "('r \<Rightarrow> 'r list \<Rightarrow> string option) \<Rightarrow> 'r \<Rightarrow> 'r list \<Rightarrow> ('r \<times> 'r list) result" where
  "insert_returning violated r rows =
     (case violated r rows of Some code \<Rightarrow> Inl (PgError code) | None \<Rightarrow> Inr (r, rows @ [r]))"

text \<open>\<^verbatim>\<open>length(btrim(s)) > 0\<close>: some byte is not a space.\<close>

definition sql_nonblank :: "string \<Rightarrow> bool" where
  "sql_nonblank s = (\<exists>c \<in> set s. c \<noteq> CHR '' '')"

text \<open>Comparisons with a nullable column are not true on \<^verbatim>\<open>NULL\<close>.\<close>

fun sql_le :: "time option \<Rightarrow> time \<Rightarrow> bool" where
  "sql_le None t = False"
| "sql_le (Some a) t = (a \<le> t)"

fun sql_gt :: "time option \<Rightarrow> time \<Rightarrow> bool" where
  "sql_gt None t = False"
| "sql_gt (Some a) t = (t < a)"

section \<open>Transactions\<close>

text \<open>
  \<^verbatim>\<open>Adapter.Within\<close>: what the context, the pool and the server answer around the callback. A commit whose
  confirmation is lost may have taken effect. \<open>tx_rollback_err\<close> is an error other than \<^verbatim>\<open>ErrTxClosed\<close>.
\<close>

record tx_env =
  tx_ctx_err :: "go_error option"
  tx_closed :: bool
  tx_nested :: bool
  tx_begin_err :: "go_error option"
  tx_rollback_err :: "go_error option"
  tx_commit_err :: "(go_error \<times> bool) option"

definition err_pool_closed :: go_error where "err_pool_closed = PlainError ''postgres pool is closed''"
definition err_nested_transaction :: go_error where
  "err_nested_transaction = PlainError ''nested transactions are not supported''"

definition within :: "tx_env \<Rightarrow> ('t, 'a) run \<Rightarrow> ('t, 'a) run" where
  "within tx callback t =
     (case tx_ctx_err tx of Some e \<Rightarrow> (Inl e, t) | None \<Rightarrow>
      if tx_closed tx then (Inl err_pool_closed, t)
      else if tx_nested tx then (Inl err_nested_transaction, t)
      else (case tx_begin_err tx of Some e \<Rightarrow> (Inl (Wrapped ''begin transaction'' e), t) | None \<Rightarrow>
        (case callback t of
           (Inl e, _) \<Rightarrow>
             (Inl (case tx_rollback_err tx of None \<Rightarrow> e | Some _ \<Rightarrow> Wrapped ''rollback transaction'' e), t)
         | (Inr x, t') \<Rightarrow>
             (case tx_commit_err tx of
                None \<Rightarrow> (Inr x, t')
              | Some (e, applied) \<Rightarrow> (Inl (Wrapped ''commit transaction'' e), if applied then t' else t)))))"

section \<open>Facts\<close>

lemma within_Inr: "within tx callback t = (Inr x, t') \<Longrightarrow> callback t = (Inr x, t')"
  by (auto simp: within_def split: option.splits prod.splits sum.splits if_splits)

text \<open>All or nothing: the callback's work is kept as a whole or not at all.\<close>

lemma within_atomic:
  "within tx callback t = (r, t') \<Longrightarrow> t' = t \<or> (\<exists>x. callback t = (Inr x, t'))"
  by (auto simp: within_def split: option.splits prod.splits sum.splits if_splits)

lemma is_no_rows_simps [simp]:
  "\<not> is_no_rows invalid_text" "\<not> is_no_rows (fault_error f)"
  by (simp add: invalid_text_def, cases f) simp_all

text \<open>A statement changes the table only by what it does when it runs without failure.\<close>

lemma pg_write_cases:
  assumes "pg_write env stmt t = (r, t')"
  shows "t' = t \<or> (\<exists>x. stmt t = Inr (x, t'))"
  using assms
  by (auto simp: pg_write_def split: option.splits db_fault.splits sum.splits if_splits prod.splits)

lemma pg_write_Inr:
  "pg_write env stmt t = (Inr x, t') \<longleftrightarrow> pg_write_fault env = None \<and> stmt t = Inr (x, t')"
  by (auto simp: pg_write_def split: option.splits db_fault.splits sum.splits)

lemma pg_write_no_fault:
  "pg_write_fault env = None \<Longrightarrow>
     pg_write env stmt t = (case stmt t of Inl e \<Rightarrow> (Inl e, t) | Inr (x, t') \<Rightarrow> (Inr x, t'))"
  by (simp add: pg_write_def)

lemma pg_write_no_rows:
  "pg_write env stmt t = (Inl e, t') \<Longrightarrow> is_no_rows e \<Longrightarrow> t' = t \<and> stmt t = Inl e"
  by (auto simp: pg_write_def split: option.splits db_fault.splits sum.splits)

lemma faulty_write_Inr: "faulty_write env fault stmt t = (Inr x, t') \<longleftrightarrow> fault = None \<and> stmt t = Inr (x, t')"
  by (simp add: faulty_write_def pg_write_Inr)

lemma faulty_write_effect:
  "snd (faulty_write env fault stmt t) = t \<or> (\<exists>x. stmt t = Inr (x, snd (faulty_write env fault stmt t)))"
  unfolding faulty_write_def by (metis pg_write_cases prod.collapse)

lemma faulty_read_Inr: "faulty_read env fault query t = (Inr x, t') \<longleftrightarrow> fault = None \<and> query t = Inr x \<and> t' = t"
  by (auto simp: faulty_read_def pg_read_def split: option.splits)

lemma snd_faulty_read [simp]: "snd (faulty_read env fault query t) = t"
  by (simp add: faulty_read_def)

lemma with_uuid_Inr: "with_uuid env s k = Inr x \<longleftrightarrow> (\<exists>u. pg_uuid env s = Some u \<and> k u = Inr x)"
  by (simp add: with_uuid_def split: option.splits)

lemma with_uuid_Some [simp]: "pg_uuid env s = Some u \<Longrightarrow> with_uuid env s k = k u"
  by (simp add: with_uuid_def)

lemma update_returning_Inr:
  "update_returning p f violated rows = Inr (x, rows') \<longleftrightarrow>
     (\<exists>r. find p rows = Some r \<and> violated (f r) = None \<and> x = f r \<and> rows' = update_where p f rows)"
  by (auto simp: update_returning_def split: option.splits)

lemma insert_returning_Inr:
  "insert_returning violated r rows = Inr (x, rows') \<longleftrightarrow>
     violated r rows = None \<and> x = r \<and> rows' = rows @ [r]"
  by (auto simp: insert_returning_def split: option.splits)

lemmas statement_rules = with_uuid_Inr update_returning_Inr insert_returning_Inr

lemma on_executor_Inr:
  "on_executor env body t = (Inr x, t') \<longleftrightarrow> pg_executor env = None \<and> body t = (Inr x, t')"
  by (auto simp: on_executor_def split: option.splits)

text \<open>In a table with a key, an update that fixes the key touches one row at most.\<close>

lemma update_where_key_unique:
  assumes "distinct (map key rows)" and "find p rows = Some r" and "\<And>x. p x \<Longrightarrow> key x = k"
    and "x \<in> set rows" and "p x"
  shows "x = r"
proof -
  from assms(2) have "r \<in> set rows" "p r" by (auto simp: find_Some_iff)
  with assms(3-5) have "key x = key r" by simp
  with assms(1,4) \<open>r \<in> set rows\<close> show ?thesis by (auto simp: distinct_map inj_on_def)
qed

lemma ball_update_where:
  "(\<And>r. r \<in> set rows \<Longrightarrow> p r \<Longrightarrow> P (f r)) \<Longrightarrow> \<forall>r \<in> set rows. P r \<Longrightarrow> \<forall>r \<in> set (update_where p f rows). P r"
  by (auto simp: update_where_def)

lemma in_update_where_other: "r \<in> set rows \<Longrightarrow> \<not> p r \<Longrightarrow> r \<in> set (update_where p f rows)"
  by (force simp: update_where_def)

lemma in_update_where_hit: "r \<in> set rows \<Longrightarrow> p r \<Longrightarrow> f r \<in> set (update_where p f rows)"
  by (force simp: update_where_def)

end
