(* ===== verification/Leases.thy ===== *)
theory Leases
  imports Postgres
begin

text \<open>
  The contract of a table whose rows are worked on under a lease: a row is taken when it is open and
  due or when its lease has run out, only the holder of a running lease finishes it, a settled row is
  never touched again and a dead one only by reopening it. The outbox and the ledger of inbound events
  are instances; the lemmas below hold for both.
\<close>

datatype lease_label =
    LInsert
  | LTake string string time
  | LFinish string string
  | LReopen

text \<open>The token of a lease as the database compares it.\<close>

definition canonical_token :: "pg_env \<Rightarrow> string \<Rightarrow> string" where
  "canonical_token env t = (case pg_uuid env t of None \<Rightarrow> t | Some u \<Rightarrow> u)"

locale leased_rows =
  fixes key :: "'r \<Rightarrow> string"
    and holder :: "'r \<Rightarrow> (string \<times> string \<times> time) option"
    and settled :: "'r \<Rightarrow> bool"
    and dead :: "'r \<Rightarrow> bool"
    and attempts :: "'r \<Rightarrow> int"
    and claim_where :: "time \<Rightarrow> 'r \<Rightarrow> bool"
    and claim_set :: "time \<Rightarrow> string \<Rightarrow> string \<Rightarrow> time \<Rightarrow> 'r \<Rightarrow> 'r"
  assumes claim_set_key [simp]: "key (claim_set now own tok e r) = key r"
    and claim_set_holder [simp]: "holder (claim_set now own tok e r) = Some (own, tok, e)"
    and claim_set_attempts [simp]: "attempts (claim_set now own tok e r) = attempts r + 1"
    and claim_where_free: "claim_where now r \<Longrightarrow> holder r = Some (own, tok, e) \<Longrightarrow> e \<le> now"
    and claim_where_open: "claim_where now r \<Longrightarrow> \<not> settled r \<and> \<not> dead r"
    and settled_free: "settled r \<Longrightarrow> holder r = None \<and> \<not> dead r"
    and dead_free: "dead r \<Longrightarrow> holder r = None"
begin

definition lease_where :: "time \<Rightarrow> string \<Rightarrow> string \<Rightarrow> 'r \<Rightarrow> bool" where
  "lease_where now own tok r \<longleftrightarrow> (\<exists>e. holder r = Some (own, tok, e) \<and> now < e)"

text \<open>One abstract step: the actor's label, the database's clock, the table before and after. An
  operation that fails or finds nothing to do leaves the table as it is, whatever its label.\<close>

inductive lease_step :: "time \<Rightarrow> lease_label \<Rightarrow> 'r list \<Rightarrow> 'r list \<Rightarrow> bool" where
  idle: "lease_step now l rows rows"
| insert: "key r \<notin> key ` set rows \<Longrightarrow> holder r = None \<Longrightarrow> \<not> settled r \<Longrightarrow>
     lease_step now LInsert rows (rows @ [r])"
| take: "(\<And>x. p x \<Longrightarrow> key x = k \<and> claim_where now x) \<Longrightarrow>
     lease_step now (LTake own tok e) rows (update_where p (claim_set now own tok e) rows)"
| finish: "(\<And>x. p x \<Longrightarrow> key x = k \<and> lease_where now own tok x) \<Longrightarrow>
     (\<And>x. p x \<Longrightarrow> key (f x) = key x \<and> holder (f x) = None) \<Longrightarrow>
     lease_step now (LFinish own tok) rows (update_where p f rows)"
| reopen: "(\<And>x. p x \<Longrightarrow> key x = k \<and> dead x) \<Longrightarrow>
     (\<And>x. p x \<Longrightarrow> key (f x) = key x \<and> holder (f x) = None) \<Longrightarrow>
     lease_step now LReopen rows (update_where p f rows)"

lemma held_not_claimable: "holder r = Some (own, tok, e) \<Longrightarrow> now < e \<Longrightarrow> \<not> claim_where now r"
  using claim_where_free by fastforce

lemma claimed_is_held: "now < e \<Longrightarrow> lease_where now own tok (claim_set now' own tok e r)"
  by (simp add: lease_where_def)

lemma foreign_lease: "holder r = Some (own, tok, e) \<Longrightarrow> (own', tok') \<noteq> (own, tok) \<Longrightarrow> \<not> lease_where now own' tok' r"
  by (auto simp: lease_where_def)

text \<open>Keys stay unique, and a settled row survives every step unchanged.\<close>

lemma lease_step_keys: "lease_step now l rows rows' \<Longrightarrow> distinct (map key rows) \<Longrightarrow> distinct (map key rows')"
proof (induction rule: lease_step.induct)
  case (take p k now own tok e rows)
  then show ?case by (simp add: map_key_update_where)
next
  case (finish p k now own tok f rows)
  then show ?case by (metis map_key_update_where)
next
  case (reopen p k f now rows)
  then show ?case by (metis map_key_update_where)
qed auto

lemma lease_step_settled: "lease_step now l rows rows' \<Longrightarrow> r \<in> set rows \<Longrightarrow> settled r \<Longrightarrow> r \<in> set rows'"
proof (induction rule: lease_step.induct)
  case (take p k now own tok e rows)
  then have "\<not> p r" using claim_where_open by blast
  with take show ?case by (simp add: in_update_where_other)
next
  case (finish p k now own tok f rows)
  then have "\<not> p r" using settled_free by (force simp: lease_where_def)
  with finish show ?case by (simp add: in_update_where_other)
next
  case (reopen p k f now rows)
  then have "\<not> p r" using settled_free by blast
  with reopen show ?case by (simp add: in_update_where_other)
qed auto

text \<open>A dead row is changed by reopening it only.\<close>

lemma lease_step_dead:
  "lease_step now l rows rows' \<Longrightarrow> r \<in> set rows \<Longrightarrow> dead r \<Longrightarrow> l \<noteq> LReopen \<Longrightarrow> r \<in> set rows'"
proof (induction rule: lease_step.induct)
  case (take p k now own tok e rows)
  then have "\<not> p r" using claim_where_open by blast
  with take show ?case by (simp add: in_update_where_other)
next
  case (finish p k now own tok f rows)
  then have "\<not> p r" using dead_free by (force simp: lease_where_def)
  with finish show ?case by (simp add: in_update_where_other)
qed auto

text \<open>While a lease runs, only its holder changes the row.\<close>

lemma lease_step_held:
  "lease_step now l rows rows' \<Longrightarrow> r \<in> set rows \<Longrightarrow> holder r = Some (own, tok, e) \<Longrightarrow> now < e \<Longrightarrow>
     l \<noteq> LFinish own tok \<Longrightarrow> r \<in> set rows'"
proof (induction rule: lease_step.induct)
  case (take p k now own' tok' e' rows)
  then have "\<not> p r" using held_not_claimable by blast
  with take show ?case by (simp add: in_update_where_other)
next
  case (finish p k now own' tok' f rows)
  then have "\<not> p r" using foreign_lease by blast
  with finish show ?case by (simp add: in_update_where_other)
next
  case (reopen p k f now rows)
  then have "\<not> p r" using dead_free by force
  with reopen show ?case by (simp add: in_update_where_other)
qed auto

text \<open>The same along any interleaving of operations, given as a list of steps.\<close>

fun lease_run :: "(time \<times> lease_label) list \<Rightarrow> 'r list \<Rightarrow> 'r list \<Rightarrow> bool" where
  "lease_run [] rows rows' = (rows' = rows)"
| "lease_run ((now, l) # ls) rows rows' = (\<exists>mid. lease_step now l rows mid \<and> lease_run ls mid rows')"

lemma lease_run_keys: "lease_run ls rows rows' \<Longrightarrow> distinct (map key rows) \<Longrightarrow> distinct (map key rows')"
  by (induction ls rows rows' rule: lease_run.induct) (auto dest: lease_step_keys)

lemma lease_run_settled: "lease_run ls rows rows' \<Longrightarrow> r \<in> set rows \<Longrightarrow> settled r \<Longrightarrow> r \<in> set rows'"
  by (induction ls rows rows' rule: lease_run.induct) (auto dest: lease_step_settled)

lemma lease_run_dead:
  "lease_run ls rows rows' \<Longrightarrow> r \<in> set rows \<Longrightarrow> dead r \<Longrightarrow> LReopen \<notin> snd ` set ls \<Longrightarrow> r \<in> set rows'"
  by (induction ls rows rows' rule: lease_run.induct) (auto dest: lease_step_dead)

lemma lease_run_held:
  "lease_run ls rows rows' \<Longrightarrow> r \<in> set rows \<Longrightarrow> holder r = Some (own, tok, e) \<Longrightarrow>
     (\<And>now l. (now, l) \<in> set ls \<Longrightarrow> now < e \<and> l \<noteq> LFinish own tok) \<Longrightarrow> r \<in> set rows'"
proof (induction ls rows rows' rule: lease_run.induct)
  case (2 now l ls rows rows')
  then obtain mid where "lease_step now l rows mid" "lease_run ls mid rows'" by auto
  with 2 show ?case using lease_step_held [of now l rows mid r own tok e] by fastforce
qed simp

end

end
