(* ===== verification/Inbound_Ledger.thy ===== *)
theory Inbound_Ledger
  imports Leases
begin

text \<open>
  The ledger of inbound provider events: the table \<^verbatim>\<open>inbound_event_ledger\<close> of \<^verbatim>\<open>schema.sql\<close> and the
  store \<^verbatim>\<open>InboundEventStore\<close> of \<^verbatim>\<open>postgres/event_store.go\<close>, with the records of
  \<^verbatim>\<open>ports/event_store.go\<close>. \<^verbatim>\<open>Get\<close> and \<^verbatim>\<open>List\<close>, which only read, are left out.
\<close>

section \<open>Data\<close>

record inbound_event =
  ie_ID :: string
  ie_ProviderRef :: string
  ie_ProviderConnectionRef :: string
  ie_ProviderEventID :: string
  ie_DedupeStrategy :: string
  ie_BusinessID :: "string option"
  ie_ConnectionID :: "string option"
  ie_EventType :: string
  ie_InteractionKind :: "string option"
  ie_ProviderMessageID :: "string option"
  ie_ProviderConversationID :: "string option"
  ie_ExternalUserID :: "string option"
  ie_ContentReference :: "string option"
  ie_ExternalCreatedAt :: "time option"
  ie_ReceivedAt :: time
  ie_RawPayloadReference :: string
  ie_PayloadHash :: string
  ie_SignatureVerified :: bool
  ie_ProcessingState :: string
  ie_ProcessingOwner :: "string option"
  ie_ProcessingLeaseToken :: "string option"
  ie_LeaseExpiresAt :: "time option"
  ie_AttemptCount :: int
  ie_LastErrorCode :: "string option"
  ie_NextAttemptAt :: "time option"
  ie_ProcessingResultCode :: "string option"
  ie_ProcessedAt :: "time option"
  ie_CreatedAt :: time
  ie_UpdatedAt :: time

record inbound_draft =
  id_ID :: string
  id_ProviderRef :: string
  id_ProviderConnectionRef :: string
  id_ProviderEventID :: string
  id_DedupeStrategy :: string
  id_BusinessID :: "string option"
  id_ConnectionID :: "string option"
  id_EventType :: string
  id_InteractionKind :: "string option"
  id_ProviderMessageID :: "string option"
  id_ProviderConversationID :: "string option"
  id_ExternalUserID :: "string option"
  id_ContentReference :: "string option"
  id_ExternalCreatedAt :: "time option"
  id_ReceivedAt :: time
  id_RawPayloadReference :: string
  id_PayloadHash :: string
  id_SignatureVerified :: bool
  id_ProcessingState :: string
  id_NextAttemptAt :: "time option"
  id_CreatedAt :: time
  id_UpdatedAt :: time

record inbound_lease =
  il_Owner :: string
  il_Token :: string
  il_ExpiresAt :: time

record inbound_claim_result =
  ic_Claimed :: bool
  ic_Record :: inbound_event

record inbound_completion =
  ip_Owner :: string
  ip_Token :: string
  ip_ResultCode :: string
  ip_ProcessedAt :: time
  ip_UpdatedAt :: time

record inbound_failure =
  if_Owner :: string
  if_Token :: string
  if_ErrorCode :: string
  if_NextAttempt :: "time option"
  if_UpdatedAt :: time

section \<open>Constraints of the table\<close>

definition inbound_checks :: "inbound_event \<Rightarrow> bool" where
  "inbound_checks r \<longleftrightarrow>
     0 \<le> ie_AttemptCount r \<and> sql_nonblank (ie_ProviderConnectionRef r) \<and>
     ie_DedupeStrategy r \<in> {''provider_event_id'', ''provider_specific_fallback'', ''dedupe_uncertain''} \<and>
     (ie_DedupeStrategy r = ''dedupe_uncertain'' \<longrightarrow>
        ie_ProcessingState r \<in> {''unresolved'', ''retryable_failed'', ''dead_letter'', ''rejected''}) \<and>
     sql_nonblank (ie_ProviderEventID r) \<and>
     (case ie_InteractionKind r of None \<Rightarrow> True
      | Some k \<Rightarrow> k \<in> {''dm'', ''comment'', ''story_reply'', ''mention'', ''review'', ''postback'', ''other''}) \<and>
     (if ie_ProcessingState r = ''processing'' then ie_ProcessingOwner r \<noteq> None \<and> ie_LeaseExpiresAt r \<noteq> None
      else ie_ProcessingOwner r = None \<and> ie_LeaseExpiresAt r = None) \<and>
     (ie_ProcessingState r = ''processing'' \<longleftrightarrow> ie_ProcessingLeaseToken r \<noteq> None) \<and>
     (ie_ProcessingState r = ''processed'' \<longleftrightarrow> ie_ProcessedAt r \<noteq> None) \<and>
     ie_ProcessingState r \<in> {''received'', ''unresolved'', ''processing'', ''processed'', ''retryable_failed'',
       ''dead_letter'', ''rejected''} \<and>
     sql_nonblank (ie_ProviderRef r) \<and>
     (ie_BusinessID r = None \<longleftrightarrow> ie_ConnectionID r = None) \<and>
     (case ie_ProcessingResultCode r of None \<Rightarrow> True | Some c \<Rightarrow> sql_nonblank c) \<and>
     (ie_SignatureVerified r \<or> ie_ProcessingState r \<in> {''unresolved'', ''rejected''}) \<and>
     ie_EventType r \<in> {''interaction_received'', ''interaction_updated'', ''delivery_status_changed'',
       ''conversation_updated'', ''account_status_changed''}"

definition inbound_violated :: "inbound_event \<Rightarrow> string option" where
  "inbound_violated r =
     (if 2147483647 < ie_AttemptCount r then Some out_of_range
      else if \<not> inbound_checks r then Some check_violation else None)"

abbreviation ie_event_key :: "inbound_event \<Rightarrow> string \<times> string \<times> string" where
  "ie_event_key r \<equiv> (ie_ProviderRef r, ie_ProviderConnectionRef r, ie_ProviderEventID r)"

section \<open>Operations\<close>

definition validate_inbound_draft :: "inbound_draft \<Rightarrow> unit result" where
  "validate_inbound_draft d =
     (if id_ID d = '''' \<or> id_ProviderRef d = '''' \<or> id_ProviderConnectionRef d = '''' \<or> id_ProviderEventID d = '''' \<or>
         id_DedupeStrategy d = '''' \<or> id_EventType d = '''' \<or> id_ProcessingState d = '''' \<or>
         id_RawPayloadReference d = '''' \<or> id_PayloadHash d = '''' \<or> is_zero (id_ReceivedAt d) \<or>
         is_zero (id_CreatedAt d) \<or> is_zero (id_UpdatedAt d)
      then Inl (invalid_repository_input ''inbound_event.record_if_absent'' ''identity, event type, state, payload reference/hash, and timestamps are required'')
      else if (id_BusinessID d = None) \<noteq> (id_ConnectionID d = None)
      then Inl (invalid_repository_input ''inbound_event.record_if_absent'' ''business and connection must be provided together'')
      else if \<not> id_SignatureVerified d \<and> id_ProcessingState d \<noteq> ''unresolved'' \<and> id_ProcessingState d \<noteq> ''rejected''
      then Inl (invalid_repository_input ''inbound_event.record_if_absent'' ''unverified event must be unresolved or rejected'')
      else Inr ())"

definition with_uuid_option :: "pg_env \<Rightarrow> string option \<Rightarrow> (string option \<Rightarrow> 'a result) \<Rightarrow> 'a result" where
  "with_uuid_option env s k = (case s of None \<Rightarrow> k None | Some t \<Rightarrow> with_uuid env t (\<lambda>u. k (Some u)))"

definition new_event :: "pg_env \<Rightarrow> string \<Rightarrow> string option \<Rightarrow> string option \<Rightarrow> inbound_draft \<Rightarrow> inbound_event" where
  "new_event env event business connection d =
     \<lparr>ie_ID = event, ie_ProviderRef = id_ProviderRef d,
      ie_ProviderConnectionRef = id_ProviderConnectionRef d,
      ie_ProviderEventID = id_ProviderEventID d, ie_DedupeStrategy = id_DedupeStrategy d,
      ie_BusinessID = business, ie_ConnectionID = connection, ie_EventType = id_EventType d,
      ie_InteractionKind = id_InteractionKind d,
      ie_ProviderMessageID = id_ProviderMessageID d,
      ie_ProviderConversationID = id_ProviderConversationID d,
      ie_ExternalUserID = id_ExternalUserID d, ie_ContentReference = id_ContentReference d,
      ie_ExternalCreatedAt = map_option (pg_ts env) (id_ExternalCreatedAt d),
      ie_ReceivedAt = pg_ts env (id_ReceivedAt d),
      ie_RawPayloadReference = id_RawPayloadReference d, ie_PayloadHash = id_PayloadHash d,
      ie_SignatureVerified = id_SignatureVerified d,
      ie_ProcessingState = id_ProcessingState d, ie_ProcessingOwner = None,
      ie_ProcessingLeaseToken = None, ie_LeaseExpiresAt = None, ie_AttemptCount = 0,
      ie_LastErrorCode = None,
      ie_NextAttemptAt = map_option (pg_ts env) (id_NextAttemptAt d),
      ie_ProcessingResultCode = None, ie_ProcessedAt = None,
      ie_CreatedAt = pg_ts env (id_CreatedAt d), ie_UpdatedAt = pg_ts env (id_CreatedAt d)\<rparr>"

text \<open>\<^verbatim>\<open>INSERT ... ON CONFLICT (provider_ref, provider_connection_ref, provider_event_id) DO NOTHING
  RETURNING ...\<close>: no row when the event is known. \<open>connection_exists\<close> is the referenced connection of the
  business.\<close>

definition record_stmt ::
  "pg_env \<Rightarrow> (string \<Rightarrow> string \<Rightarrow> bool) \<Rightarrow> inbound_draft \<Rightarrow> inbound_event list \<Rightarrow> (inbound_event \<times> inbound_event list) result" where
  "record_stmt env connection_exists d rows =
     with_uuid env (id_ID d) (\<lambda>event.
       with_uuid_option env (id_BusinessID d) (\<lambda>business.
         with_uuid_option env (id_ConnectionID d) (\<lambda>connection.
           let r = new_event env event business connection d in
           case inbound_violated r of
             Some code \<Rightarrow> Inl (PgError code)
           | None \<Rightarrow>
               if ie_event_key r \<in> ie_event_key ` set rows then Inl ErrNoRows
               else if event \<in> ie_ID ` set rows then Inl (PgError unique_violation)
               else (case (business, connection) of
                       (Some b, Some c) \<Rightarrow>
                         if connection_exists b c then Inr (r, rows @ [r]) else Inl (PgError foreign_key_violation)
                     | _ \<Rightarrow> Inr (r, rows @ [r])))))"

definition record_if_absent ::
  "pg_env \<Rightarrow> (string \<Rightarrow> string \<Rightarrow> bool) \<Rightarrow> inbound_draft \<Rightarrow> inbound_event list \<Rightarrow> (bool \<times> inbound_event) result \<times> inbound_event list" where
  "record_if_absent env connection_exists d =
     on_executor env (\<lambda>rows.
       case validate_inbound_draft d of
         Inl e \<Rightarrow> (Inl e, rows)
       | Inr _ \<Rightarrow>
           (case pg_write env (record_stmt env connection_exists d) rows of
              (Inr r, rows') \<Rightarrow> (Inr (True, r), rows')
            | (Inl e, rows') \<Rightarrow>
                if \<not> is_no_rows e
                then (Inl (classify_repository_write_error ''inbound_event.record_if_absent'' e), rows')
                else (case pg_read env (select_one (\<lambda>r. ie_event_key r =
                             (id_ProviderRef d, id_ProviderConnectionRef d, id_ProviderEventID d))) rows' of
                        Inl e' \<Rightarrow> (Inl (classify_repository_get_error ''inbound_event.record_if_absent'' e'), rows')
                      | Inr r \<Rightarrow> (Inr (False, r), rows'))))"

definition ie_claim_where :: "time \<Rightarrow> inbound_event \<Rightarrow> bool" where
  "ie_claim_where now r \<longleftrightarrow>
     (ie_ProcessingState r \<in> {''received'', ''retryable_failed''} \<and>
       (ie_NextAttemptAt r = None \<or> sql_le (ie_NextAttemptAt r) now)) \<or>
     (ie_ProcessingState r = ''processing'' \<and> sql_le (ie_LeaseExpiresAt r) now)"

definition ie_claim_set :: "time \<Rightarrow> string \<Rightarrow> string \<Rightarrow> time \<Rightarrow> inbound_event \<Rightarrow> inbound_event" where
  "ie_claim_set now own tok e r =
     r\<lparr>ie_ProcessingState := ''processing'', ie_ProcessingOwner := Some own, ie_ProcessingLeaseToken := Some tok,
       ie_LeaseExpiresAt := Some e, ie_AttemptCount := ie_AttemptCount r + 1, ie_UpdatedAt := now\<rparr>"

definition ie_claim_stmt ::
  "pg_env \<Rightarrow> string \<Rightarrow> inbound_lease \<Rightarrow> inbound_event list \<Rightarrow> (inbound_event \<times> inbound_event list) result" where
  "ie_claim_stmt env eventID lease rows =
     with_uuid env eventID (\<lambda>event. with_uuid env (il_Token lease) (\<lambda>tok.
       update_returning (\<lambda>r. ie_ID r = event \<and> ie_claim_where (pg_now env) r)
         (ie_claim_set (pg_now env) (il_Owner lease) tok (pg_ts env (il_ExpiresAt lease)))
         inbound_violated rows))"

definition select_event :: "pg_env \<Rightarrow> string \<Rightarrow> inbound_event list \<Rightarrow> inbound_event result" where
  "select_event env eventID =
     pg_read env (\<lambda>rows. with_uuid env eventID (\<lambda>event. select_one (\<lambda>r. ie_ID r = event) rows))"

definition claim_event ::
  "pg_env \<Rightarrow> string \<Rightarrow> inbound_lease \<Rightarrow> inbound_event list \<Rightarrow> inbound_claim_result result \<times> inbound_event list" where
  "claim_event env eventID lease =
     on_executor env (\<lambda>rows.
       if blank eventID \<or> blank (il_Owner lease) \<or> blank (il_Token lease) \<or>
          is_zero (il_ExpiresAt lease) \<or> \<not> go_now env < il_ExpiresAt lease
       then (Inl (invalid_repository_input ''inbound_event.claim'' ''event id, owner, token, and lease expiry are required''), rows)
       else (case pg_write env (ie_claim_stmt env eventID lease) rows of
               (Inr r, rows') \<Rightarrow> (Inr \<lparr>ic_Claimed = True, ic_Record = r\<rparr>, rows')
             | (Inl e, rows') \<Rightarrow>
                 if \<not> is_no_rows e then (Inl (classify_repository_write_error ''inbound_event.claim'' e), rows')
                 else (case select_event env eventID rows' of
                         Inl e' \<Rightarrow> (Inl (classify_repository_get_error ''inbound_event.claim'' e'), rows')
                       | Inr r \<Rightarrow> (Inr \<lparr>ic_Claimed = False, ic_Record = r\<rparr>, rows'))))"

definition classify_lease_mutation_miss ::
  "pg_env \<Rightarrow> string \<Rightarrow> string \<Rightarrow> string \<Rightarrow> string \<Rightarrow> inbound_event list \<Rightarrow> go_error" where
  "classify_lease_mutation_miss env operation eventID own token0 rows =
     (case select_event env eventID rows of
        Inl e \<Rightarrow> if is_no_rows e then RepositoryError operation RepositoryNotFound e
                 else classify_repository_write_error operation e
      | Inr r \<Rightarrow>
          if ie_ProcessingState r \<noteq> ''processing'' \<or> ie_ProcessingOwner r \<noteq> Some own \<or>
             ie_ProcessingLeaseToken r \<noteq> Some token0
          then RepositoryError operation RepositoryConflict (PlainError ''event is not owned by active lease'')
          else RepositoryError operation RepositoryConflict (PlainError ''event lease mutation was rejected''))"

definition ie_lease_where :: "time \<Rightarrow> string \<Rightarrow> string \<Rightarrow> inbound_event \<Rightarrow> bool" where
  "ie_lease_where now own tok r \<longleftrightarrow>
     ie_ProcessingState r = ''processing'' \<and> ie_ProcessingOwner r = Some own \<and>
     ie_ProcessingLeaseToken r = Some tok \<and> sql_gt (ie_LeaseExpiresAt r) now"

definition ie_lease_stmt ::
  "pg_env \<Rightarrow> string \<Rightarrow> string \<Rightarrow> string \<Rightarrow> (inbound_event \<Rightarrow> inbound_event) \<Rightarrow> inbound_event list \<Rightarrow>
   (inbound_event \<times> inbound_event list) result" where
  "ie_lease_stmt env eventID own token0 set_clause rows =
     with_uuid env eventID (\<lambda>event. with_uuid env token0 (\<lambda>tok.
       update_returning (\<lambda>r. ie_ID r = event \<and> ie_lease_where (pg_now env) own tok r) set_clause
         inbound_violated rows))"

definition ie_update_with_lease ::
  "pg_env \<Rightarrow> string \<Rightarrow> string \<Rightarrow> string \<Rightarrow> string \<Rightarrow> (inbound_event \<Rightarrow> inbound_event) \<Rightarrow>
   inbound_event list \<Rightarrow> inbound_event result \<times> inbound_event list" where
  "ie_update_with_lease env operation eventID own token0 set_clause =
     on_executor env (\<lambda>rows.
       if eventID = '''' \<or> own = '''' \<or> token0 = ''''
       then (Inl (invalid_repository_input operation ''event id, owner, and token are required''), rows)
       else (case pg_write env (ie_lease_stmt env eventID own token0 set_clause) rows of
               (Inr r, rows') \<Rightarrow> (Inr r, rows')
             | (Inl e, rows') \<Rightarrow>
                 if \<not> is_no_rows e then (Inl (classify_repository_write_error operation e), rows')
                 else (Inl (classify_lease_mutation_miss env operation eventID own token0 rows'), rows')))"

definition set_processed :: "pg_env \<Rightarrow> inbound_completion \<Rightarrow> inbound_event \<Rightarrow> inbound_event" where
  "set_processed env c r =
     r\<lparr>ie_ProcessingState := ''processed'', ie_ProcessingOwner := None, ie_ProcessingLeaseToken := None,
       ie_LeaseExpiresAt := None, ie_ProcessingResultCode := Some (ip_ResultCode c),
       ie_ProcessedAt := Some (pg_ts env (ip_ProcessedAt c)), ie_LastErrorCode := None,
       ie_NextAttemptAt := None, ie_UpdatedAt := pg_ts env (ip_UpdatedAt c)\<rparr>"

definition ie_set_retryable :: "pg_env \<Rightarrow> inbound_failure \<Rightarrow> time \<Rightarrow> inbound_event \<Rightarrow> inbound_event" where
  "ie_set_retryable env f next_attempt r =
     r\<lparr>ie_ProcessingState := ''retryable_failed'', ie_ProcessingOwner := None, ie_ProcessingLeaseToken := None,
       ie_LeaseExpiresAt := None, ie_ProcessingResultCode := None, ie_ProcessedAt := None,
       ie_LastErrorCode := Some (if_ErrorCode f), ie_NextAttemptAt := Some (pg_ts env next_attempt),
       ie_UpdatedAt := pg_ts env (if_UpdatedAt f)\<rparr>"

definition ie_set_dead :: "pg_env \<Rightarrow> inbound_failure \<Rightarrow> inbound_event \<Rightarrow> inbound_event" where
  "ie_set_dead env f r =
     r\<lparr>ie_ProcessingState := ''dead_letter'', ie_ProcessingOwner := None, ie_ProcessingLeaseToken := None,
       ie_LeaseExpiresAt := None, ie_ProcessingResultCode := None, ie_ProcessedAt := None,
       ie_LastErrorCode := Some (if_ErrorCode f), ie_NextAttemptAt := None,
       ie_UpdatedAt := pg_ts env (if_UpdatedAt f)\<rparr>"

definition mark_processed ::
  "pg_env \<Rightarrow> string \<Rightarrow> inbound_completion \<Rightarrow> inbound_event list \<Rightarrow> inbound_event result \<times> inbound_event list" where
  "mark_processed env eventID c rows =
     (if ip_ResultCode c = '''' \<or> ip_Owner c = '''' \<or> ip_Token c = '''' \<or> is_zero (ip_ProcessedAt c) \<or>
         is_zero (ip_UpdatedAt c)
      then (Inl (invalid_repository_input ''inbound_event.mark_processed'' ''owner, token, result, and timestamps are required''), rows)
      else ie_update_with_lease env ''inbound_event.mark_processed'' eventID (ip_Owner c) (ip_Token c) (set_processed env c) rows)"

definition ie_mark_retryable_failure ::
  "pg_env \<Rightarrow> string \<Rightarrow> inbound_failure \<Rightarrow> inbound_event list \<Rightarrow> inbound_event result \<times> inbound_event list" where
  "ie_mark_retryable_failure env eventID f rows =
     (case if_NextAttempt f of
        Some next_attempt \<Rightarrow>
          if if_ErrorCode f = '''' \<or> if_Owner f = '''' \<or> if_Token f = '''' \<or> is_zero (if_UpdatedAt f)
          then (Inl (invalid_repository_input ''inbound_event.mark_retryable_failure'' ''owner, token, error, next attempt, and timestamp are required''), rows)
          else ie_update_with_lease env ''inbound_event.mark_retryable_failure'' eventID (if_Owner f) (if_Token f)
                 (ie_set_retryable env f next_attempt) rows
      | None \<Rightarrow> (Inl (invalid_repository_input ''inbound_event.mark_retryable_failure'' ''owner, token, error, next attempt, and timestamp are required''), rows))"

definition ie_move_to_dead_letter ::
  "pg_env \<Rightarrow> string \<Rightarrow> inbound_failure \<Rightarrow> inbound_event list \<Rightarrow> inbound_event result \<times> inbound_event list" where
  "ie_move_to_dead_letter env eventID f rows =
     (if if_ErrorCode f = '''' \<or> if_Owner f = '''' \<or> if_Token f = '''' \<or> is_zero (if_UpdatedAt f)
      then (Inl (invalid_repository_input ''inbound_event.dead_letter'' ''owner, token, error, and timestamp are required''), rows)
      else ie_update_with_lease env ''inbound_event.dead_letter'' eventID (if_Owner f) (if_Token f) (ie_set_dead env f) rows)"

section \<open>The ledger as a leased table\<close>

definition ie_holder :: "inbound_event \<Rightarrow> (string \<times> string \<times> time) option" where
  "ie_holder r =
     (if ie_ProcessingState r = ''processing''
      then (case (ie_ProcessingOwner r, ie_ProcessingLeaseToken r, ie_LeaseExpiresAt r) of
              (Some own, Some tok, Some e) \<Rightarrow> Some (own, tok, e) | _ \<Rightarrow> None)
      else None)"

abbreviation ie_processed :: "inbound_event \<Rightarrow> bool" where
  "ie_processed r \<equiv> ie_ProcessingState r = ''processed''"

definition ie_parked :: "inbound_event \<Rightarrow> bool" where
  "ie_parked r \<longleftrightarrow> ie_ProcessingState r \<in> {''dead_letter'', ''rejected'', ''unresolved''}"

interpretation ie: leased_rows ie_ID ie_holder ie_processed ie_parked ie_AttemptCount ie_claim_where ie_claim_set
proof
  fix now own tok e r
  assume "ie_claim_where now r" "ie_holder r = Some (own, tok, e)"
  then show "e \<le> now"
    by (auto simp: ie_claim_where_def ie_holder_def split: if_splits option.splits)
qed (auto simp: ie_claim_set_def ie_holder_def ie_claim_where_def ie_parked_def)

lemma ie_holder_Some:
  "ie_holder r = Some (own, tok, e) \<longleftrightarrow>
     ie_ProcessingState r = ''processing'' \<and> ie_ProcessingOwner r = Some own \<and>
     ie_ProcessingLeaseToken r = Some tok \<and> ie_LeaseExpiresAt r = Some e"
  by (auto simp: ie_holder_def split: option.splits)

lemma ie_lease_where_holder: "ie_lease_where now own tok r \<longleftrightarrow> ie.lease_where now own tok r"
  by (cases "ie_LeaseExpiresAt r") (auto simp: ie_lease_where_def ie.lease_where_def ie_holder_Some)

datatype inbound_op =
    RecordIfAbsent inbound_draft
  | ClaimEvent string inbound_lease
  | MarkProcessed string inbound_completion
  | RetryEvent string inbound_failure
  | DeadLetterEvent string inbound_failure

fun inbound_exec ::
  "(string \<Rightarrow> string \<Rightarrow> bool) \<Rightarrow> pg_env \<times> inbound_op \<Rightarrow> inbound_event list \<Rightarrow> inbound_event list" where
  "inbound_exec ex (env, RecordIfAbsent d) rows = snd (record_if_absent env ex d rows)"
| "inbound_exec ex (env, ClaimEvent i l) rows = snd (claim_event env i l rows)"
| "inbound_exec ex (env, MarkProcessed i c) rows = snd (mark_processed env i c rows)"
| "inbound_exec ex (env, RetryEvent i f) rows = snd (ie_mark_retryable_failure env i f rows)"
| "inbound_exec ex (env, DeadLetterEvent i f) rows = snd (ie_move_to_dead_letter env i f rows)"

definition inbound_run ::
  "(string \<Rightarrow> string \<Rightarrow> bool) \<Rightarrow> (pg_env \<times> inbound_op) list \<Rightarrow> inbound_event list \<Rightarrow> inbound_event list" where
  "inbound_run ex ops rows = fold (inbound_exec ex) ops rows"

fun inbound_label :: "pg_env \<times> inbound_op \<Rightarrow> time \<times> lease_label" where
  "inbound_label (env, RecordIfAbsent d) = (pg_now env, LInsert)"
| "inbound_label (env, ClaimEvent i l) =
     (pg_now env, LTake (il_Owner l) (canonical_token env (il_Token l)) (pg_ts env (il_ExpiresAt l)))"
| "inbound_label (env, MarkProcessed i c) = (pg_now env, LFinish (ip_Owner c) (canonical_token env (ip_Token c)))"
| "inbound_label (env, RetryEvent i f) = (pg_now env, LFinish (if_Owner f) (canonical_token env (if_Token f)))"
| "inbound_label (env, DeadLetterEvent i f) = (pg_now env, LFinish (if_Owner f) (canonical_token env (if_Token f)))"

lemma inbound_label_no_reopen: "snd (inbound_label s) \<noteq> LReopen"
  by (cases s rule: inbound_label.cases) auto

lemma record_effect:
  "snd (record_if_absent env ex d rows) = rows \<or>
   (\<exists>x. record_stmt env ex d rows = Inr (x, snd (record_if_absent env ex d rows)))"
  using pg_write_cases [of env "record_stmt env ex d" rows]
  by (auto simp: record_if_absent_def on_executor_def split: option.splits prod.splits sum.splits)

lemma ie_claim_effect:
  "snd (claim_event env i l rows) = rows \<or>
   (\<exists>x. ie_claim_stmt env i l rows = Inr (x, snd (claim_event env i l rows)))"
  using pg_write_cases [of env "ie_claim_stmt env i l" rows]
  by (auto simp: claim_event_def on_executor_def split: option.splits prod.splits sum.splits)

lemma ie_update_with_lease_effect:
  "snd (ie_update_with_lease env operation i own tok f rows) = rows \<or>
   (\<exists>x. ie_lease_stmt env i own tok f rows = Inr (x, snd (ie_update_with_lease env operation i own tok f rows)))"
  using pg_write_cases [of env "ie_lease_stmt env i own tok f" rows]
  by (auto simp: ie_update_with_lease_def on_executor_def split: option.splits prod.splits sum.splits)

lemma with_uuid_option_Inr:
  "with_uuid_option env s k = Inr x \<Longrightarrow> \<exists>u. k u = Inr x"
  by (auto simp: with_uuid_option_def with_uuid_Inr split: option.splits)

lemma record_stmt_Inr:
  assumes "record_stmt env ex d rows = Inr (x, rows')"
  obtains event business connection where "x = new_event env event business connection d"
    and "rows' = rows @ [x]" and "inbound_violated x = None" and "ie_event_key x \<notin> ie_event_key ` set rows"
    and "event \<notin> ie_ID ` set rows"
proof -
  from assms obtain event business connection where
    "(let r = new_event env event business connection d in
           case inbound_violated r of
             Some code \<Rightarrow> Inl (PgError code)
           | None \<Rightarrow>
               if ie_event_key r \<in> ie_event_key ` set rows then Inl ErrNoRows
               else if event \<in> ie_ID ` set rows then Inl (PgError unique_violation)
               else (case (business, connection) of
                       (Some b, Some c) \<Rightarrow>
                         if ex b c then Inr (r, rows @ [r]) else Inl (PgError foreign_key_violation)
                     | _ \<Rightarrow> Inr (r, rows @ [r]))) = Inr (x, rows')"
    unfolding record_stmt_def with_uuid_Inr by (blast dest: with_uuid_option_Inr)
  then show thesis
    by (intro that [of event business connection])
      (auto simp: Let_def split: option.splits if_splits)
qed

lemma inbound_checks_lease:
  assumes "inbound_checks r"
  shows "ie_ProcessingState r = ''processing'' \<longleftrightarrow> ie_ProcessingOwner r \<noteq> None"
    and "ie_ProcessingState r = ''processing'' \<longleftrightarrow> ie_ProcessingLeaseToken r \<noteq> None"
    and "ie_ProcessingState r = ''processing'' \<longleftrightarrow> ie_LeaseExpiresAt r \<noteq> None"
    and "ie_ProcessingState r = ''processed'' \<longleftrightarrow> ie_ProcessedAt r \<noteq> None"
  using assms unfolding inbound_checks_def by (cases "ie_ProcessingState r = ''processing''"; simp)+

section \<open>Every operation is a lease step\<close>

lemma new_event_simps [simp]:
  "ie_ID (new_event env event business connection d) = event"
  "ie_event_key (new_event env event business connection d) =
     (id_ProviderRef d, id_ProviderConnectionRef d, id_ProviderEventID d)"
  "ie_ProcessedAt (new_event env event business connection d) = None"
  "ie_ProcessingOwner (new_event env event business connection d) = None"
  "ie_ProcessingState (new_event env event business connection d) = id_ProcessingState d"
  by (simp_all add: new_event_def)

lemma record_step: "ie.lease_step now LInsert rows (snd (record_if_absent env ex d rows))"
  using record_effect [of env ex d rows]
proof (elim disjE exE)
  fix x assume "record_stmt env ex d rows = Inr (x, snd (record_if_absent env ex d rows))"
  then obtain event business connection where x: "x = new_event env event business connection d"
    and rows': "snd (record_if_absent env ex d rows) = rows @ [x]" and ok: "inbound_violated x = None"
    and fresh: "event \<notin> ie_ID ` set rows"
    by (rule record_stmt_Inr)
  have "inbound_checks x" using ok by (simp add: inbound_violated_def split: if_splits)
  from inbound_checks_lease [OF this] have "ie_ProcessingState x \<noteq> ''processed''"
    "ie_ProcessingState x \<noteq> ''processing''" unfolding x new_event_simps by simp_all
  then have "ie_holder x = None" "\<not> ie_processed x" by (simp_all add: ie_holder_def)
  with x fresh ie.lease_step.insert [of x rows now] show ?thesis by (simp add: rows')
qed (simp add: ie.lease_step.idle)

lemma ie_claim_step:
  "ie.lease_step (pg_now env)
     (LTake (il_Owner l) (canonical_token env (il_Token l)) (pg_ts env (il_ExpiresAt l)))
     rows (snd (claim_event env i l rows))"
  using ie_claim_effect [of env i l rows]
proof (elim disjE exE)
  fix x assume "ie_claim_stmt env i l rows = Inr (x, snd (claim_event env i l rows))"
  then obtain event tok where "pg_uuid env (il_Token l) = Some tok"
      and "snd (claim_event env i l rows) =
        update_where (\<lambda>r. ie_ID r = event \<and> ie_claim_where (pg_now env) r)
          (ie_claim_set (pg_now env) (il_Owner l) tok (pg_ts env (il_ExpiresAt l))) rows"
    unfolding ie_claim_stmt_def by (auto simp: statement_rules)
  then show ?thesis
    using ie.lease_step.take [of "\<lambda>r. ie_ID r = event \<and> ie_claim_where (pg_now env) r" event "pg_now env"
        "il_Owner l" tok "pg_ts env (il_ExpiresAt l)" rows]
    by (simp add: canonical_token_def)
qed (simp add: ie.lease_step.idle)

lemma ie_finish_step:
  assumes "\<And>r. ie_ID (f r) = ie_ID r" and "\<And>r. ie_ProcessingState (f r) \<noteq> ''processing''"
  shows "ie.lease_step (pg_now env) (LFinish own (canonical_token env token0)) rows
           (snd (ie_update_with_lease env operation i own token0 f rows))"
  using ie_update_with_lease_effect [of env operation i own token0 f rows]
proof (elim disjE exE)
  let ?rows' = "snd (ie_update_with_lease env operation i own token0 f rows)"
  fix x assume "ie_lease_stmt env i own token0 f rows = Inr (x, ?rows')"
  then obtain event tok where "pg_uuid env token0 = Some tok"
      and "?rows' = update_where (\<lambda>r. ie_ID r = event \<and> ie_lease_where (pg_now env) own tok r) f rows"
    unfolding ie_lease_stmt_def by (auto simp: statement_rules)
  then show ?thesis
    using ie.lease_step.finish [of "\<lambda>r. ie_ID r = event \<and> ie_lease_where (pg_now env) own tok r" event
        "pg_now env" own tok f rows] assms
    by (simp add: canonical_token_def ie_lease_where_holder ie_holder_def)
qed (simp add: ie.lease_step.idle)

lemma inbound_exec_step:
  "ie.lease_step (fst (inbound_label s)) (snd (inbound_label s)) rows (inbound_exec ex s rows)"
  by (cases "(ex, s, rows)" rule: inbound_exec.cases)
    (simp_all add: record_step ie_claim_step mark_processed_def ie_mark_retryable_failure_def
      ie_move_to_dead_letter_def ie_finish_step set_processed_def ie_set_retryable_def ie_set_dead_def
      ie.lease_step.idle split: option.split)

lemma inbound_run_lease: "ie.lease_run (map inbound_label ops) rows (inbound_run ex ops rows)"
proof (induction ops arbitrary: rows)
  case Nil
  show ?case by (simp add: inbound_run_def)
next
  case (Cons s ops)
  have "ie.lease_run (map inbound_label ops) (inbound_exec ex s rows) (inbound_run ex (s # ops) rows)"
    using Cons.IH [of "inbound_exec ex s rows"] by (simp add: inbound_run_def)
  then show ?case
    using inbound_exec_step [of s rows ex] by (cases "inbound_label s") auto
qed

section \<open>The invariant of the ledger\<close>

definition inbound_inv :: "inbound_event list \<Rightarrow> bool" where
  "inbound_inv rows \<longleftrightarrow>
     distinct (map ie_ID rows) \<and> distinct (map ie_event_key rows) \<and> (\<forall>r \<in> set rows. inbound_violated r = None)"

lemma inbound_inv_update:
  assumes inv: "inbound_inv rows" and up: "update_returning p f inbound_violated rows = Inr (x, rows')"
    and key: "\<And>r. p r \<Longrightarrow> ie_ID r = k"
    and keep: "\<And>r. ie_ID (f r) = ie_ID r \<and> ie_event_key (f r) = ie_event_key r"
  shows "inbound_inv rows'"
proof -
  from up obtain r where r: "find p rows = Some r" "inbound_violated (f r) = None"
    and rows': "rows' = update_where p f rows" by (auto simp: update_returning_Inr)
  have "y = r" if "y \<in> set rows" "p y" for y
    using update_where_key_unique [of ie_ID rows p r k y] inv r(1) key that by (auto simp: inbound_inv_def)
  then have "\<forall>y \<in> set rows'. inbound_violated y = None"
    unfolding rows' using inv r(2) by (intro ball_update_where) (auto simp: inbound_inv_def)
  moreover have "map ie_ID rows' = map ie_ID rows" "map ie_event_key rows' = map ie_event_key rows"
    unfolding rows' using keep by (simp_all add: map_key_update_where)
  ultimately show ?thesis using inv unfolding inbound_inv_def by simp
qed

lemma record_inv: "inbound_inv rows \<Longrightarrow> inbound_inv (snd (record_if_absent env ex d rows))"
  using record_effect [of env ex d rows]
  by (auto simp: inbound_inv_def elim!: record_stmt_Inr)

lemma ie_claim_inv: "inbound_inv rows \<Longrightarrow> inbound_inv (snd (claim_event env i l rows))"
  using ie_claim_effect [of env i l rows] inbound_inv_update [of rows]
  by (elim disjE exE) (fastforce simp: ie_claim_stmt_def with_uuid_Inr ie_claim_set_def)+

lemma ie_update_with_lease_inv:
  "inbound_inv rows \<Longrightarrow> (\<And>r. ie_ID (f r) = ie_ID r \<and> ie_event_key (f r) = ie_event_key r) \<Longrightarrow>
     inbound_inv (snd (ie_update_with_lease env operation i own tok f rows))"
  using ie_update_with_lease_effect [of env operation i own tok f rows] inbound_inv_update [of rows]
  by (elim disjE exE) (fastforce simp: ie_lease_stmt_def with_uuid_Inr)+

lemma inbound_exec_inv: "inbound_inv rows \<Longrightarrow> inbound_inv (inbound_exec ex s rows)"
  by (cases "(ex, s, rows)" rule: inbound_exec.cases)
    (auto simp: mark_processed_def ie_mark_retryable_failure_def ie_move_to_dead_letter_def
      set_processed_def ie_set_retryable_def ie_set_dead_def record_inv ie_claim_inv
      intro!: ie_update_with_lease_inv split: option.split)

lemma inbound_run_inv: "inbound_inv rows \<Longrightarrow> inbound_inv (inbound_run ex ops rows)"
  by (induction ops arbitrary: rows) (simp_all add: inbound_run_def inbound_exec_inv)

lemma inbound_reachable_inv: "inbound_inv (inbound_run ex ops [])"
  by (rule inbound_run_inv) (simp add: inbound_inv_def)

text \<open>
  C16: an event is recorded once. In every reachable ledger events are unique by provider, connection and
  provider event; \<^verbatim>\<open>RecordIfAbsent\<close>, when it answers, answers with the event of the ledger that has the
  draft's identity, says that it is new exactly when the ledger did not hold it before, appends it then
  and changes nothing otherwise.
\<close>

theorem inbound_record_once:
  assumes "record_if_absent env ex d (inbound_run ex' ops []) = (Inr (created, r), rows')"
  shows "inbound_inv rows' \<and> r \<in> set rows' \<and>
     ie_event_key r = (id_ProviderRef d, id_ProviderConnectionRef d, id_ProviderEventID d) \<and>
     (created \<longleftrightarrow> ie_event_key r \<notin> ie_event_key ` set (inbound_run ex' ops [])) \<and>
     rows' = inbound_run ex' ops [] @ (if created then [r] else [])"
proof -
  let ?rows = "inbound_run ex' ops []"
  let ?k = "(id_ProviderRef d, id_ProviderConnectionRef d, id_ProviderEventID d)"
  have inv: "inbound_inv rows'"
    using record_inv [OF inbound_reachable_inv, of env ex d ex' ops] assms by simp
  show ?thesis
  proof (cases created)
    case True
    with assms have "record_stmt env ex d ?rows = Inr (r, rows')"
      by (auto simp: record_if_absent_def on_executor_def pg_write_Inr
          split: option.splits sum.splits prod.splits if_splits)
    then show ?thesis using True inv by (elim record_stmt_Inr) simp
  next
    case False
    with assms obtain e where "pg_write env (record_stmt env ex d) ?rows = (Inl e, rows')" "is_no_rows e"
      and found: "select_one (\<lambda>r. ie_event_key r = ?k) rows' = Inr r"
      by (auto simp: record_if_absent_def on_executor_def pg_read_def
          split: option.splits sum.splits prod.splits if_splits)
    then have "rows' = ?rows" by (auto dest: pg_write_no_rows)
    moreover from found have "r \<in> set rows'" "ie_event_key r = ?k"
      by (auto simp: select_one_def find_Some_iff split: option.splits)
    moreover have "?k \<in> ie_event_key ` set rows'"
      by (rule image_eqI [of _ _ r]) (use calculation in simp_all)
    ultimately show ?thesis using False inv by simp
  qed
qed

text \<open>
  C17: the lease of an event is exclusive: while it runs, no sequence of operations by others changes
  the event.
\<close>

theorem inbound_lease_exclusive:
  assumes "r \<in> set rows" and "ie_holder r = Some (own, tok, e)"
    and "\<forall>(now, l) \<in> set (map inbound_label ops). now < e \<and> l \<noteq> LFinish own tok"
  shows "r \<in> set (inbound_run ex ops rows)"
  using ie.lease_run_held [OF inbound_run_lease assms(1,2)] assms(3) by blast

text \<open>
  Processed, dead, rejected and unresolved events are final for the store: no sequence of its
  operations changes them, so none of them is ever handed out again.
\<close>

theorem inbound_settled_final:
  assumes "r \<in> set rows"
    and "ie_ProcessingState r \<in> {''processed'', ''dead_letter'', ''rejected'', ''unresolved''}"
  shows "r \<in> set (inbound_run ex ops rows)"
proof (cases "ie_processed r")
  case True
  then show ?thesis using ie.lease_run_settled [OF inbound_run_lease assms(1)] by blast
next
  case False
  with assms(2) have "ie_parked r" by (auto simp: ie_parked_def)
  moreover have "LReopen \<notin> snd ` set (map inbound_label ops)"
    using inbound_label_no_reopen by (metis (no_types, lifting) imageE list.set_map)
  ultimately show ?thesis using ie.lease_run_dead [OF inbound_run_lease assms(1)] by blast
qed

section \<open>Samples\<close>

definition sample_event_env :: "time \<Rightarrow> pg_env" where
  "sample_event_env now = \<lparr>pg_now = now, go_now = now, pg_uuid = Some, pg_ts = (\<lambda>t. t), pg_executor = None,
     pg_write_fault = None, pg_read_fault = None\<rparr>"

definition sample_draft :: "string \<Rightarrow> inbound_draft" where
  "sample_draft i =
     \<lparr>id_ID = i, id_ProviderRef = ''socialapi'', id_ProviderConnectionRef = ''acc'', id_ProviderEventID = ''ev1'',
      id_DedupeStrategy = ''provider_event_id'', id_BusinessID = Some ''b1'', id_ConnectionID = Some ''c1'',
      id_EventType = ''interaction_received'', id_InteractionKind = Some ''dm'', id_ProviderMessageID = None,
      id_ProviderConversationID = None, id_ExternalUserID = None, id_ContentReference = None,
      id_ExternalCreatedAt = None, id_ReceivedAt = 90, id_RawPayloadReference = ''raw'', id_PayloadHash = ''h'',
      id_SignatureVerified = True, id_ProcessingState = ''received'', id_NextAttemptAt = None,
      id_CreatedAt = 90, id_UpdatedAt = 90\<rparr>"

definition sample_event :: inbound_event where
  "sample_event = new_event (sample_event_env 100) ''e1'' (Some ''b1'') (Some ''c1'') (sample_draft ''e1'')"

definition claimed_event :: inbound_event where
  "claimed_event = ie_claim_set 100 ''w1'' ''t1'' 200 sample_event"

theorem inbound_record_once_witness:
  "record_if_absent (sample_event_env 100) (\<lambda>_ _. True) (sample_draft ''e2'')
     (inbound_run (\<lambda>_ _. True) [(sample_event_env 100, RecordIfAbsent (sample_draft ''e1''))] []) =
     (Inr (False, sample_event), [sample_event]) \<and> inbound_inv [sample_event]"
proof -
  have "record_if_absent (sample_event_env 100) (\<lambda>_ _. True) (sample_draft ''e2'')
     (inbound_run (\<lambda>_ _. True) [(sample_event_env 100, RecordIfAbsent (sample_draft ''e1''))] []) =
     (Inr (False, sample_event), [sample_event])"
    by code_simp
  with inbound_record_once [OF this] show ?thesis by blast
qed

theorem inbound_lease_exclusive_witness:
  "claimed_event \<in> set (inbound_run (\<lambda>_ _. True)
     [(sample_event_env 150, ClaimEvent ''e1'' \<lparr>il_Owner = ''w2'', il_Token = ''t2'', il_ExpiresAt = 300\<rparr>)]
     [claimed_event])"
  by (rule inbound_lease_exclusive [where own = "''w1''" and tok = "''t1''" and e = 200])
    (auto simp: claimed_event_def ie_claim_set_def ie_holder_def sample_event_env_def canonical_token_def)

end
