(* ===== verification/Outbox.thy ===== *)
theory Outbox
  imports Leases
begin

text \<open>
  The outbox of messages to send: the table \<^verbatim>\<open>outbox_entries\<close> of \<^verbatim>\<open>schema.sql\<close> and the store
  \<^verbatim>\<open>PostgresOutboxStore\<close> of \<^verbatim>\<open>postgres/outbox_store.go\<close>, with the records of \<^verbatim>\<open>ports/outbox.go\<close>.
  \<^verbatim>\<open>Get\<close> and \<^verbatim>\<open>List\<close>, which only read, are left out.
\<close>

section \<open>Data\<close>

record outbox_entry =
  ob_ID :: string
  ob_BusinessID :: string
  ob_OutboundMessageID :: string
  ob_CommandType :: string
  ob_DedupeKey :: string
  ob_Status :: string
  ob_AttemptCount :: int
  ob_AvailableAt :: time
  ob_LeaseOwner :: "string option"
  ob_LeaseToken :: "string option"
  ob_LeaseExpiresAt :: "time option"
  ob_LastErrorCode :: "string option"
  ob_ResultCode :: "string option"
  ob_CompletedAt :: "time option"
  ob_CreatedAt :: time
  ob_UpdatedAt :: time

record outbox_draft =
  od_EntryID :: string
  od_BusinessID :: string
  od_OutboundMessageID :: string
  od_CommandType :: string
  od_DedupeKey :: string
  od_AvailableAt :: time
  od_CreatedAt :: time
  od_UpdatedAt :: time

record outbox_lease =
  le_Owner :: string
  le_Token :: string
  le_ExpiresAt :: time

record outbox_claim_result =
  cl_Claimed :: bool
  cl_Record :: outbox_entry

record outbox_completion =
  co_Owner :: string
  co_Token :: string
  co_ResultCode :: string
  co_CompletedAt :: time
  co_UpdatedAt :: time

record outbox_failure =
  fa_Owner :: string
  fa_Token :: string
  fa_ErrorCode :: string
  fa_NextAttempt :: "time option"
  fa_UpdatedAt :: time

section \<open>Constraints of the table\<close>

definition outbox_checks :: "outbox_entry \<Rightarrow> bool" where
  "outbox_checks r \<longleftrightarrow>
     0 \<le> ob_AttemptCount r \<and> sql_nonblank (ob_CommandType r) \<and>
     (ob_Status r = ''completed'' \<longleftrightarrow> ob_CompletedAt r \<noteq> None) \<and>
     sql_nonblank (ob_DedupeKey r) \<and>
     (if ob_Status r = ''processing'' then ob_LeaseOwner r \<noteq> None \<and> ob_LeaseExpiresAt r \<noteq> None
      else ob_LeaseOwner r = None \<and> ob_LeaseExpiresAt r = None) \<and>
     (ob_Status r = ''processing'' \<longleftrightarrow> ob_LeaseToken r \<noteq> None) \<and>
     (case ob_ResultCode r of None \<Rightarrow> True | Some c \<Rightarrow> sql_nonblank c) \<and>
     ob_Status r \<in> {''pending'', ''processing'', ''completed'', ''retryable_failed'', ''dead_letter''}"

definition outbox_violated :: "outbox_entry \<Rightarrow> string option" where
  "outbox_violated r =
     (if 2147483647 < ob_AttemptCount r then Some out_of_range
      else if \<not> outbox_checks r then Some check_violation else None)"

text \<open>On insertion also the unique keys and the reference to the outbound message.\<close>

definition outbox_insert_violated ::
  "(string \<Rightarrow> string \<Rightarrow> bool) \<Rightarrow> outbox_entry \<Rightarrow> outbox_entry list \<Rightarrow> string option" where
  "outbox_insert_violated outbound_exists r rows =
     (case outbox_violated r of
        Some code \<Rightarrow> Some code
      | None \<Rightarrow>
          if \<exists>x \<in> set rows. ob_ID x = ob_ID r \<or>
               (ob_BusinessID x, ob_CommandType x, ob_DedupeKey x) =
               (ob_BusinessID r, ob_CommandType r, ob_DedupeKey r) \<or>
               (ob_BusinessID x, ob_OutboundMessageID x) = (ob_BusinessID r, ob_OutboundMessageID r)
          then Some unique_violation
          else if \<not> outbound_exists (ob_BusinessID r) (ob_OutboundMessageID r)
          then Some foreign_key_violation else None)"

section \<open>Operations\<close>

definition list_claimable :: "pg_env \<Rightarrow> int \<Rightarrow> outbox_entry list \<Rightarrow> (outbox_entry list) result" where
  "list_claimable env limit rows =
     (case pg_executor env of
        Some e \<Rightarrow> Inl e
      | None \<Rightarrow>
          let limit1 = (if limit \<le> 0 then 20 else limit);
              limit2 = (if limit1 > 10000 then 100 else limit1)
          in (case pg_read_fault env of
                Some f \<Rightarrow> Inl (classify_repository_get_error ''outbox.list_claimable'' (fault_error f))
              | None \<Rightarrow>
                  Inr (take (nat limit2)
                    (sort_key (\<lambda>r. (ob_AvailableAt r, ob_CreatedAt r, ob_ID r))
                      (filter (\<lambda>r. ob_Status r \<in> {''pending'', ''retryable_failed''} \<and>
                                   ob_AvailableAt r \<le> pg_now env) rows)))))"

definition new_entry :: "pg_env \<Rightarrow> string \<Rightarrow> string \<Rightarrow> string \<Rightarrow> outbox_draft \<Rightarrow> outbox_entry" where
  "new_entry env entry business outbound draft =
     \<lparr>ob_ID = entry, ob_BusinessID = business, ob_OutboundMessageID = outbound,
      ob_CommandType = od_CommandType draft, ob_DedupeKey = od_DedupeKey draft,
      ob_Status = ''pending'', ob_AttemptCount = 0, ob_AvailableAt = pg_ts env (od_AvailableAt draft),
      ob_LeaseOwner = None, ob_LeaseToken = None, ob_LeaseExpiresAt = None, ob_LastErrorCode = None,
      ob_ResultCode = None, ob_CompletedAt = None, ob_CreatedAt = pg_ts env (od_CreatedAt draft),
      ob_UpdatedAt = pg_ts env (od_UpdatedAt draft)\<rparr>"

definition enqueue_stmt ::
  "pg_env \<Rightarrow> (string \<Rightarrow> string \<Rightarrow> bool) \<Rightarrow> outbox_draft \<Rightarrow> outbox_entry list \<Rightarrow> (outbox_entry \<times> outbox_entry list) result" where
  "enqueue_stmt env outbound_exists draft rows =
     with_uuid env (od_EntryID draft) (\<lambda>entry.
       with_uuid env (od_BusinessID draft) (\<lambda>business.
         with_uuid env (od_OutboundMessageID draft) (\<lambda>outbound.
           insert_returning (outbox_insert_violated outbound_exists)
             (new_entry env entry business outbound draft) rows)))"

definition enqueue ::
  "pg_env \<Rightarrow> (string \<Rightarrow> string \<Rightarrow> bool) \<Rightarrow> outbox_draft \<Rightarrow> outbox_entry list \<Rightarrow> outbox_entry result \<times> outbox_entry list" where
  "enqueue env outbound_exists draft =
     on_executor env (\<lambda>rows.
       if od_EntryID draft = '''' \<or> od_BusinessID draft = '''' \<or> od_OutboundMessageID draft = '''' \<or>
          od_CommandType draft = '''' \<or> od_DedupeKey draft = '''' \<or> is_zero (od_AvailableAt draft) \<or>
          is_zero (od_CreatedAt draft) \<or> is_zero (od_UpdatedAt draft)
       then (Inl (invalid_repository_input ''outbox.enqueue'' ''id, business, outbound message, command, dedupe key, availability, and timestamps are required''), rows)
       else (case pg_write env (enqueue_stmt env outbound_exists draft) rows of
               (Inr r, rows') \<Rightarrow> (Inr r, rows')
             | (Inl e, rows') \<Rightarrow> (Inl (classify_repository_write_error ''outbox.scan'' e), rows')))"

definition ob_claim_where :: "time \<Rightarrow> outbox_entry \<Rightarrow> bool" where
  "ob_claim_where now r \<longleftrightarrow>
     (ob_Status r \<in> {''pending'', ''retryable_failed''} \<and> ob_AvailableAt r \<le> now) \<or>
     (ob_Status r = ''processing'' \<and> sql_le (ob_LeaseExpiresAt r) now)"

definition ob_claim_set :: "time \<Rightarrow> string \<Rightarrow> string \<Rightarrow> time \<Rightarrow> outbox_entry \<Rightarrow> outbox_entry" where
  "ob_claim_set now own tok e r =
     r\<lparr>ob_Status := ''processing'', ob_LeaseOwner := Some own, ob_LeaseToken := Some tok,
       ob_LeaseExpiresAt := Some e, ob_AttemptCount := ob_AttemptCount r + 1, ob_UpdatedAt := now\<rparr>"

definition claim_stmt ::
  "pg_env \<Rightarrow> string \<Rightarrow> outbox_lease \<Rightarrow> outbox_entry list \<Rightarrow> (outbox_entry \<times> outbox_entry list) result" where
  "claim_stmt env entryID lease rows =
     with_uuid env entryID (\<lambda>entry. with_uuid env (le_Token lease) (\<lambda>tok.
       update_returning (\<lambda>r. ob_ID r = entry \<and> ob_claim_where (pg_now env) r)
         (ob_claim_set (pg_now env) (le_Owner lease) tok (pg_ts env (le_ExpiresAt lease)))
         outbox_violated rows))"

definition select_entry :: "pg_env \<Rightarrow> string \<Rightarrow> outbox_entry list \<Rightarrow> outbox_entry result" where
  "select_entry env entryID =
     pg_read env (\<lambda>rows. with_uuid env entryID (\<lambda>entry. select_one (\<lambda>r. ob_ID r = entry) rows))"

definition claim_entry ::
  "pg_env \<Rightarrow> string \<Rightarrow> outbox_lease \<Rightarrow> outbox_entry list \<Rightarrow> outbox_claim_result result \<times> outbox_entry list" where
  "claim_entry env entryID lease =
     on_executor env (\<lambda>rows.
       if blank entryID \<or> blank (le_Owner lease) \<or> blank (le_Token lease) \<or>
          is_zero (le_ExpiresAt lease) \<or> \<not> go_now env < le_ExpiresAt lease
       then (Inl (invalid_repository_input ''outbox.claim'' ''entry id, owner, token, and future lease expiry are required''), rows)
       else (case pg_write env (claim_stmt env entryID lease) rows of
               (Inr r, rows') \<Rightarrow> (Inr \<lparr>cl_Claimed = True, cl_Record = r\<rparr>, rows')
             | (Inl e, rows') \<Rightarrow>
                 if \<not> is_no_rows e then (Inl (classify_repository_write_error ''outbox.claim'' e), rows')
                 else (case select_entry env entryID rows' of
                         Inl e' \<Rightarrow> (Inl (classify_repository_get_error ''outbox.claim'' e'), rows')
                       | Inr r \<Rightarrow> (Inr \<lparr>cl_Claimed = False, cl_Record = r\<rparr>, rows'))))"

definition classify_outbox_mutation_miss :: "pg_env \<Rightarrow> string \<Rightarrow> string \<Rightarrow> outbox_entry list \<Rightarrow> go_error" where
  "classify_outbox_mutation_miss env operation entryID rows =
     (case select_entry env entryID rows of
        Inl e \<Rightarrow> if is_no_rows e then RepositoryError operation RepositoryNotFound e
                 else classify_repository_write_error operation e
      | Inr r \<Rightarrow>
          if ob_Status r \<noteq> ''processing'' \<or> ob_LeaseOwner r = None \<or> ob_LeaseToken r = None
          then RepositoryError operation RepositoryConflict (PlainError ''outbox entry status is not an active lease'')
          else RepositoryError operation RepositoryConflict (PlainError ''outbox lease owner or token is invalid''))"

definition ob_lease_where :: "time \<Rightarrow> string \<Rightarrow> string \<Rightarrow> outbox_entry \<Rightarrow> bool" where
  "ob_lease_where now own tok r \<longleftrightarrow>
     ob_Status r = ''processing'' \<and> ob_LeaseOwner r = Some own \<and> ob_LeaseToken r = Some tok \<and>
     sql_gt (ob_LeaseExpiresAt r) now"

definition lease_stmt ::
  "pg_env \<Rightarrow> string \<Rightarrow> string \<Rightarrow> string \<Rightarrow> (outbox_entry \<Rightarrow> outbox_entry) \<Rightarrow> outbox_entry list \<Rightarrow>
   (outbox_entry \<times> outbox_entry list) result" where
  "lease_stmt env entryID own token0 set_clause rows =
     with_uuid env entryID (\<lambda>entry. with_uuid env token0 (\<lambda>tok.
       update_returning (\<lambda>r. ob_ID r = entry \<and> ob_lease_where (pg_now env) own tok r) set_clause
         outbox_violated rows))"

definition update_with_lease ::
  "pg_env \<Rightarrow> string \<Rightarrow> string \<Rightarrow> string \<Rightarrow> string \<Rightarrow> (outbox_entry \<Rightarrow> outbox_entry) \<Rightarrow>
   outbox_entry list \<Rightarrow> outbox_entry result \<times> outbox_entry list" where
  "update_with_lease env operation entryID own token0 set_clause =
     on_executor env (\<lambda>rows.
       if entryID = '''' then (Inl (invalid_repository_input operation ''entry id is required''), rows)
       else (case pg_write env (lease_stmt env entryID own token0 set_clause) rows of
               (Inr r, rows') \<Rightarrow> (Inr r, rows')
             | (Inl e, rows') \<Rightarrow>
                 if \<not> is_no_rows e then (Inl (classify_repository_write_error operation e), rows')
                 else (Inl (classify_outbox_mutation_miss env operation entryID rows'), rows')))"

definition set_completed :: "pg_env \<Rightarrow> outbox_completion \<Rightarrow> outbox_entry \<Rightarrow> outbox_entry" where
  "set_completed env c r =
     r\<lparr>ob_Status := ''completed'', ob_LeaseOwner := None, ob_LeaseToken := None,
       ob_LeaseExpiresAt := None, ob_ResultCode := Some (co_ResultCode c),
       ob_CompletedAt := Some (pg_ts env (co_CompletedAt c)), ob_UpdatedAt := pg_ts env (co_UpdatedAt c)\<rparr>"

definition set_retryable :: "pg_env \<Rightarrow> outbox_failure \<Rightarrow> time \<Rightarrow> outbox_entry \<Rightarrow> outbox_entry" where
  "set_retryable env f next_attempt r =
     r\<lparr>ob_Status := ''retryable_failed'', ob_LeaseOwner := None, ob_LeaseToken := None,
       ob_LeaseExpiresAt := None, ob_ResultCode := None, ob_CompletedAt := None,
       ob_LastErrorCode := Some (fa_ErrorCode f), ob_AvailableAt := pg_ts env next_attempt,
       ob_UpdatedAt := pg_ts env (fa_UpdatedAt f)\<rparr>"

definition set_dead :: "pg_env \<Rightarrow> outbox_failure \<Rightarrow> outbox_entry \<Rightarrow> outbox_entry" where
  "set_dead env f r =
     r\<lparr>ob_Status := ''dead_letter'', ob_LeaseOwner := None, ob_LeaseToken := None,
       ob_LeaseExpiresAt := None, ob_ResultCode := None, ob_CompletedAt := None,
       ob_LastErrorCode := Some (fa_ErrorCode f), ob_UpdatedAt := pg_ts env (fa_UpdatedAt f)\<rparr>"

definition mark_completed ::
  "pg_env \<Rightarrow> string \<Rightarrow> outbox_completion \<Rightarrow> outbox_entry list \<Rightarrow> outbox_entry result \<times> outbox_entry list" where
  "mark_completed env entryID c rows =
     (if co_Owner c = '''' \<or> co_Token c = '''' \<or> co_ResultCode c = '''' \<or> is_zero (co_CompletedAt c) \<or>
         is_zero (co_UpdatedAt c)
      then (Inl (invalid_repository_input ''outbox.mark_completed'' ''owner, token, result, and timestamps are required''), rows)
      else update_with_lease env ''outbox.mark_completed'' entryID (co_Owner c) (co_Token c) (set_completed env c) rows)"

definition mark_retryable_failure ::
  "pg_env \<Rightarrow> string \<Rightarrow> outbox_failure \<Rightarrow> outbox_entry list \<Rightarrow> outbox_entry result \<times> outbox_entry list" where
  "mark_retryable_failure env entryID f rows =
     (case fa_NextAttempt f of
        Some next_attempt \<Rightarrow>
          if fa_Owner f = '''' \<or> fa_Token f = '''' \<or> fa_ErrorCode f = '''' \<or> is_zero (fa_UpdatedAt f)
          then (Inl (invalid_repository_input ''outbox.mark_retryable_failure'' ''owner, token, error, next attempt, and timestamp are required''), rows)
          else update_with_lease env ''outbox.mark_retryable_failure'' entryID (fa_Owner f) (fa_Token f)
                 (set_retryable env f next_attempt) rows
      | None \<Rightarrow> (Inl (invalid_repository_input ''outbox.mark_retryable_failure'' ''owner, token, error, next attempt, and timestamp are required''), rows))"

definition move_to_dead_letter ::
  "pg_env \<Rightarrow> string \<Rightarrow> outbox_failure \<Rightarrow> outbox_entry list \<Rightarrow> outbox_entry result \<times> outbox_entry list" where
  "move_to_dead_letter env entryID f rows =
     (if fa_Owner f = '''' \<or> fa_Token f = '''' \<or> fa_ErrorCode f = '''' \<or> is_zero (fa_UpdatedAt f)
      then (Inl (invalid_repository_input ''outbox.dead_letter'' ''owner, token, error, and timestamp are required''), rows)
      else update_with_lease env ''outbox.dead_letter'' entryID (fa_Owner f) (fa_Token f) (set_dead env f) rows)"

definition set_requeued :: "pg_env \<Rightarrow> time \<Rightarrow> time \<Rightarrow> outbox_entry \<Rightarrow> outbox_entry" where
  "set_requeued env nextAttemptAt updatedAt r =
     r\<lparr>ob_Status := ''pending'', ob_AvailableAt := pg_ts env nextAttemptAt, ob_LeaseOwner := None,
       ob_LeaseToken := None, ob_LeaseExpiresAt := None, ob_ResultCode := None, ob_CompletedAt := None,
       ob_UpdatedAt := pg_ts env updatedAt\<rparr>"

definition requeue_stmt ::
  "pg_env \<Rightarrow> string \<Rightarrow> time \<Rightarrow> time \<Rightarrow> outbox_entry list \<Rightarrow> (outbox_entry \<times> outbox_entry list) result" where
  "requeue_stmt env entryID nextAttemptAt updatedAt rows =
     with_uuid env entryID (\<lambda>entry.
       update_returning (\<lambda>r. ob_ID r = entry \<and> ob_Status r = ''dead_letter'')
         (set_requeued env nextAttemptAt updatedAt) outbox_violated rows)"

definition requeue ::
  "pg_env \<Rightarrow> string \<Rightarrow> time \<Rightarrow> time \<Rightarrow> outbox_entry list \<Rightarrow> outbox_entry result \<times> outbox_entry list" where
  "requeue env entryID nextAttemptAt updatedAt =
     on_executor env (\<lambda>rows.
       if entryID = '''' \<or> is_zero nextAttemptAt \<or> is_zero updatedAt
       then (Inl (invalid_repository_input ''outbox.requeue'' ''entry id and timestamps are required''), rows)
       else (case pg_write env (requeue_stmt env entryID nextAttemptAt updatedAt) rows of
               (Inr r, rows') \<Rightarrow> (Inr r, rows')
             | (Inl e, rows') \<Rightarrow>
                 if \<not> is_no_rows e then (Inl (classify_repository_write_error ''outbox.requeue'' e), rows')
                 else (Inl (classify_outbox_mutation_miss env ''outbox.requeue'' entryID rows'), rows')))"

section \<open>The outbox as a leased table\<close>

definition ob_holder :: "outbox_entry \<Rightarrow> (string \<times> string \<times> time) option" where
  "ob_holder r =
     (if ob_Status r = ''processing''
      then (case (ob_LeaseOwner r, ob_LeaseToken r, ob_LeaseExpiresAt r) of
              (Some own, Some tok, Some e) \<Rightarrow> Some (own, tok, e) | _ \<Rightarrow> None)
      else None)"

abbreviation ob_completed :: "outbox_entry \<Rightarrow> bool" where
  "ob_completed r \<equiv> ob_Status r = ''completed''"

abbreviation ob_dead :: "outbox_entry \<Rightarrow> bool" where
  "ob_dead r \<equiv> ob_Status r = ''dead_letter''"

interpretation ob: leased_rows ob_ID ob_holder ob_completed ob_dead ob_AttemptCount ob_claim_where ob_claim_set
proof
  fix now own tok e r
  assume "ob_claim_where now r" "ob_holder r = Some (own, tok, e)"
  then show "e \<le> now"
    by (auto simp: ob_claim_where_def ob_holder_def split: if_splits option.splits)
qed (auto simp: ob_claim_set_def ob_holder_def ob_claim_where_def)

lemma ob_holder_Some:
  "ob_holder r = Some (own, tok, e) \<longleftrightarrow>
     ob_Status r = ''processing'' \<and> ob_LeaseOwner r = Some own \<and> ob_LeaseToken r = Some tok \<and>
     ob_LeaseExpiresAt r = Some e"
  by (auto simp: ob_holder_def split: option.splits)

lemma ob_lease_where_holder: "ob_lease_where now own tok r \<longleftrightarrow> ob.lease_where now own tok r"
  by (cases "ob_LeaseExpiresAt r") (auto simp: ob_lease_where_def ob.lease_where_def ob_holder_Some)

section \<open>Operations as steps\<close>

datatype outbox_op =
    Enqueue outbox_draft
  | Claim string outbox_lease
  | Complete string outbox_completion
  | Retry string outbox_failure
  | DeadLetter string outbox_failure
  | Requeue string time time

text \<open>The table after one operation, in the environment the operation meets.\<close>

fun outbox_exec ::
  "(string \<Rightarrow> string \<Rightarrow> bool) \<Rightarrow> pg_env \<times> outbox_op \<Rightarrow> outbox_entry list \<Rightarrow> outbox_entry list" where
  "outbox_exec ex (env, Enqueue draft) rows = snd (enqueue env ex draft rows)"
| "outbox_exec ex (env, Claim entryID lease) rows = snd (claim_entry env entryID lease rows)"
| "outbox_exec ex (env, Complete entryID c) rows = snd (mark_completed env entryID c rows)"
| "outbox_exec ex (env, Retry entryID f) rows = snd (mark_retryable_failure env entryID f rows)"
| "outbox_exec ex (env, DeadLetter entryID f) rows = snd (move_to_dead_letter env entryID f rows)"
| "outbox_exec ex (env, Requeue entryID at updated) rows = snd (requeue env entryID at updated rows)"

definition outbox_run ::
  "(string \<Rightarrow> string \<Rightarrow> bool) \<Rightarrow> (pg_env \<times> outbox_op) list \<Rightarrow> outbox_entry list \<Rightarrow> outbox_entry list" where
  "outbox_run ex ops rows = fold (outbox_exec ex) ops rows"

fun outbox_label :: "pg_env \<times> outbox_op \<Rightarrow> time \<times> lease_label" where
  "outbox_label (env, Enqueue draft) = (pg_now env, LInsert)"
| "outbox_label (env, Claim entryID l) =
     (pg_now env, LTake (le_Owner l) (canonical_token env (le_Token l)) (pg_ts env (le_ExpiresAt l)))"
| "outbox_label (env, Complete entryID c) = (pg_now env, LFinish (co_Owner c) (canonical_token env (co_Token c)))"
| "outbox_label (env, Retry entryID f) = (pg_now env, LFinish (fa_Owner f) (canonical_token env (fa_Token f)))"
| "outbox_label (env, DeadLetter entryID f) = (pg_now env, LFinish (fa_Owner f) (canonical_token env (fa_Token f)))"
| "outbox_label (env, Requeue entryID at updated) = (pg_now env, LReopen)"

text \<open>What each operation can do to the table: nothing, or what its statement does.\<close>

lemma enqueue_effect:
  "snd (enqueue env ex draft rows) = rows \<or>
   (\<exists>x. enqueue_stmt env ex draft rows = Inr (x, snd (enqueue env ex draft rows)))"
  using pg_write_cases [of env "enqueue_stmt env ex draft" rows]
  by (auto simp: enqueue_def on_executor_def split: option.splits prod.splits sum.splits)

lemma claim_effect:
  "snd (claim_entry env entryID lease rows) = rows \<or>
   (\<exists>x. claim_stmt env entryID lease rows = Inr (x, snd (claim_entry env entryID lease rows)))"
  using pg_write_cases [of env "claim_stmt env entryID lease" rows]
  by (auto simp: claim_entry_def on_executor_def split: option.splits prod.splits sum.splits)

lemma update_with_lease_effect:
  "snd (update_with_lease env operation entryID own tok f rows) = rows \<or>
   (\<exists>x. lease_stmt env entryID own tok f rows =
        Inr (x, snd (update_with_lease env operation entryID own tok f rows)))"
  using pg_write_cases [of env "lease_stmt env entryID own tok f" rows]
  by (auto simp: update_with_lease_def on_executor_def split: option.splits prod.splits sum.splits)

lemma requeue_effect:
  "snd (requeue env entryID at updated rows) = rows \<or>
   (\<exists>x. requeue_stmt env entryID at updated rows = Inr (x, snd (requeue env entryID at updated rows)))"
  using pg_write_cases [of env "requeue_stmt env entryID at updated" rows]
  by (auto simp: requeue_def on_executor_def split: option.splits prod.splits sum.splits)


section \<open>Every operation is a lease step\<close>

lemma enqueue_step: "ob.lease_step now LInsert rows (snd (enqueue env ex draft rows))"
  using enqueue_effect [of env ex draft rows]
proof (elim disjE exE)
  fix x assume "enqueue_stmt env ex draft rows = Inr (x, snd (enqueue env ex draft rows))"
  then obtain entry business outbound
    where "snd (enqueue env ex draft rows) = rows @ [new_entry env entry business outbound draft]"
      and "outbox_insert_violated ex (new_entry env entry business outbound draft) rows = None"
    unfolding enqueue_stmt_def by (auto simp: statement_rules)
  moreover from this(2) have "entry \<notin> ob_ID ` set rows"
    by (auto simp: outbox_insert_violated_def new_entry_def split: option.splits if_splits)
  ultimately show ?thesis
    using ob.lease_step.insert [of "new_entry env entry business outbound draft" rows now]
    by (simp add: new_entry_def ob_holder_def)
qed (simp add: ob.lease_step.idle)

lemma claim_step:
  "ob.lease_step (pg_now env)
     (LTake (le_Owner l) (canonical_token env (le_Token l)) (pg_ts env (le_ExpiresAt l)))
     rows (snd (claim_entry env entryID l rows))"
  using claim_effect [of env entryID l rows]
proof (elim disjE exE)
  fix x assume "claim_stmt env entryID l rows = Inr (x, snd (claim_entry env entryID l rows))"
  then obtain entry tok where "pg_uuid env (le_Token l) = Some tok"
      and "snd (claim_entry env entryID l rows) =
        update_where (\<lambda>r. ob_ID r = entry \<and> ob_claim_where (pg_now env) r)
          (ob_claim_set (pg_now env) (le_Owner l) tok (pg_ts env (le_ExpiresAt l))) rows"
    unfolding claim_stmt_def by (auto simp: statement_rules)
  then show ?thesis
    using ob.lease_step.take [of "\<lambda>r. ob_ID r = entry \<and> ob_claim_where (pg_now env) r" entry "pg_now env"
        "le_Owner l" tok "pg_ts env (le_ExpiresAt l)" rows]
    by (simp add: canonical_token_def)
qed (simp add: ob.lease_step.idle)

lemma finish_step:
  assumes "\<And>r. ob_ID (f r) = ob_ID r" and "\<And>r. ob_Status (f r) \<noteq> ''processing''"
  shows "ob.lease_step (pg_now env) (LFinish own (canonical_token env token0)) rows
           (snd (update_with_lease env operation entryID own token0 f rows))"
  using update_with_lease_effect [of env operation entryID own token0 f rows]
proof (elim disjE exE)
  let ?rows' = "snd (update_with_lease env operation entryID own token0 f rows)"
  fix x assume "lease_stmt env entryID own token0 f rows = Inr (x, ?rows')"
  then obtain entry tok where "pg_uuid env token0 = Some tok"
      and "?rows' = update_where (\<lambda>r. ob_ID r = entry \<and> ob_lease_where (pg_now env) own tok r) f rows"
    unfolding lease_stmt_def by (auto simp: statement_rules)
  then show ?thesis
    using ob.lease_step.finish [of "\<lambda>r. ob_ID r = entry \<and> ob_lease_where (pg_now env) own tok r" entry
        "pg_now env" own tok f rows] assms
    by (simp add: canonical_token_def ob_lease_where_holder ob_holder_def)
qed (simp add: ob.lease_step.idle)

lemma requeue_step: "ob.lease_step now LReopen rows (snd (requeue env entryID at updated rows))"
  using requeue_effect [of env entryID at updated rows]
proof (elim disjE exE)
  fix x assume "requeue_stmt env entryID at updated rows = Inr (x, snd (requeue env entryID at updated rows))"
  then obtain entry where "snd (requeue env entryID at updated rows) =
      update_where (\<lambda>r. ob_ID r = entry \<and> ob_Status r = ''dead_letter'') (set_requeued env at updated) rows"
    unfolding requeue_stmt_def by (auto simp: statement_rules)
  then show ?thesis
    using ob.lease_step.reopen [of "\<lambda>r. ob_ID r = entry \<and> ob_Status r = ''dead_letter''" entry
        "set_requeued env at updated" now rows]
    by (simp add: set_requeued_def ob_holder_def)
qed (simp add: ob.lease_step.idle)

lemma outbox_exec_step:
  "ob.lease_step (fst (outbox_label s)) (snd (outbox_label s)) rows (outbox_exec ex s rows)"
proof -
  obtain env op where s: "s = (env, op)" by force
  show ?thesis
  proof (cases op)
    case (Enqueue d)
    then show ?thesis by (simp add: s enqueue_step)
  next
    case (Claim i l)
    then show ?thesis by (simp add: s claim_step)
  next
    case (Complete i c)
    then show ?thesis
      by (simp add: s mark_completed_def finish_step set_completed_def ob.lease_step.idle)
  next
    case (Retry i f)
    then show ?thesis
      by (simp add: s mark_retryable_failure_def finish_step set_retryable_def ob.lease_step.idle split: option.split)
  next
    case (DeadLetter i f)
    then show ?thesis
      by (simp add: s move_to_dead_letter_def finish_step set_dead_def ob.lease_step.idle)
  next
    case (Requeue i t u)
    then show ?thesis by (simp add: s requeue_step)
  qed
qed

lemma outbox_run_lease: "ob.lease_run (map outbox_label ops) rows (outbox_run ex ops rows)"
proof (induction ops arbitrary: rows)
  case Nil
  show ?case by (simp add: outbox_run_def)
next
  case (Cons s ops)
  have "ob.lease_run (map outbox_label ops) (outbox_exec ex s rows) (outbox_run ex (s # ops) rows)"
    using Cons.IH [of "outbox_exec ex s rows"] by (simp add: outbox_run_def)
  then show ?case
    using outbox_exec_step [of s rows ex] by (cases "outbox_label s") auto
qed

section \<open>The invariant of the table\<close>

abbreviation ob_dedupe :: "outbox_entry \<Rightarrow> string \<times> string \<times> string" where
  "ob_dedupe r \<equiv> (ob_BusinessID r, ob_CommandType r, ob_DedupeKey r)"

abbreviation ob_outbound :: "outbox_entry \<Rightarrow> string \<times> string" where
  "ob_outbound r \<equiv> (ob_BusinessID r, ob_OutboundMessageID r)"

definition outbox_inv :: "outbox_entry list \<Rightarrow> bool" where
  "outbox_inv rows \<longleftrightarrow>
     distinct (map ob_ID rows) \<and> distinct (map ob_dedupe rows) \<and> distinct (map ob_outbound rows) \<and>
     (\<forall>r \<in> set rows. outbox_violated r = None)"











text \<open>
  C10: a lease is exclusive. While the lease of a row runs, whatever other workers do in whatever order,
  including claims of the same row, requeues and completions under another owner or token, the row
  stays exactly as its holder left it.
\<close>

theorem outbox_lease_exclusive:
  assumes "r \<in> set rows" and "ob_holder r = Some (own, tok, e)"
    and "\<forall>(now, l) \<in> set (map outbox_label ops). now < e \<and> l \<noteq> LFinish own tok"
  shows "r \<in> set (outbox_run ex ops rows)"
  using ob.lease_run_held [OF outbox_run_lease assms(1,2)] assms(3) by blast

text \<open>C11: a completed entry is final: no sequence of operations changes it or removes it.\<close>

theorem outbox_completed_final:
  assumes "r \<in> set rows" and "ob_Status r = ''completed''"
  shows "r \<in> set (outbox_run ex ops rows)"
  using ob.lease_run_settled [OF outbox_run_lease assms] .

section \<open>What a claim does\<close>

definition valid_claim :: "pg_env \<Rightarrow> string \<Rightarrow> outbox_lease \<Rightarrow> bool" where
  "valid_claim env entryID l \<longleftrightarrow>
     \<not> blank entryID \<and> \<not> blank (le_Owner l) \<and> \<not> blank (le_Token l) \<and>
     le_ExpiresAt l \<noteq> 0 \<and> go_now env < le_ExpiresAt l \<and>
     pg_executor env = None \<and> pg_write_fault env = None \<and> pg_read_fault env = None"

lemma claim_checks:
  "outbox_checks r \<Longrightarrow> ob_claim_where now r \<Longrightarrow> outbox_checks (ob_claim_set now own tok e r)"
  by (auto simp: outbox_checks_def ob_claim_where_def ob_claim_set_def)

text \<open>
  What a claim answers. With valid arguments and a database that answers, on a row of the table
  the claim succeeds exactly when the row is pending or failed for a retry and due, or is held under a
  lease that has run out; then the row is held by the claimant until the expiry asked for, its count of
  attempts is one higher, its other contents and all other rows are as before. Otherwise the answer is
  the row as it is and the table is unchanged.
\<close>

theorem outbox_claim_exact:
  assumes inv: "outbox_inv rows" and r: "r \<in> set rows" and count: "ob_AttemptCount r < 2147483647"
    and valid: "valid_claim env entryID l"
    and uuids: "pg_uuid env entryID = Some (ob_ID r)" "pg_uuid env (le_Token l) = Some tok"
  shows "claim_entry env entryID l rows =
    (if ob_claim_where (pg_now env) r
     then let r' = r\<lparr>ob_Status := ''processing'', ob_LeaseOwner := Some (le_Owner l),
                     ob_LeaseToken := Some tok, ob_LeaseExpiresAt := Some (pg_ts env (le_ExpiresAt l)),
                     ob_AttemptCount := ob_AttemptCount r + 1, ob_UpdatedAt := pg_now env\<rparr>
          in (Inr \<lparr>cl_Claimed = True, cl_Record = r'\<rparr>,
              map (\<lambda>x. if x = r then r' else x) rows)
     else (Inr \<lparr>cl_Claimed = False, cl_Record = r\<rparr>, rows))"
proof -
  let ?p = "\<lambda>x. ob_ID x = ob_ID r \<and> ob_claim_where (pg_now env) x"
  let ?set = "ob_claim_set (pg_now env) (le_Owner l) tok (pg_ts env (le_ExpiresAt l))"
  have same: "x = r" if "x \<in> set rows" "ob_ID x = ob_ID r" for x
    using that r inv by (auto simp: outbox_inv_def distinct_map inj_on_def)
  have stmt: "claim_stmt env entryID l rows = update_returning ?p ?set outbox_violated rows"
    using uuids by (simp add: claim_stmt_def)
  have found: "find (\<lambda>x. ob_ID x = ob_ID r) rows = Some r"
    using inv r by (simp add: find_key_iff outbox_inv_def)
  have ok: "outbox_violated (?set r) = None" if "ob_claim_where (pg_now env) r"
  proof -
    have "outbox_checks r" using inv r by (auto simp: outbox_inv_def outbox_violated_def split: if_splits)
    then show ?thesis using claim_checks [OF _ that] count
      by (auto simp: outbox_violated_def)
  qed
  show ?thesis
  proof (cases "ob_claim_where (pg_now env) r")
    case True
    have "find ?p rows = Some r"
    proof (cases "find ?p rows")
      case None
      with r True show ?thesis by (auto simp: find_None_iff)
    next
      case (Some x)
      then have "x \<in> set rows" "?p x" by (auto simp: find_Some_iff)
      with Some same show ?thesis by blast
    qed
    with ok [OF True] have run: "claim_stmt env entryID l rows = Inr (?set r, update_where ?p ?set rows)"
      by (simp add: stmt update_returning_def)
    have "update_where ?p ?set rows = map (\<lambda>x. if x = r then ?set r else x) rows"
      using same True by (auto simp: update_where_def intro!: map_cong)
    with run valid True show ?thesis
      by (simp add: claim_entry_def on_executor_def valid_claim_def pg_write_no_fault ob_claim_set_def Let_def)
  next
    case False
    then have "find ?p rows = None" using same by (auto simp: find_None_iff)
    then have "claim_stmt env entryID l rows = Inl ErrNoRows" by (simp add: stmt update_returning_def)
    with False valid uuids found show ?thesis
      by (simp add: claim_entry_def on_executor_def valid_claim_def pg_write_no_fault select_entry_def
          pg_read_def select_one_def)
  qed
qed

section \<open>What the worker is shown\<close>

definition due_entries :: "time \<Rightarrow> outbox_entry list \<Rightarrow> outbox_entry list" where
  "due_entries now rows =
     filter (\<lambda>r. ob_Status r \<in> {''pending'', ''retryable_failed''} \<and> ob_AvailableAt r \<le> now) rows"

abbreviation due_order :: "outbox_entry \<Rightarrow> time \<times> time \<times> string" where
  "due_order r \<equiv> (ob_AvailableAt r, ob_CreatedAt r, ob_ID r)"

lemma sorted_take_drop:
  fixes f :: "'a \<Rightarrow> 'b::linorder"
  assumes "sorted (map f xs)" "x \<in> set (take n xs)" "y \<in> set (drop n xs)"
  shows "f x \<le> f y"
proof -
  have "sorted (map f (take n xs) @ map f (drop n xs))"
    using assms(1) by (simp flip: map_append)
  with assms(2,3) show ?thesis unfolding sorted_append by auto
qed

text \<open>
  The poll shows the entries that are pending or failed for a retry and due, the earliest first,
  as many as the limit allows (20 by default, 100 when more than 10000 are asked for), all of them
  claimable at that moment. An entry being processed is never shown, even after its lease ran out and
  a claim would succeed on it.
\<close>

theorem list_claimable_exact:
  assumes "pg_executor env = None" and "pg_read_fault env = None"
  shows "\<exists>xs rest. list_claimable env limit rows = Inr xs \<and>
     mset xs + mset rest = mset (due_entries (pg_now env) rows) \<and>
     sorted (map due_order xs) \<and>
     length xs = min (length (due_entries (pg_now env) rows))
       (nat (if limit \<le> 0 then 20 else if limit > 10000 then 100 else limit)) \<and>
     (\<forall>x \<in> set xs. \<forall>y \<in> set rest. due_order x \<le> due_order y) \<and>
     (\<forall>x \<in> set xs. ob_claim_where (pg_now env) x \<and> ob_Status x \<noteq> ''processing'')"
proof -
  let ?n = "nat (if limit \<le> 0 then 20 else if limit > 10000 then 100 else limit)"
  let ?s = "sort_key due_order (due_entries (pg_now env) rows)"
  have run: "list_claimable env limit rows = Inr (take ?n ?s)"
    using assms by (auto simp: list_claimable_def due_entries_def Let_def)
  have "mset (take ?n ?s) + mset (drop ?n ?s) = mset ?s"
    by (metis append_take_drop_id mset_append)
  moreover have "set (take ?n ?s) \<subseteq> set (due_entries (pg_now env) rows)"
    using set_take_subset [of ?n ?s] by simp
  then have "\<forall>x \<in> set (take ?n ?s). ob_claim_where (pg_now env) x \<and> ob_Status x \<noteq> ''processing''"
    by (auto simp: due_entries_def ob_claim_where_def)
  moreover have "sorted (map due_order (take ?n ?s))"
    using sorted_wrt_take [OF sorted_sort_key [of due_order "due_entries (pg_now env) rows"], of ?n]
    by (simp add: take_map)
  moreover have "\<forall>x \<in> set (take ?n ?s). \<forall>y \<in> set (drop ?n ?s). due_order x \<le> due_order y"
    using sorted_take_drop [OF sorted_sort_key [of due_order "due_entries (pg_now env) rows"]] by blast
  ultimately show ?thesis using run
    by (intro exI [of _ "take ?n ?s"] exI [of _ "drop ?n ?s"]) simp
qed

section \<open>Samples\<close>

definition sample_env :: "time \<Rightarrow> pg_env" where
  "sample_env now = \<lparr>pg_now = now, go_now = now, pg_uuid = Some, pg_ts = (\<lambda>t. t), pg_executor = None,
     pg_write_fault = None, pg_read_fault = None\<rparr>"

definition sample_entry :: "string \<Rightarrow> outbox_entry" where
  "sample_entry i =
     \<lparr>ob_ID = i, ob_BusinessID = ''b1'', ob_OutboundMessageID = ''o'' @ i,
      ob_CommandType = ''channel.send_message'', ob_DedupeKey = i, ob_Status = ''pending'',
      ob_AttemptCount = 0, ob_AvailableAt = 10, ob_LeaseOwner = None, ob_LeaseToken = None,
      ob_LeaseExpiresAt = None, ob_LastErrorCode = None, ob_ResultCode = None,
      ob_CompletedAt = None, ob_CreatedAt = 5, ob_UpdatedAt = 5\<rparr>"

definition sample_lease :: outbox_lease where
  "sample_lease = \<lparr>le_Owner = ''w1'', le_Token = ''t1'', le_ExpiresAt = 200\<rparr>"

definition held_entry :: outbox_entry where
  "held_entry = ob_claim_set 100 ''w1'' ''t1'' 200 (sample_entry ''e1'')"

lemmas outbox_samples = sample_env_def sample_entry_def sample_lease_def held_entry_def ob_claim_set_def


theorem outbox_lease_exclusive_witness:
  "held_entry \<in> set (outbox_run (\<lambda>_ _. True)
     [(sample_env 150, Claim ''e1'' \<lparr>le_Owner = ''w2'', le_Token = ''t2'', le_ExpiresAt = 300\<rparr>),
      (sample_env 160, Requeue ''e1'' 10 160)] [held_entry])"
  by (rule outbox_lease_exclusive [where own = "''w1''" and tok = "''t1''" and e = 200])
    (auto simp: outbox_samples ob_holder_def canonical_token_def)

theorem outbox_completed_final_witness:
  "(sample_entry ''e1'')\<lparr>ob_Status := ''completed''\<rparr> \<in>
     set (outbox_run (\<lambda>_ _. True) [(sample_env 150, Requeue ''e1'' 10 160), (sample_env 150, Claim ''e1'' sample_lease)]
       [(sample_entry ''e1'')\<lparr>ob_Status := ''completed''\<rparr>])"
  by (rule outbox_completed_final) (simp_all add: outbox_samples)

theorem outbox_claim_exact_witness:
  "claim_entry (sample_env 100) ''e1'' sample_lease [sample_entry ''e1'', sample_entry ''e2''] =
     (Inr \<lparr>cl_Claimed = True, cl_Record = held_entry\<rparr>, [held_entry, sample_entry ''e2''])"
proof -
  have inv: "outbox_inv [sample_entry ''e1'', sample_entry ''e2'']"
    by (simp add: outbox_inv_def outbox_violated_def outbox_checks_def outbox_samples sql_nonblank_def)
  have valid: "valid_claim (sample_env 100) ''e1'' sample_lease" by code_simp
  have "ob_claim_where (pg_now (sample_env 100)) (sample_entry ''e1'')"
    by (simp add: ob_claim_where_def outbox_samples)
  moreover have "sample_entry ''e2'' \<noteq> sample_entry ''e1''" by (simp add: sample_entry_def)
  ultimately show ?thesis
    by (subst outbox_claim_exact [OF inv _ _ valid, where r = "sample_entry ''e1''" and tok = "''t1''"])
      (simp_all add: Let_def, simp_all add: outbox_samples)
qed

theorem list_claimable_exact_witness:
  "\<exists>xs rest. list_claimable (sample_env 100) 0 [sample_entry ''e2'', held_entry, sample_entry ''e1''] = Inr xs \<and>
     mset xs + mset rest = mset [sample_entry ''e2'', sample_entry ''e1''] \<and> length xs = 2"
  using list_claimable_exact [of "sample_env 100" 0 "[sample_entry ''e2'', held_entry, sample_entry ''e1'']"]
  by (auto simp: outbox_samples due_entries_def)

end
