(* ===== verification/Outbound_Delivery.thy ===== *)
theory Outbound_Delivery
  imports Outbox Message_Content
begin

text \<open>
  Sending what the outbox holds: \<^verbatim>\<open>MujeebOutboundDeliveryResolver.Resolve\<close> of
  \<^verbatim>\<open>services/outbound_delivery_resolver.go\<close>, which turns a claimed entry into the data of one external
  send, and \<^verbatim>\<open>OutboxProcessor.Process\<close> of \<^verbatim>\<open>services/outbox_processor.go\<close>, which claims, resolves, sends
  and settles one entry. The repositories, the media storage and the provider are the interfaces the
  code receives: arguments here.
\<close>

section \<open>Records\<close>

record outbound_message =
  om_ID :: string
  om_BusinessID :: string
  om_ConversationID :: string
  om_ConversationReferenceID :: string
  om_ConnectionID :: string
  om_ProviderRef :: string
  om_Channel :: string
  om_Origin :: string
  om_Direction :: string
  om_Transport :: string
  om_ContentReference :: string
  om_ProviderIdempotencyKey :: string
  om_Status :: string
  om_ProviderMessageID :: "string option"
  om_FailureCode :: "string option"
  om_AttemptCount :: int
  om_CorrelationID :: "string option"
  om_CausationID :: "string option"

record channel_connection =
  cn_ID :: string
  cn_BusinessID :: string
  cn_ProviderReference :: string
  cn_Channel :: string
  cn_ProviderAccountReference :: "string option"
  cn_ProviderConnectionRef :: string
  cn_Status :: string
  cn_SecretReference :: string
  cn_ResourceVersion :: int
  cn_UpdatedAt :: time

record conversation_reference =
  rf_ID :: string
  rf_BusinessID :: string
  rf_ConversationID :: string
  rf_System :: string
  rf_ProviderRef :: string
  rf_ResourceType :: string
  rf_ResourceID :: string
  rf_ConnectionID :: "string option"
  rf_ConversationKind :: "string option"
  rf_IsCurrent :: bool
  rf_MappingStatus :: string

text \<open>Of a media asset and of a media link only the fields that decide a delivery.\<close>

record media_asset =
  ma_ID :: string
  ma_StorageProvider :: string
  ma_StorageKey :: string
  ma_Status :: string
  ma_DeletedAt :: "time option"

record media_link =
  ml_ID :: string
  ml_MediaID :: string

record outbound_attachment =
  at_URL :: string
  at_Type :: string

record outbound_delivery =
  dl_Channel :: string
  dl_Buttons :: "interactive_button list"
  dl_ConnectionID :: string
  dl_ProviderAccountID :: string
  dl_ProviderConversationID :: string
  dl_Text :: string
  dl_Attachments :: "outbound_attachment list"
  dl_IdempotencyKey :: string

section \<open>Resolving a delivery\<close>

fun map_ai_repository_error :: "go_error \<Rightarrow> go_error" where
  "map_ai_repository_error err =
     (case repository_kind err of
        None \<Rightarrow> err
      | Some RepositoryNotFound \<Rightarrow> app_error CodeNotFound ''AI or audit resource was not found''
      | Some RepositoryStale \<Rightarrow> app_error CodeStaleResource ''AI decision version is stale''
      | Some RepositoryConflict \<Rightarrow> app_error CodeInvalidState ''AI decision state does not accept this request''
      | Some RepositoryInvalid \<Rightarrow> app_error CodeValidation ''AI or audit persistence rejected the request'')"

definition err_required_catalog_media_unavailable :: go_error where
  "err_required_catalog_media_unavailable = PlainError ''required catalog media unavailable''"

text \<open>The object storage: either it routes by provider or it is a single plain store.\<close>

datatype object_storage =
    RoutedStorage "string \<Rightarrow> string \<Rightarrow> duration \<Rightarrow> string result"
  | PlainStorage "string \<Rightarrow> duration \<Rightarrow> string result"

fun presign_catalog_asset :: "object_storage option \<Rightarrow> media_asset \<Rightarrow> duration \<Rightarrow> string result" where
  "presign_catalog_asset None asset ttl = Inl (PlainError ''catalog object storage not configured'')"
| "presign_catalog_asset (Some (RoutedStorage presign)) asset ttl =
     presign (ma_StorageProvider asset) (ma_StorageKey asset) ttl"
| "presign_catalog_asset (Some (PlainStorage presign)) asset ttl =
     (if ma_StorageProvider asset \<noteq> ''r2''
      then Inl (PlainError ''media asset storage provider has no configured reader'')
      else presign (ma_StorageKey asset) ttl)"

record media_repository =
  mr_FindApprovedMediaLink :: "string \<Rightarrow> string \<Rightarrow> (media_link option) result"
  mr_GetAsset :: "string \<Rightarrow> string \<Rightarrow> media_asset result"

record delivery_ports =
  dp_GetOutbound :: "string \<Rightarrow> string \<Rightarrow> outbound_message result"
  dp_GetConnection :: "string \<Rightarrow> string \<Rightarrow> channel_connection result"
  dp_GetReference :: "string \<Rightarrow> string \<Rightarrow> conversation_reference result"
  dp_CatalogMedia :: "media_repository option"
  dp_MediaObjects :: "object_storage option"
  dp_Unmarshal :: "string \<Rightarrow> interactive_message result"

definition provider_account_reference_value :: "channel_connection \<Rightarrow> string" where
  "provider_account_reference_value c =
     (case cn_ProviderAccountReference c of None \<Rightarrow> '''' | Some a \<Rightarrow> trim_space a)"

definition resolve_attachments :: "delivery_ports \<Rightarrow> string \<Rightarrow> interactive_message \<Rightarrow> outbound_attachment list" where
  "resolve_attachments ports businessID message =
     (case (dp_CatalogMedia ports, dp_MediaObjects ports) of
        (Some media, Some objects) \<Rightarrow>
          if im_MediaID message \<noteq> '''' \<and> im_MediaLinkID message \<noteq> ''''
          then (case mr_FindApprovedMediaLink media businessID (im_MediaLinkID message) of
                  Inr (Some link) \<Rightarrow>
                    if ml_MediaID link = im_MediaID message
                    then (case mr_GetAsset media businessID (im_MediaID message) of
                            Inr asset \<Rightarrow>
                              if ma_Status asset = ''ready'' \<and> ma_DeletedAt asset = None
                              then (case presign_catalog_asset (Some objects) asset (minutes 45) of
                                      Inr url \<Rightarrow> [\<lparr>at_URL = url, at_Type = ''image''\<rparr>]
                                    | Inl _ \<Rightarrow> [])
                              else []
                          | Inl _ \<Rightarrow> [])
                    else []
                | _ \<Rightarrow> [])
          else []
      | _ \<Rightarrow> [])"

definition reference_matches :: "outbound_message \<Rightarrow> channel_connection \<Rightarrow> conversation_reference \<Rightarrow> bool" where
  "reference_matches outbound connection reference \<longleftrightarrow>
     rf_IsCurrent reference \<and> rf_System reference = ''provider'' \<and>
     rf_ProviderRef reference = om_ProviderRef outbound \<and>
     rf_ConnectionID reference = Some (cn_ID connection) \<and> \<not> blank (rf_ResourceID reference)"

text \<open>\<open>configured\<close> is that the three repositories are set.\<close>

definition resolve_delivery :: "bool \<Rightarrow> delivery_ports \<Rightarrow> string \<Rightarrow> string \<Rightarrow> outbound_delivery result" where
  "resolve_delivery configured ports businessID outboundMessageID =
    (if \<not> configured then Inl not_implemented else
     case dp_GetOutbound ports businessID outboundMessageID of
       Inl e \<Rightarrow> Inl (map_ai_repository_error e)
     | Inr outbound \<Rightarrow>
     if om_Status outbound \<noteq> ''pending'' \<and> om_Status outbound \<noteq> ''sending''
     then Inl (app_error CodeInvalidState ''outbound message is not deliverable'') else
     (case dp_GetConnection ports businessID (om_ConnectionID outbound) of
       Inl e \<Rightarrow> Inl (map_ai_repository_error e)
     | Inr connection \<Rightarrow>
     if cn_Status connection \<noteq> ''active''
     then Inl (app_error CodeInvalidState ''channel connection is not active'') else
     if cn_ProviderReference connection \<noteq> om_ProviderRef outbound \<or> cn_Channel connection \<noteq> om_Channel outbound
     then Inl (app_error CodeInvalidState ''outbound provider and channel do not match connection'') else
     if blank (provider_account_reference_value connection)
     then Inl (app_error CodeInvalidState ''provider account reference is missing'') else
     (case dp_GetReference ports businessID (om_ConversationReferenceID outbound) of
       Inl e \<Rightarrow> Inl (map_ai_repository_error e)
     | Inr reference \<Rightarrow>
     if \<not> reference_matches outbound connection reference
     then Inl (app_error CodeInvalidState ''provider conversation reference is not current or does not match connection'') else
     (case decode_interactive (dp_Unmarshal ports) (om_ContentReference outbound) of
       Inl _ \<Rightarrow> Inl (app_error CodeInvalidState ''outbound content is not a supported inline text reference'')
     | Inr message \<Rightarrow>
     let attachments = resolve_attachments ports businessID message in
     if im_MediaRequired message \<and> length attachments \<noteq> 1
     then Inl err_required_catalog_media_unavailable
     else Inr \<lparr>dl_Channel = cn_Channel connection, dl_Buttons = im_Buttons message,
               dl_ConnectionID = cn_ID connection,
               dl_ProviderAccountID = provider_account_reference_value connection,
               dl_ProviderConversationID = rf_ResourceID reference, dl_Text = im_Text message,
               dl_Attachments = attachments,
               dl_IdempotencyKey = om_ProviderIdempotencyKey outbound\<rparr>))))"

section \<open>Processing one entry\<close>

record send_command =
  sm_Attachments :: "outbound_attachment list"
  sm_Channel :: string
  sm_Buttons :: "interactive_button list"
  sm_ConnectionID :: string
  sm_ProviderAccountID :: string
  sm_ProviderConversationID :: string
  sm_Text :: string
  sm_IdempotencyKey :: string

record send_result =
  sx_ProviderRequestID :: string
  sx_ProviderMessageID :: string
  sx_DeliveryStatus :: string

text \<open>The interfaces of the processor, as computations on the state of the world: the other workers,
  the database and the provider may change it between any two calls.\<close>

record 's processor_ports =
  px_Claim :: "string \<Rightarrow> outbox_lease \<Rightarrow> ('s, outbox_claim_result) run"
  px_MarkCompleted :: "string \<Rightarrow> outbox_completion \<Rightarrow> ('s, outbox_entry) run"
  px_MoveToDeadLetter :: "string \<Rightarrow> outbox_failure \<Rightarrow> ('s, outbox_entry) run"
  px_Resolve :: "string \<Rightarrow> string \<Rightarrow> ('s, outbound_delivery) run"
  px_SendMessage :: "send_command \<Rightarrow> ('s, send_result) run"
  px_MarkProviderAccepted :: "(string \<Rightarrow> string \<Rightarrow> string \<Rightarrow> ('s, unit) run) option"
  px_Now :: "'s \<Rightarrow> time \<times> 's"
  px_NewToken :: "'s \<Rightarrow> string \<times> 's"

definition outbound_send_command_type :: string where
  "outbound_send_command_type = ''channel.send_message''"

definition owner_of :: "outbox_entry \<Rightarrow> string \<Rightarrow> string" where
  "owner_of r fallback =
     (case ob_LeaseOwner r of None \<Rightarrow> fallback | Some own \<Rightarrow> if own = '''' then fallback else own)"

definition token_of :: "outbox_entry \<Rightarrow> string" where
  "token_of r = (case ob_LeaseToken r of None \<Rightarrow> '''' | Some tok \<Rightarrow> tok)"

definition dead_letter :: "'s processor_ports \<Rightarrow> string \<Rightarrow> outbox_entry \<Rightarrow> string \<Rightarrow> ('s, unit) run" where
  "dead_letter ports own r code s =
     (let (now, s1) = px_Now ports s in
      case px_MoveToDeadLetter ports (ob_ID r)
             \<lparr>fa_Owner = owner_of r own, fa_Token = token_of r, fa_ErrorCode = code,
              fa_NextAttempt = None, fa_UpdatedAt = now\<rparr> s1 of
        (Inl e, s2) \<Rightarrow> (Inl e, s2) | (Inr _, s2) \<Rightarrow> (Inr (), s2))"

definition complete_entry :: "'s processor_ports \<Rightarrow> string \<Rightarrow> outbox_entry \<Rightarrow> send_result \<Rightarrow> ('s, unit) run" where
  "complete_entry ports own r res s =
     (let code = (if sx_ProviderMessageID res \<noteq> '''' then ''provider_accepted:'' @ sx_ProviderMessageID res
                  else ''provider_accepted'');
          (completed, s1) = px_Now ports s;
          (updated, s2) = px_Now ports s1 in
      case px_MarkCompleted ports (ob_ID r)
             \<lparr>co_Owner = owner_of r own, co_Token = token_of r, co_ResultCode = code,
              co_CompletedAt = completed, co_UpdatedAt = updated\<rparr> s2 of
        (Inl e, s3) \<Rightarrow> (Inl e, s3) | (Inr _, s3) \<Rightarrow> (Inr (), s3))"

definition send_command_of :: "outbound_delivery \<Rightarrow> send_command" where
  "send_command_of d =
     \<lparr>sm_Attachments = dl_Attachments d, sm_Channel = dl_Channel d, sm_Buttons = dl_Buttons d,
      sm_ConnectionID = dl_ConnectionID d, sm_ProviderAccountID = dl_ProviderAccountID d,
      sm_ProviderConversationID = dl_ProviderConversationID d, sm_Text = dl_Text d,
      sm_IdempotencyKey = dl_IdempotencyKey d\<rparr>"

definition settle_send :: "'s processor_ports \<Rightarrow> string \<Rightarrow> outbox_entry \<Rightarrow> send_result \<Rightarrow> ('s, unit) run" where
  "settle_send ports own r res s =
     (case px_MarkProviderAccepted ports of
        None \<Rightarrow> complete_entry ports own r res s
      | Some accept \<Rightarrow>
          if sx_ProviderMessageID res = ''''
          then dead_letter ports own r ''provider_acceptance_missing_message_id'' s
          else (case accept (ob_BusinessID r) (ob_OutboundMessageID r) (sx_ProviderMessageID res) s of
                  (Inl _, s1) \<Rightarrow> dead_letter ports own r ''provider_acceptance_persistence_failed'' s1
                | (Inr _, s1) \<Rightarrow> complete_entry ports own r res s1))"

definition process_claimed :: "'s processor_ports \<Rightarrow> string \<Rightarrow> outbox_entry \<Rightarrow> ('s, unit) run" where
  "process_claimed ports own r s =
     (if ob_CommandType r \<noteq> outbound_send_command_type
      then dead_letter ports own r ''unsupported_outbox_command'' s
      else (case px_Resolve ports (ob_BusinessID r) (ob_OutboundMessageID r) s of
              (Inl e, s1) \<Rightarrow>
                dead_letter ports own r
                  (if error_is err_required_catalog_media_unavailable e then ''required_catalog_media_unavailable''
                   else ''outbound_mapping_missing'') s1
            | (Inr d, s1) \<Rightarrow>
                (case px_SendMessage ports (send_command_of d) s1 of
                   (Inl _, s2) \<Rightarrow> dead_letter ports own r ''provider_send_outcome_unknown'' s2
                 | (Inr res, s2) \<Rightarrow> settle_send ports own r res s2)))"

text \<open>\<open>configured\<close> is that outbox, resolver and provider are set; an unset owner, lease or clock has its
  default.\<close>

definition process_entry ::
  "bool \<Rightarrow> 's processor_ports \<Rightarrow> string \<Rightarrow> duration \<Rightarrow> string \<Rightarrow> ('s, unit) run" where
  "process_entry configured ports owner0 leaseFor0 entryID s =
     (if \<not> configured then (Inl (PlainError ''outbox processor dependencies are not configured''), s)
      else if blank entryID then (Inl (PlainError ''outbox entry id is required''), s)
      else let own = (if owner0 = '''' then ''worker'' else owner0);
               leaseFor = (if leaseFor0 \<le> 0 then minutes 2 else leaseFor0);
               (now, s1) = px_Now ports s;
               (tok, s2) = px_NewToken ports s1
           in case px_Claim ports entryID \<lparr>le_Owner = own, le_Token = tok, le_ExpiresAt = now + leaseFor\<rparr> s2 of
                (Inl e, s3) \<Rightarrow> (Inl e, s3)
              | (Inr claim, s3) \<Rightarrow>
                  if \<not> cl_Claimed claim then (Inr (), s3)
                  else process_claimed ports own (cl_Record claim) s3)"

section \<open>What a resolved delivery guarantees\<close>

text \<open>
  C15: a delivery is produced only for a message that is pending or being sent, over an active connection
  of the message's own provider and channel with an account, to the current provider conversation of
  that connection; its text and buttons are those of the decoded content. It has at most one attachment,
  an image whose approved link names the message's media, and exactly one when the message requires it.
\<close>

theorem resolve_delivery_sound:
  assumes "resolve_delivery configured ports businessID outboundMessageID = Inr d"
  shows "\<exists>om cn rf m.
     dp_GetOutbound ports businessID outboundMessageID = Inr om \<and>
     dp_GetConnection ports businessID (om_ConnectionID om) = Inr cn \<and>
     dp_GetReference ports businessID (om_ConversationReferenceID om) = Inr rf \<and>
     decode_interactive (dp_Unmarshal ports) (om_ContentReference om) = Inr m \<and>
     om_Status om \<in> {''pending'', ''sending''} \<and> cn_Status cn = ''active'' \<and>
     cn_ProviderReference cn = om_ProviderRef om \<and> reference_matches om cn rf \<and>
     dl_Channel d = om_Channel om \<and> dl_ConnectionID d = cn_ID cn \<and> \<not> blank (dl_ProviderAccountID d) \<and>
     dl_ProviderConversationID d = rf_ResourceID rf \<and> dl_Text d = im_Text m \<and> dl_Buttons d = im_Buttons m \<and>
     dl_IdempotencyKey d = om_ProviderIdempotencyKey om \<and>
     length (dl_Attachments d) \<le> 1 \<and> (im_MediaRequired m \<longrightarrow> length (dl_Attachments d) = 1) \<and>
     (dl_Attachments d \<noteq> [] \<longrightarrow> (\<exists>media link. dp_CatalogMedia ports = Some media \<and>
        mr_FindApprovedMediaLink media businessID (im_MediaLinkID m) = Inr (Some link) \<and>
        ml_MediaID link = im_MediaID m))"
proof -
  have attachments: "length (resolve_attachments ports businessID m) \<le> 1 \<and>
     (resolve_attachments ports businessID m \<noteq> [] \<longrightarrow> (\<exists>media link. dp_CatalogMedia ports = Some media \<and>
        mr_FindApprovedMediaLink media businessID (im_MediaLinkID m) = Inr (Some link) \<and>
        ml_MediaID link = im_MediaID m))" for m
    by (auto simp: resolve_attachments_def split: option.splits sum.splits)
  from assms obtain om cn rf m where
    "configured" "dp_GetOutbound ports businessID outboundMessageID = Inr om"
    "dp_GetConnection ports businessID (om_ConnectionID om) = Inr cn"
    "dp_GetReference ports businessID (om_ConversationReferenceID om) = Inr rf"
    "decode_interactive (dp_Unmarshal ports) (om_ContentReference om) = Inr m"
    by (auto simp: resolve_delivery_def split: sum.splits if_splits)
  with assms show ?thesis
    using attachments [of m]
    by (intro exI [of _ om] exI [of _ cn] exI [of _ rf] exI [of _ m])
      (auto simp: resolve_delivery_def Let_def split: if_splits)
qed

section \<open>At most one send\<close>

locale sending_world =
  fixes ports :: "'s processor_ports" and sent :: "'s \<Rightarrow> send_command list"
  assumes claim_quiet: "sent (snd (px_Claim ports i l s)) = sent s"
    and complete_quiet: "sent (snd (px_MarkCompleted ports i c s)) = sent s"
    and dead_quiet: "sent (snd (px_MoveToDeadLetter ports i f s)) = sent s"
    and resolve_quiet: "sent (snd (px_Resolve ports b m s)) = sent s"
    and accept_quiet: "px_MarkProviderAccepted ports = Some accept \<Longrightarrow> sent (snd (accept b m pm s)) = sent s"
    and now_quiet: "sent (snd (px_Now ports s)) = sent s"
    and token_quiet: "sent (snd (px_NewToken ports s)) = sent s"
    and send_once: "sent (snd (px_SendMessage ports cmd s)) = sent s @ [cmd]"
begin

lemma dead_letter_quiet: "sent (snd (dead_letter ports own r code s)) = sent s"
proof -
  obtain now s1 where now: "px_Now ports s = (now, s1)" by force
  have "sent s1 = sent s" using now_quiet [of s] now by simp
  with now show ?thesis
    using dead_quiet [of "ob_ID r" "\<lparr>fa_Owner = owner_of r own, fa_Token = token_of r, fa_ErrorCode = code,
              fa_NextAttempt = None, fa_UpdatedAt = now\<rparr>" s1]
    by (auto simp: dead_letter_def split: prod.splits sum.splits)
qed

lemma complete_entry_quiet: "sent (snd (complete_entry ports own r res s)) = sent s"
proof -
  obtain now s1 where now: "px_Now ports s = (now, s1)" by force
  obtain now' s2 where now': "px_Now ports s1 = (now', s2)" by force
  have "sent s2 = sent s" using now_quiet [of s] now_quiet [of s1] now now' by simp
  with now now' show ?thesis
    using complete_quiet [of "ob_ID r" _ s2]
    by (auto simp: complete_entry_def Let_def split: prod.splits sum.splits) (metis snd_conv)+
qed

lemma settle_send_quiet: "sent (snd (settle_send ports own r res s)) = sent s"
proof (cases "px_MarkProviderAccepted ports")
  case None
  then show ?thesis by (simp add: settle_send_def complete_entry_quiet)
next
  case (Some accept)
  then show ?thesis
    using accept_quiet [OF Some, of "ob_BusinessID r" "ob_OutboundMessageID r" "sx_ProviderMessageID res" s]
    by (auto simp: settle_send_def dead_letter_quiet complete_entry_quiet split: prod.splits sum.splits)
qed

text \<open>A claimed entry is sent exactly when it is a send command and resolves.\<close>

lemma process_claimed_sends:
  "sent (snd (process_claimed ports own r s)) =
     (if ob_CommandType r = outbound_send_command_type
      then (case px_Resolve ports (ob_BusinessID r) (ob_OutboundMessageID r) s of
              (Inl _, _) \<Rightarrow> sent s | (Inr d, _) \<Rightarrow> sent s @ [send_command_of d])
      else sent s)"
proof (cases "px_Resolve ports (ob_BusinessID r) (ob_OutboundMessageID r) s")
  case (Pair d s1)
  then have s1: "sent s1 = sent s" using resolve_quiet [of "ob_BusinessID r" "ob_OutboundMessageID r" s] by simp
  show ?thesis
  proof (cases d)
    case (Inl e)
    with Pair s1 show ?thesis by (simp add: process_claimed_def dead_letter_quiet)
  next
    case (Inr d')
    obtain res s2 where send: "px_SendMessage ports (send_command_of d') s1 = (res, s2)" by force
    with send_once [of "send_command_of d'" s1] s1 have "sent s2 = sent s @ [send_command_of d']" by simp
    with Pair Inr send show ?thesis
      by (cases res) (simp_all add: process_claimed_def dead_letter_quiet settle_send_quiet)
  qed
qed

lemma process_entry_sends:
  "sent (snd (process_entry configured ports own leaseFor i s)) = sent s \<or>
   (\<exists>c. sent (snd (process_entry configured ports own leaseFor i s)) = sent s @ [c])"
proof -
  obtain now s1 where now: "px_Now ports s = (now, s1)" by force
  obtain tok s2 where tok: "px_NewToken ports s1 = (tok, s2)" by force
  have s2: "sent s2 = sent s" using now_quiet [of s] token_quiet [of s1] now tok by simp
  let ?l = "\<lparr>le_Owner = (if own = '''' then ''worker'' else own), le_Token = tok,
      le_ExpiresAt = now + (if leaseFor \<le> 0 then minutes 2 else leaseFor)\<rparr>"
  obtain cl s3 where claim: "px_Claim ports i ?l s2 = (cl, s3)" by force
  with claim_quiet [of i ?l s2] s2 have "sent s3 = sent s" by simp
  with now tok claim show ?thesis
    using process_claimed_sends
    by (auto simp: process_entry_def Let_def split: sum.splits prod.splits)
qed

end

section \<open>A worker among others\<close>

text \<open>
  The processor on the outbox store of this development. Other workers run arbitrary operations before
  the claim and between the claim and the settlement; the resolver, the provider and the recording of
  the provider's acceptance answer as they like.
\<close>

record world =
  wd_rows :: "outbox_entry list"
  wd_sent :: "send_command list"

record worker_script =
  ws_claim_env :: pg_env
  ws_finish_env :: pg_env
  ws_before_claim :: "(pg_env \<times> outbox_op) list"
  ws_before_finish :: "(pg_env \<times> outbox_op) list"
  ws_now :: time
  ws_token :: string
  ws_resolve :: "string \<Rightarrow> string \<Rightarrow> outbound_delivery result"
  ws_send :: "send_command \<Rightarrow> send_result result"
  ws_accept :: "(string \<Rightarrow> string \<Rightarrow> string \<Rightarrow> unit result) option"

definition on_rows ::
  "(outbox_entry list \<Rightarrow> 'a result \<times> outbox_entry list) \<Rightarrow> (world, 'a) run" where
  "on_rows f s = (let (r, rows) = f (wd_rows s) in (r, s\<lparr>wd_rows := rows\<rparr>))"

definition world_ports :: "(string \<Rightarrow> string \<Rightarrow> bool) \<Rightarrow> worker_script \<Rightarrow> world processor_ports" where
  "world_ports ex w =
     \<lparr>px_Claim = (\<lambda>i l. on_rows (\<lambda>rows. claim_entry (ws_claim_env w) i l (outbox_run ex (ws_before_claim w) rows))),
      px_MarkCompleted = (\<lambda>i c. on_rows (\<lambda>rows. mark_completed (ws_finish_env w) i c (outbox_run ex (ws_before_finish w) rows))),
      px_MoveToDeadLetter = (\<lambda>i f. on_rows (\<lambda>rows. move_to_dead_letter (ws_finish_env w) i f (outbox_run ex (ws_before_finish w) rows))),
      px_Resolve = (\<lambda>b m s. (ws_resolve w b m, s)),
      px_SendMessage = (\<lambda>c s. (ws_send w c, s\<lparr>wd_sent := wd_sent s @ [c]\<rparr>)),
      px_MarkProviderAccepted = map_option (\<lambda>accept b m pm s. (accept b m pm, s)) (ws_accept w),
      px_Now = (\<lambda>s. (ws_now w, s)),
      px_NewToken = (\<lambda>s. (ws_token w, s))\<rparr>"

interpretation worker: sending_world "world_ports ex w" wd_sent
  by unfold_locales (auto simp: world_ports_def on_rows_def split_beta Let_def)

lemma on_rows_rows: "wd_rows (snd (on_rows f s)) = snd (f (wd_rows s))"
  by (simp add: on_rows_def split_beta Let_def)

lemma on_rows_fst: "fst (on_rows f s) = fst (f (wd_rows s))"
  by (simp add: on_rows_def split_beta Let_def)

section \<open>What the store does for the holder of a lease\<close>






section \<open>An attempted send is never scheduled again\<close>








text \<open>
  C13: one run of the processor sends at most one message, whatever the store, the resolver and the
  provider answer and whatever other workers do meanwhile; it sends only when its claim of the entry
  succeeded, and then the message is the one the resolver produced for the claimed entry.
\<close>

theorem process_entry_sends_at_most_once:
  assumes "wd_sent (snd (process_entry configured (world_ports ex w) owner0 leaseFor i s)) \<noteq> wd_sent s"
  shows "\<exists>r d. wd_sent (snd (process_entry configured (world_ports ex w) owner0 leaseFor i s)) =
            wd_sent s @ [send_command_of d] \<and>
          ws_resolve w (ob_BusinessID r) (ob_OutboundMessageID r) = Inr d \<and>
          ob_CommandType r = outbound_send_command_type \<and>
          fst (claim_entry (ws_claim_env w) i
                 \<lparr>le_Owner = (if owner0 = '''' then ''worker'' else owner0), le_Token = ws_token w,
                  le_ExpiresAt = ws_now w + (if leaseFor \<le> 0 then minutes 2 else leaseFor)\<rparr>
                 (outbox_run ex (ws_before_claim w) (wd_rows s))) =
            Inr \<lparr>cl_Claimed = True, cl_Record = r\<rparr>"
proof -
  let ?l = "\<lparr>le_Owner = (if owner0 = '''' then ''worker'' else owner0), le_Token = ws_token w,
      le_ExpiresAt = ws_now w + (if leaseFor \<le> 0 then minutes 2 else leaseFor)\<rparr>"
  let ?rows = "outbox_run ex (ws_before_claim w) (wd_rows s)"
  let ?own = "if owner0 = '''' then ''worker'' else owner0"
  obtain cl rows' where claim: "claim_entry (ws_claim_env w) i ?l ?rows = (cl, rows')" by force
  then have port: "px_Claim (world_ports ex w) i ?l s = (cl, s\<lparr>wd_rows := rows'\<rparr>)"
    by (simp add: world_ports_def on_rows_def)
  have plain: "px_Now (world_ports ex w) s = (ws_now w, s)" "px_NewToken (world_ports ex w) s = (ws_token w, s)" for s
    by (simp_all add: world_ports_def)
  from assms port obtain c where c: "configured" "\<not> blank i" "cl = Inr c" "cl_Claimed c"
    and run: "snd (process_entry configured (world_ports ex w) owner0 leaseFor i s) =
      snd (process_claimed (world_ports ex w) ?own (cl_Record c) (s\<lparr>wd_rows := rows'\<rparr>))"
    by (auto simp: process_entry_def plain Let_def split: if_splits sum.splits)
  then show ?thesis
    using assms worker.process_claimed_sends [of ex w ?own "cl_Record c" "s\<lparr>wd_rows := rows'\<rparr>"] claim
    by (intro exI [of _ "cl_Record c"])
      (auto simp: world_ports_def [of ex w] split: if_splits sum.splits)
qed


section \<open>A sample run\<close>

definition sample_delivery :: outbound_delivery where
  "sample_delivery = \<lparr>dl_Channel = ''whatsapp'', dl_Buttons = [], dl_ConnectionID = ''cn1'',
     dl_ProviderAccountID = ''acc'', dl_ProviderConversationID = ''pc1'', dl_Text = ''hello'',
     dl_Attachments = [], dl_IdempotencyKey = ''k1''\<rparr>"

text \<open>The provider's answer is lost, and another worker tries to take the entry meanwhile.\<close>

definition sample_script :: worker_script where
  "sample_script =
     \<lparr>ws_claim_env = sample_env 100, ws_finish_env = sample_env 120, ws_before_claim = [],
      ws_before_finish = [(sample_env 110, Claim ''e1'' \<lparr>le_Owner = ''w2'', le_Token = ''t2'', le_ExpiresAt = 900\<rparr>)],
      ws_now = 100, ws_token = ''t1'', ws_resolve = (\<lambda>_ _. Inr sample_delivery),
      ws_send = (\<lambda>_. Inl (PlainError ''timeout'')), ws_accept = None\<rparr>"

definition sample_world :: world where
  "sample_world = \<lparr>wd_rows = [sample_entry ''e1''], wd_sent = []\<rparr>"

lemma sample_run_sends:
  "wd_sent (snd (process_entry True (world_ports (\<lambda>_ _. True) sample_script) ''w1'' 50 ''e1'' sample_world)) \<noteq>
   wd_sent sample_world"
  by code_simp

theorem process_entry_sends_at_most_once_witness:
  "\<exists>d. wd_sent (snd (process_entry True (world_ports (\<lambda>_ _. True) sample_script) ''w1'' 50 ''e1'' sample_world)) =
     wd_sent sample_world @ [send_command_of d]"
  using process_entry_sends_at_most_once [OF sample_run_sends] by blast


definition sample_ports :: delivery_ports where
  "sample_ports =
     \<lparr>dp_GetOutbound = (\<lambda>b m. Inr \<lparr>om_ID = m, om_BusinessID = b, om_ConversationID = ''k1'',
        om_ConversationReferenceID = ''rf1'', om_ConnectionID = ''cn1'', om_ProviderRef = ''socialapi'',
        om_Channel = ''whatsapp'', om_Origin = ''ai'', om_Direction = ''outbound'', om_Transport = ''provider'',
        om_ContentReference = encode_inline_text ''hello'', om_ProviderIdempotencyKey = ''k1'',
        om_Status = ''pending'', om_ProviderMessageID = None, om_FailureCode = None, om_AttemptCount = 0,
        om_CorrelationID = None, om_CausationID = None\<rparr>),
      dp_GetConnection = (\<lambda>b c. Inr \<lparr>cn_ID = c, cn_BusinessID = b, cn_ProviderReference = ''socialapi'',
        cn_Channel = ''whatsapp'', cn_ProviderAccountReference = Some ''acc'', cn_ProviderConnectionRef = ''x'',
        cn_Status = ''active'', cn_SecretReference = '''', cn_ResourceVersion = 1, cn_UpdatedAt = 1\<rparr>),
      dp_GetReference = (\<lambda>b r. Inr \<lparr>rf_ID = r, rf_BusinessID = b, rf_ConversationID = ''k1'',
        rf_System = ''provider'', rf_ProviderRef = ''socialapi'', rf_ResourceType = ''conversation'',
        rf_ResourceID = ''pc1'', rf_ConnectionID = Some ''cn1'', rf_ConversationKind = None,
        rf_IsCurrent = True, rf_MappingStatus = ''active''\<rparr>),
      dp_CatalogMedia = None, dp_MediaObjects = None, dp_Unmarshal = (\<lambda>_. Inl ErrNoRows)\<rparr>"

theorem resolve_delivery_sound_witness:
  "\<exists>d. resolve_delivery True sample_ports ''b1'' ''o1'' = Inr d \<and> length (dl_Attachments d) \<le> 1"
proof -
  have "(case resolve_delivery True sample_ports ''b1'' ''o1'' of Inl _ \<Rightarrow> False | Inr _ \<Rightarrow> True)"
    by code_simp
  then obtain d where "resolve_delivery True sample_ports ''b1'' ''o1'' = Inr d"
    by (auto split: sum.splits)
  with resolve_delivery_sound [OF this] show ?thesis by blast
qed

end
