(* ===== verification/Delivery_Status.thy ===== *)
theory Delivery_Status
  imports Inbound_Ledger Outbound_Delivery
begin

text \<open>
  Delivery callbacks: \<^verbatim>\<open>DeliveryStatusStore.Apply\<close> of \<^verbatim>\<open>postgres/delivery_status_store.go\<close>, one
  transaction over the ledger, the outbound messages and the table of status updates, and
  \<^verbatim>\<open>OutboundMessageRepository.MarkProviderAccepted\<close> of \<^verbatim>\<open>postgres/communication_repositories.go\<close>.
\<close>

section \<open>Data\<close>

record outbound_row = outbound_message +
  ow_UpdatedAt :: time

record status_update =
  su_ID :: string
  su_BusinessID :: string
  su_InboundEventID :: string
  su_OutboundMessageID :: "string option"
  su_ProviderRef :: string
  su_ProviderMessageID :: string
  su_DeliveryStatus :: string
  su_OccurredAt :: time
  su_CreatedAt :: time

record delivery_db =
  db_Events :: "inbound_event list"
  db_Messages :: "outbound_row list"
  db_Updates :: "status_update list"

record delivery_draft =
  dd_InboundEventID :: string
  dd_BusinessID :: string
  dd_ConnectionID :: string
  dd_ProviderRef :: string
  dd_ProviderAccountRef :: string
  dd_ProviderMessageID :: string
  dd_Status :: string
  dd_OccurredAt :: time

record delivery_result =
  dz_InboundEventID :: string
  dz_OutboundMessageID :: string
  dz_Applied :: bool
  dz_Ignored :: bool
  dz_Duplicate :: bool
  dz_Status :: string

section \<open>Statuses\<close>

definition valid_delivery_status :: "string \<Rightarrow> bool" where
  "valid_delivery_status s \<longleftrightarrow> s \<in> {''accepted'', ''sent'', ''delivered'', ''read'', ''failed''}"

text \<open>A missing key of the map reads as zero.\<close>

definition delivery_rank :: "string \<Rightarrow> int" where
  "delivery_rank s =
     (if s = ''pending'' then 0 else if s = ''sending'' then 1 else if s = ''accepted'' then 2
      else if s = ''sent'' then 3 else if s = ''delivered'' then 4 else if s = ''read'' then 5
      else if s = ''failed'' then 2 else if s = ''unknown'' then 1 else 0)"

definition monotonic_delivery_status :: "string \<Rightarrow> string \<Rightarrow> string" where
  "monotonic_delivery_status current incoming =
     (if current = ''read'' \<or> current = ''delivered'' \<and> incoming \<noteq> ''read'' then current
      else if incoming = ''failed'' \<and> delivery_rank current \<ge> delivery_rank ''sent'' then current
      else if delivery_rank incoming \<ge> delivery_rank current then incoming
      else current)"

section \<open>The transaction\<close>

text \<open>
  What the calls meet: the environment of the database, a failure of the \<open>n\<close>-th statement, the
  identifier drawn for the update, and the order in which the server offers several messages with one
  provider identifier.
\<close>

record delivery_env =
  de_Pg :: pg_env
  de_Fault :: "nat \<Rightarrow> db_fault option"
  de_NewID :: string
  de_Order :: "outbound_row list \<Rightarrow> outbound_row list"

definition statement :: "delivery_env \<Rightarrow> nat \<Rightarrow> ('t \<Rightarrow> 'a result \<times> 't) \<Rightarrow> ('t, 'a) run" where
  "statement de n body t = (case de_Fault de n of Some f \<Rightarrow> (Inl (fault_error f), t) | None \<Rightarrow> body t)"

text \<open>The four columns of the event; scanning \<^verbatim>\<open>NULL\<close> into a string fails.\<close>

definition delivery_event :: "delivery_env \<Rightarrow> string \<Rightarrow> delivery_db \<Rightarrow> (string \<times> string \<times> string \<times> string) result" where
  "delivery_event de eventID db =
     with_uuid (de_Pg de) eventID (\<lambda>event.
       case find (\<lambda>r. ie_ID r = event) (db_Events db) of
         None \<Rightarrow> Inl ErrNoRows
       | Some r \<Rightarrow> (case (ie_BusinessID r, ie_ConnectionID r) of
                      (Some b, Some c) \<Rightarrow> Inr (b, c, ie_ProviderConnectionRef r, ie_EventType r)
                    | _ \<Rightarrow> Inl (PlainError ''cannot scan NULL into *string'')))"

definition existing_update :: "delivery_env \<Rightarrow> delivery_draft \<Rightarrow> delivery_db \<Rightarrow> status_update result" where
  "existing_update de d db =
     with_uuid (de_Pg de) (dd_BusinessID d) (\<lambda>b. with_uuid (de_Pg de) (dd_InboundEventID d) (\<lambda>e.
       select_one (\<lambda>u. su_BusinessID u = b \<and> su_InboundEventID u = e) (db_Updates db)))"

definition matching_message :: "delivery_env \<Rightarrow> delivery_draft \<Rightarrow> delivery_db \<Rightarrow> outbound_row result" where
  "matching_message de d db =
     with_uuid (de_Pg de) (dd_BusinessID d) (\<lambda>b. with_uuid (de_Pg de) (dd_ConnectionID d) (\<lambda>c.
       select_one (\<lambda>o1. om_BusinessID o1 = b \<and> om_ConnectionID o1 = c \<and> om_ProviderRef o1 = dd_ProviderRef d \<and>
                       om_ProviderMessageID o1 = Some (dd_ProviderMessageID d)) (de_Order de (db_Messages db))))"

definition new_update ::
  "delivery_env \<Rightarrow> delivery_draft \<Rightarrow> string option \<Rightarrow> string \<Rightarrow> string \<Rightarrow> string \<Rightarrow> status_update" where
  "new_update de d outbound i b e =
     \<lparr>su_ID = i, su_BusinessID = b, su_InboundEventID = e, su_OutboundMessageID = outbound,
      su_ProviderRef = dd_ProviderRef d, su_ProviderMessageID = dd_ProviderMessageID d,
      su_DeliveryStatus = dd_Status d, su_OccurredAt = pg_ts (de_Pg de) (dd_OccurredAt d),
      su_CreatedAt = pg_ts (de_Pg de) (dd_OccurredAt d)\<rparr>"

definition update_violated :: "status_update \<Rightarrow> status_update list \<Rightarrow> string option" where
  "update_violated u us =
     (if \<not> (sql_nonblank (su_ProviderMessageID u) \<and> sql_nonblank (su_ProviderRef u) \<and>
            valid_delivery_status (su_DeliveryStatus u))
      then Some check_violation
      else if \<exists>x \<in> set us. su_ID x = su_ID u \<or>
                (su_BusinessID x = su_BusinessID u \<and> su_InboundEventID x = su_InboundEventID u)
      then Some unique_violation else None)"

definition insert_update :: "delivery_env \<Rightarrow> delivery_draft \<Rightarrow> string option \<Rightarrow> (delivery_db, unit) run" where
  "insert_update de d outbound db =
     (case with_uuid (de_Pg de) (de_NewID de) (\<lambda>i. with_uuid (de_Pg de) (dd_BusinessID d) (\<lambda>b.
             with_uuid (de_Pg de) (dd_InboundEventID d) (\<lambda>e.
               insert_returning update_violated (new_update de d outbound i b e) (db_Updates db)))) of
        Inl err \<Rightarrow> (Inl err, db)
      | Inr (_, us) \<Rightarrow> (Inr (), db\<lparr>db_Updates := us\<rparr>))"

definition set_message_status :: "delivery_env \<Rightarrow> time \<Rightarrow> string \<Rightarrow> outbound_row \<Rightarrow> outbound_row" where
  "set_message_status de at status r =
     r\<lparr>om_Status := status,
       om_FailureCode := (if status = ''failed''
                          then Some (case om_FailureCode r of None \<Rightarrow> ''provider_delivery_failed'' | Some c \<Rightarrow> c)
                          else om_FailureCode r),
       ow_UpdatedAt := pg_ts (de_Pg de) at\<rparr>"

definition update_message :: "delivery_env \<Rightarrow> delivery_draft \<Rightarrow> string \<Rightarrow> string \<Rightarrow> (delivery_db, unit) run" where
  "update_message de d messageID status db =
     (case with_uuid (de_Pg de) (dd_BusinessID d) (\<lambda>b. with_uuid (de_Pg de) messageID (\<lambda>i. Inr (b, i))) of
        Inl e \<Rightarrow> (Inl e, db)
      | Inr (b, i) \<Rightarrow>
          (Inr (), db\<lparr>db_Messages := update_where (\<lambda>r. om_BusinessID r = b \<and> om_ID r = i)
                                       (set_message_status de (dd_OccurredAt d) status) (db_Messages db)\<rparr>))"

definition set_event_processed :: "time \<Rightarrow> string \<Rightarrow> inbound_event \<Rightarrow> inbound_event" where
  "set_event_processed now code r =
     r\<lparr>ie_ProcessingState := ''processed'', ie_ProcessingResultCode := Some code,
       ie_ProcessedAt := Some now, ie_UpdatedAt := now\<rparr>"

definition mark_delivery_event_processed :: "delivery_env \<Rightarrow> nat \<Rightarrow> string \<Rightarrow> string \<Rightarrow> (delivery_db, unit) run" where
  "mark_delivery_event_processed de n eventID code db =
     (case statement de n (\<lambda>db.
             (case with_uuid (de_Pg de) eventID (\<lambda>event.
                     update_returning (\<lambda>r. ie_ID r = event \<and> ie_ProcessingState r = ''received'')
                       (set_event_processed (pg_now (de_Pg de)) code) inbound_violated (db_Events db)) of
                Inl e \<Rightarrow> (Inl e, db)
              | Inr (_, events) \<Rightarrow> (Inr (), db\<lparr>db_Events := events\<rparr>))) db of
        (Inr _, db') \<Rightarrow> (Inr (), db')
      | (Inl e, db') \<Rightarrow>
          if is_no_rows e
          then (Inl (RepositoryError ''delivery_status.event.complete'' RepositoryConflict (PlainError ''delivery status event was not received'')), db')
          else (Inl (classify_repository_write_error ''delivery_status.event.complete'' e), db'))"

definition apply_unmatched :: "delivery_env \<Rightarrow> delivery_draft \<Rightarrow> (delivery_db, delivery_result) run" where
  "apply_unmatched de d db =
     (case statement de 3 (insert_update de d None) db of
        (Inl e, db1) \<Rightarrow> (Inl (classify_repository_write_error ''delivery_status.unmatched'' e), db1)
      | (Inr _, db1) \<Rightarrow>
          (case mark_delivery_event_processed de 4 (dd_InboundEventID d) ''delivery_status_unmatched'' db1 of
             (Inl e, db2) \<Rightarrow> (Inl e, db2)
           | (Inr _, db2) \<Rightarrow>
               (Inr \<lparr>dz_InboundEventID = dd_InboundEventID d, dz_OutboundMessageID = '''', dz_Applied = False,
                     dz_Ignored = True, dz_Duplicate = False, dz_Status = dd_Status d\<rparr>, db2)))"

definition apply_matched :: "delivery_env \<Rightarrow> delivery_draft \<Rightarrow> outbound_row \<Rightarrow> (delivery_db, delivery_result) run" where
  "apply_matched de d msg db =
     (let next_status = monotonic_delivery_status (om_Status msg) (dd_Status d) in
      case statement de 3 (update_message de d (om_ID msg) next_status) db of
        (Inl e, db1) \<Rightarrow> (Inl (classify_repository_write_error ''delivery_status.outbound.update'' e), db1)
      | (Inr _, db1) \<Rightarrow>
          (case statement de 4 (insert_update de d (Some (om_ID msg))) db1 of
             (Inl e, db2) \<Rightarrow> (Inl (classify_repository_write_error ''delivery_status.record'' e), db2)
           | (Inr _, db2) \<Rightarrow>
               (case mark_delivery_event_processed de 5 (dd_InboundEventID d) ''delivery_status_applied'' db2 of
                  (Inl e, db3) \<Rightarrow> (Inl e, db3)
                | (Inr _, db3) \<Rightarrow>
                    (Inr \<lparr>dz_InboundEventID = dd_InboundEventID d, dz_OutboundMessageID = om_ID msg,
                          dz_Applied = True, dz_Ignored = False, dz_Duplicate = False,
                          dz_Status = next_status\<rparr>, db3))))"

definition apply_callback :: "delivery_env \<Rightarrow> delivery_draft \<Rightarrow> (delivery_db, delivery_result) run" where
  "apply_callback de d db =
     (case pg_executor (de_Pg de) of Some e \<Rightarrow> (Inl e, db) | None \<Rightarrow>
      case statement de 0 (\<lambda>db. (delivery_event de (dd_InboundEventID d) db, db)) db of
        (Inl e, _) \<Rightarrow> (Inl (classify_repository_get_error ''delivery_status.event'' e), db)
      | (Inr (b, c, account, event_type), _) \<Rightarrow>
          if b \<noteq> dd_BusinessID d \<or> c \<noteq> dd_ConnectionID d \<or> account \<noteq> dd_ProviderAccountRef d \<or>
             event_type \<noteq> ''delivery_status_changed''
          then (Inl (RepositoryError ''delivery_status.apply'' RepositoryConflict (PlainError ''delivery draft does not match a resolved status event'')), db)
          else (case statement de 1 (\<lambda>db. (existing_update de d db, db)) db of
                  (Inr _, _) \<Rightarrow>
                    (Inr \<lparr>dz_InboundEventID = dd_InboundEventID d, dz_OutboundMessageID = '''', dz_Applied = False,
                          dz_Ignored = False, dz_Duplicate = True, dz_Status = ''''\<rparr>, db)
                | (Inl e, _) \<Rightarrow>
                    if \<not> is_no_rows e then (Inl (classify_repository_get_error ''delivery_status.dedupe'' e), db)
                    else (case statement de 2 (\<lambda>db. (matching_message de d db, db)) db of
                            (Inl e', _) \<Rightarrow>
                              if is_no_rows e' then apply_unmatched de d db
                              else (Inl (classify_repository_get_error ''delivery_status.outbound'' e'), db)
                          | (Inr msg, _) \<Rightarrow> apply_matched de d msg db)))"

definition apply_delivery_status ::
  "delivery_env \<Rightarrow> tx_env \<Rightarrow> delivery_draft \<Rightarrow> (delivery_db, delivery_result) run" where
  "apply_delivery_status de tx d db =
     (if blank (dd_InboundEventID d) \<or> blank (dd_BusinessID d) \<or> blank (dd_ConnectionID d) \<or>
         blank (dd_ProviderRef d) \<or> blank (dd_ProviderAccountRef d) \<or> blank (dd_ProviderMessageID d) \<or>
         \<not> valid_delivery_status (dd_Status d)
      then (Inl (invalid_repository_input ''delivery_status.apply'' ''event, business, connection, provider/account/message, and valid status are required''), db)
      else let d' = (if is_zero (dd_OccurredAt d) then d\<lparr>dd_OccurredAt := go_now (de_Pg de)\<rparr> else d)
           in within tx (apply_callback de d') db)"

section \<open>The provider's acceptance\<close>

definition set_accepted :: "pg_env \<Rightarrow> string \<Rightarrow> outbound_row \<Rightarrow> outbound_row" where
  "set_accepted env providerMessageID r =
     r\<lparr>om_ProviderMessageID := Some (case om_ProviderMessageID r of None \<Rightarrow> providerMessageID | Some m \<Rightarrow> m),
       om_Status := (if om_Status r \<in> {''delivered'', ''read''} then om_Status r else ''accepted''),
       ow_UpdatedAt := pg_now env\<rparr>"

definition mark_provider_accepted ::
  "pg_env \<Rightarrow> string \<Rightarrow> string \<Rightarrow> string \<Rightarrow> outbound_row list \<Rightarrow> outbound_row result \<times> outbound_row list" where
  "mark_provider_accepted env businessID messageID providerMessageID rows =
     (if businessID = '''' \<or> messageID = '''' \<or> providerMessageID = ''''
      then (Inl (invalid_repository_input ''outbound_message.mark_accepted'' ''business, message, and provider message are required''), rows)
      else on_executor env (\<lambda>rows.
        case pg_write env (\<lambda>rows. with_uuid env businessID (\<lambda>b. with_uuid env messageID (\<lambda>i.
               update_returning (\<lambda>r. om_BusinessID r = b \<and> om_ID r = i \<and>
                                     om_ProviderMessageID r \<in> {None, Some providerMessageID})
                 (set_accepted env providerMessageID) (\<lambda>_. None) rows))) rows of
          (Inr r, rows') \<Rightarrow> (Inr r, rows')
        | (Inl e, rows') \<Rightarrow> (Inl (classify_repository_write_error ''outbound_message'' e), rows')) rows)"

section \<open>What the statuses do\<close>


text \<open>Ranks are shared: a late report of acceptance replaces a failure.\<close>

lemma failed_can_become_accepted: "monotonic_delivery_status ''failed'' ''accepted'' = ''accepted''"
  by (simp add: monotonic_delivery_status_def delivery_rank_def)

section \<open>What a callback does to the database\<close>

lemma statement_Inr: "statement de n body t = (Inr x, t') \<longleftrightarrow> de_Fault de n = None \<and> body t = (Inr x, t')"
  by (auto simp: statement_def split: option.splits)

lemma insert_update_Inr:
  assumes "insert_update de d outbound db = (Inr x, db')"
  obtains b e u where "pg_uuid (de_Pg de) (dd_BusinessID d) = Some b"
    and "pg_uuid (de_Pg de) (dd_InboundEventID d) = Some e"
    and "su_BusinessID u = b" and "su_InboundEventID u = e" and "su_OutboundMessageID u = outbound"
    and "su_DeliveryStatus u = dd_Status d" and "db' = db\<lparr>db_Updates := db_Updates db @ [u]\<rparr>"
proof -
  from assms obtain i b e where "pg_uuid (de_Pg de) (dd_BusinessID d) = Some b"
    and "pg_uuid (de_Pg de) (dd_InboundEventID d) = Some e"
    and "db' = db\<lparr>db_Updates := db_Updates db @ [new_update de d outbound i b e]\<rparr>"
    by (auto simp: insert_update_def with_uuid_Inr insert_returning_Inr split: sum.splits)
  then show thesis by (intro that [of b e "new_update de d outbound i b e"]) (simp_all add: new_update_def)
qed

lemma update_message_Inr:
  "update_message de d i status db = (Inr x, db') \<longleftrightarrow>
     (\<exists>b j. pg_uuid (de_Pg de) (dd_BusinessID d) = Some b \<and> pg_uuid (de_Pg de) i = Some j \<and>
        db' = db\<lparr>db_Messages := update_where (\<lambda>r. om_BusinessID r = b \<and> om_ID r = j)
                   (set_message_status de (dd_OccurredAt d) status) (db_Messages db)\<rparr>)"
  by (auto simp: update_message_def with_uuid_def split: option.splits)

lemma mark_delivery_event_processed_Inr:
  assumes "mark_delivery_event_processed de n i code db = (Inr x, db')"
  obtains event r where "pg_uuid (de_Pg de) i = Some event" and "r \<in> set (db_Events db)"
    and "ie_ID r = event" and "ie_ProcessingState r = ''received''"
    and "db' = db\<lparr>db_Events := update_where (\<lambda>r. ie_ID r = event \<and> ie_ProcessingState r = ''received'')
                   (set_event_processed (pg_now (de_Pg de)) code) (db_Events db)\<rparr>"
proof -
  from assms obtain y events where
    "with_uuid (de_Pg de) i (\<lambda>event.
                     update_returning (\<lambda>r. ie_ID r = event \<and> ie_ProcessingState r = ''received'')
                       (set_event_processed (pg_now (de_Pg de)) code) inbound_violated (db_Events db)) = Inr (y, events)"
    and "db' = db\<lparr>db_Events := events\<rparr>"
    by (auto simp: mark_delivery_event_processed_def statement_def split: sum.splits prod.splits option.splits if_splits)
  with that show thesis by (auto simp: statement_rules dest!: find_SomeD)
qed

text \<open>The update of one event that every accepted callback leaves behind.\<close>

definition recorded :: "delivery_draft \<Rightarrow> delivery_env \<Rightarrow> string option \<Rightarrow> delivery_db \<Rightarrow> delivery_db \<Rightarrow> bool" where
  "recorded d de outbound db db' \<longleftrightarrow>
     (\<exists>b e u r. pg_uuid (de_Pg de) (dd_BusinessID d) = Some b \<and> pg_uuid (de_Pg de) (dd_InboundEventID d) = Some e \<and>
        db_Updates db' = db_Updates db @ [u] \<and> su_BusinessID u = b \<and> su_InboundEventID u = e \<and>
        su_OutboundMessageID u = outbound \<and> su_DeliveryStatus u = dd_Status d \<and>
        r \<in> set (db_Events db) \<and> ie_ID r = e \<and> ie_ProcessingState r = ''received'' \<and>
        (\<forall>r' \<in> set (db_Events db'). ie_ID r' = e \<longrightarrow> ie_ProcessingState r' \<noteq> ''received''))"

lemma event_no_longer_received:
  "r' \<in> set (update_where (\<lambda>r. ie_ID r = e \<and> ie_ProcessingState r = ''received'') (set_event_processed now code) rows) \<Longrightarrow>
     ie_ID r' = e \<Longrightarrow> ie_ProcessingState r' \<noteq> ''received''"
  by (erule in_update_whereE) (simp add: set_event_processed_def split: if_splits)

lemma recordedI:
  assumes ins: "insert_update de d outbound db1 = (Inr x, db2)" and eq: "db_Updates db1 = db_Updates db" "db_Events db1 = db_Events db"
    and mark: "mark_delivery_event_processed de n (dd_InboundEventID d) code db2 = (Inr y, db3)"
  shows "recorded d de outbound db db3 \<and> db_Messages db3 = db_Messages db1"
proof -
  from ins obtain b e u where u: "pg_uuid (de_Pg de) (dd_BusinessID d) = Some b"
    "pg_uuid (de_Pg de) (dd_InboundEventID d) = Some e" "su_BusinessID u = b" "su_InboundEventID u = e"
    "su_OutboundMessageID u = outbound" "su_DeliveryStatus u = dd_Status d"
    and db2: "db2 = db1\<lparr>db_Updates := db_Updates db1 @ [u]\<rparr>"
    by (rule insert_update_Inr)
  from mark obtain event r where ev: "pg_uuid (de_Pg de) (dd_InboundEventID d) = Some event"
    "r \<in> set (db_Events db2)" "ie_ID r = event" "ie_ProcessingState r = ''received''"
    and db3: "db3 = db2\<lparr>db_Events := update_where (\<lambda>r. ie_ID r = event \<and> ie_ProcessingState r = ''received'')
                   (set_event_processed (pg_now (de_Pg de)) code) (db_Events db2)\<rparr>"
    by (rule mark_delivery_event_processed_Inr)
  from u ev have "event = e" by simp
  have "recorded d de outbound db db3"
    unfolding recorded_def
    by (intro exI [of _ b] exI [of _ e] exI [of _ u] exI [of _ r])
      (use u ev eq db2 db3 \<open>event = e\<close> event_no_longer_received in auto)
  then show ?thesis by (simp add: db2 db3)
qed

lemma apply_unmatched_Inr:
  assumes "apply_unmatched de d db = (Inr res, db')"
  shows "\<not> dz_Applied res \<and> \<not> dz_Duplicate res \<and> recorded d de None db db' \<and> db_Messages db' = db_Messages db"
proof -
  from assms obtain x db1 y where "insert_update de d None db = (Inr x, db1)"
    and "mark_delivery_event_processed de 4 (dd_InboundEventID d) ''delivery_status_unmatched'' db1 = (Inr y, db')"
    and "\<not> dz_Applied res" "\<not> dz_Duplicate res"
    by (auto simp: apply_unmatched_def statement_def split: option.splits sum.splits prod.splits)
  with recordedI [of de d None db x db1 db] show ?thesis by blast
qed

lemma apply_matched_Inr:
  assumes "apply_matched de d msg db = (Inr res, db')"
  shows "dz_Applied res \<and> \<not> dz_Duplicate res \<and> dz_OutboundMessageID res = om_ID msg \<and>
     dz_Status res = monotonic_delivery_status (om_Status msg) (dd_Status d) \<and>
     recorded d de (Some (om_ID msg)) db db' \<and>
     (\<exists>b j. pg_uuid (de_Pg de) (dd_BusinessID d) = Some b \<and> pg_uuid (de_Pg de) (om_ID msg) = Some j \<and>
       db_Messages db' = update_where (\<lambda>r. om_BusinessID r = b \<and> om_ID r = j)
         (set_message_status de (dd_OccurredAt d) (dz_Status res)) (db_Messages db))"
proof -
  let ?st = "monotonic_delivery_status (om_Status msg) (dd_Status d)"
  from assms obtain x db1 y db2 z where up: "update_message de d (om_ID msg) ?st db = (Inr x, db1)"
    and ins: "insert_update de d (Some (om_ID msg)) db1 = (Inr y, db2)"
    and mark: "mark_delivery_event_processed de 5 (dd_InboundEventID d) ''delivery_status_applied'' db2 = (Inr z, db')"
    and res: "dz_Applied res" "\<not> dz_Duplicate res" "dz_OutboundMessageID res = om_ID msg" "dz_Status res = ?st"
    by (auto simp: apply_matched_def Let_def statement_def split: option.splits sum.splits prod.splits)
  from up obtain b j where j: "pg_uuid (de_Pg de) (dd_BusinessID d) = Some b" "pg_uuid (de_Pg de) (om_ID msg) = Some j"
    and db1: "db1 = db\<lparr>db_Messages := update_where (\<lambda>r. om_BusinessID r = b \<and> om_ID r = j)
       (set_message_status de (dd_OccurredAt d) ?st) (db_Messages db)\<rparr>"
    by (auto simp: update_message_Inr)
  then have same: "db_Updates db1 = db_Updates db" "db_Events db1 = db_Events db" by simp_all
  from recordedI [OF ins same mark] have "recorded d de (Some (om_ID msg)) db db'"
    "db_Messages db' = db_Messages db1" by simp_all
  with res j db1 show ?thesis by auto
qed

text \<open>The event was recorded before: the draft's business and event read as those of an update.\<close>

definition already_recorded :: "delivery_env \<Rightarrow> delivery_draft \<Rightarrow> delivery_db \<Rightarrow> bool" where
  "already_recorded de d db \<longleftrightarrow>
     (\<exists>u \<in> set (db_Updates db). pg_uuid (de_Pg de) (dd_BusinessID d) = Some (su_BusinessID u) \<and>
        pg_uuid (de_Pg de) (dd_InboundEventID d) = Some (su_InboundEventID u))"

lemma existing_update_Inr:
  assumes "existing_update de d db = Inr u"
  shows "already_recorded de d db"
proof -
  from assms obtain b e where "pg_uuid (de_Pg de) (dd_BusinessID d) = Some b"
    "pg_uuid (de_Pg de) (dd_InboundEventID d) = Some e"
    "find (\<lambda>u. su_BusinessID u = b \<and> su_InboundEventID u = e) (db_Updates db) = Some u"
    by (auto simp: existing_update_def with_uuid_Inr select_one_def split: option.splits)
  then show ?thesis unfolding already_recorded_def by (auto dest: find_SomeD)
qed

lemma existing_update_no_rows: "existing_update de d db = Inl e \<Longrightarrow> is_no_rows e \<Longrightarrow> \<not> already_recorded de d db"
  by (auto simp: existing_update_def with_uuid_def select_one_def already_recorded_def find_None_iff
      split: option.splits)

lemma apply_callback_Inr:
  assumes "apply_callback de d db = (Inr res, db')"
  shows "(already_recorded de d db \<and> dz_Duplicate res \<and> db' = db) \<or>
     (\<not> already_recorded de d db \<and> apply_unmatched de d db = (Inr res, db')) \<or>
     (\<not> already_recorded de d db \<and>
      (\<exists>msg. matching_message de d db = Inr msg \<and> apply_matched de d msg db = (Inr res, db')))"
proof -
  from assms consider (dup) u where "existing_update de d db = Inr u" "dz_Duplicate res" "db' = db"
    | (none) e where "existing_update de d db = Inl e" "is_no_rows e" "apply_unmatched de d db = (Inr res, db')"
    | (hit) e msg where "existing_update de d db = Inl e" "is_no_rows e" "matching_message de d db = Inr msg"
        "apply_matched de d msg db = (Inr res, db')"
    by (auto simp: apply_callback_def statement_def split: option.splits sum.splits prod.splits if_splits)
  then show ?thesis by cases (auto dest: existing_update_Inr existing_update_no_rows)
qed

text \<open>
  C18: a status event is applied at most once, and as a whole. When \<^verbatim>\<open>Apply\<close> answers, either the event was
  recorded before, the answer says so and the database is as it was; or it is now recorded with its
  status, the ledger's event, which had been received, is so no longer, and the outbound messages are
  changed only when one matched: then the matched message of that business carries the monotone
  combination of its status and the reported one. When \<^verbatim>\<open>Apply\<close> fails, the database is as it was unless
  the confirmation of the commit was lost.
\<close>

theorem delivery_status_applied_once:
  assumes run: "apply_delivery_status de tx d db = (r, db')"
  shows "case r of
     Inl _ \<Rightarrow> db' = db \<or> tx_commit_err tx \<noteq> None
   | Inr res \<Rightarrow>
       (dz_Duplicate res \<longleftrightarrow> already_recorded de d db) \<and>
       (dz_Duplicate res \<longrightarrow> db' = db) \<and>
       (\<not> dz_Duplicate res \<longrightarrow>
          (\<exists>outbound. recorded d de outbound db db' \<and> (dz_Applied res \<longleftrightarrow> outbound \<noteq> None)) \<and>
          (\<not> dz_Applied res \<longrightarrow> db_Messages db' = db_Messages db) \<and>
          (dz_Applied res \<longrightarrow> (\<exists>msg at b j. matching_message de d db = Inr msg \<and>
             dz_Status res = monotonic_delivery_status (om_Status msg) (dd_Status d) \<and>
             pg_uuid (de_Pg de) (dd_BusinessID d) = Some b \<and> pg_uuid (de_Pg de) (om_ID msg) = Some j \<and>
             db_Messages db' = update_where (\<lambda>x. om_BusinessID x = b \<and> om_ID x = j)
               (set_message_status de at (dz_Status res)) (db_Messages db))))"
proof (cases r)
  case (Inl e)
  with run show ?thesis
    by (auto simp: apply_delivery_status_def within_def Let_def split: if_splits option.splits prod.splits sum.splits)
next
  case (Inr res)
  let ?d = "if is_zero (dd_OccurredAt d) then d\<lparr>dd_OccurredAt := go_now (de_Pg de)\<rparr> else d"
  have same: "already_recorded de ?d db = already_recorded de d db" "matching_message de ?d db = matching_message de d db"
    "recorded ?d de outbound db db' = recorded d de outbound db db'" for outbound
    by (simp_all add: already_recorded_def matching_message_def recorded_def)
  from run Inr have "apply_callback de ?d db = (Inr res, db')"
    by (auto simp: apply_delivery_status_def Let_def dest: within_Inr split: if_splits)
  from apply_callback_Inr [OF this] show ?thesis
  proof (elim disjE exE conjE)
    assume "already_recorded de ?d db" "dz_Duplicate res" "db' = db"
    with Inr same show ?thesis by simp
  next
    assume "\<not> already_recorded de ?d db" "apply_unmatched de ?d db = (Inr res, db')"
    with apply_unmatched_Inr [of de ?d db res db'] Inr same show ?thesis by auto
  next
    fix msg assume new: "\<not> already_recorded de ?d db" and msg: "matching_message de ?d db = Inr msg"
      and go: "apply_matched de ?d msg db = (Inr res, db')"
    have "dd_Status ?d = dd_Status d" "dd_BusinessID ?d = dd_BusinessID d" by simp_all
    with apply_matched_Inr [OF go] new msg Inr same show ?thesis by auto
  qed
qed

section \<open>A sample callback\<close>

definition sample_db :: delivery_db where
  "sample_db =
     \<lparr>db_Events = [sample_event\<lparr>ie_EventType := ''delivery_status_changed''\<rparr>],
      db_Messages = [\<lparr>om_ID = ''o1'', om_BusinessID = ''b1'', om_ConversationID = ''k1'',
        om_ConversationReferenceID = ''rf1'', om_ConnectionID = ''c1'', om_ProviderRef = ''socialapi'',
        om_Channel = ''whatsapp'', om_Origin = ''ai'', om_Direction = ''outbound'', om_Transport = ''provider'',
        om_ContentReference = ''x'', om_ProviderIdempotencyKey = ''k1'', om_Status = ''accepted'',
        om_ProviderMessageID = Some ''pm1'', om_FailureCode = None, om_AttemptCount = 0,
        om_CorrelationID = None, om_CausationID = None, ow_UpdatedAt = 50\<rparr>],
      db_Updates = []\<rparr>"

definition sample_delivery_env :: delivery_env where
  "sample_delivery_env = \<lparr>de_Pg = sample_event_env 100, de_Fault = (\<lambda>_. None), de_NewID = ''u1'', de_Order = (\<lambda>xs. xs)\<rparr>"

definition sample_tx :: tx_env where
  "sample_tx = \<lparr>tx_ctx_err = None, tx_closed = False, tx_nested = False, tx_begin_err = None,
     tx_rollback_err = None, tx_commit_err = None\<rparr>"

definition sample_delivery_draft :: delivery_draft where
  "sample_delivery_draft = \<lparr>dd_InboundEventID = ''e1'', dd_BusinessID = ''b1'', dd_ConnectionID = ''c1'',
     dd_ProviderRef = ''socialapi'', dd_ProviderAccountRef = ''acc'', dd_ProviderMessageID = ''pm1'',
     dd_Status = ''delivered'', dd_OccurredAt = 95\<rparr>"

theorem delivery_status_applied_once_witness:
  "\<exists>res db'. apply_delivery_status sample_delivery_env sample_tx sample_delivery_draft sample_db = (Inr res, db') \<and>
     dz_Applied res \<and> (\<exists>outbound. recorded sample_delivery_draft sample_delivery_env outbound sample_db db')"
proof -
  obtain r db' where run: "apply_delivery_status sample_delivery_env sample_tx sample_delivery_draft sample_db = (r, db')"
    by force
  have "case fst (apply_delivery_status sample_delivery_env sample_tx sample_delivery_draft sample_db) of
      Inl _ \<Rightarrow> False | Inr res \<Rightarrow> dz_Applied res \<and> \<not> dz_Duplicate res"
    by code_simp
  with run obtain res where "r = Inr res" "dz_Applied res" "\<not> dz_Duplicate res" by (auto split: sum.splits)
  with delivery_status_applied_once [OF run] run show ?thesis by auto
qed

end
