(* ===== verification/Webhook_Ingestion.thy ===== *)
theory Webhook_Ingestion
  imports Delivery_Status Observed_Runs
begin

text \<open>
  Reception of provider webhooks: \<^verbatim>\<open>SocialAPIWebhookService.Handle\<close> and its helpers in
  \<^verbatim>\<open>services/webhook_ingestion.go\<close>. The collaborators act on a world \<^typ>\<open>'w\<close>; what the service asks of them
  is observed in order. Log lines are left out; byte slices are strings.
\<close>

section \<open>Data\<close>

record webhook_command =
  wc_RouteKey :: string
  wc_Signature :: string
  wc_Timestamp :: string
  wc_DeliveryID :: string
  wc_ProviderEvent :: string
  wc_RequestID :: string
  wc_ProviderHeaders :: "(string \<times> string) list"
  wc_RawPayload :: string

record webhook_result =
  wr_Accepted :: bool
  wr_Duplicate :: bool
  wr_Resolved :: bool
  wr_Ignored :: bool
  wr_RequestID :: string

definition no_webhook_result :: webhook_result where
  "no_webhook_result = \<lparr>wr_Accepted = False, wr_Duplicate = False, wr_Resolved = False, wr_Ignored = False, wr_RequestID = ''''\<rparr>"

text \<open>The domain's \<^verbatim>\<open>channel.InboundEvent\<close>.\<close>

record channel_event =
  ce_ActionPayload :: string
  ce_ActionTitle :: string
  ce_ID :: string
  ce_BusinessID :: string
  ce_ConnectionID :: string
  ce_Provider :: string
  ce_Channel :: string
  ce_ProviderConnectionID :: string
  ce_ProviderEventID :: string
  ce_DeliveryID :: string
  ce_DedupeStrategy :: string
  ce_EventType :: string
  ce_InteractionKind :: string
  ce_ProviderMessageID :: string
  ce_ProviderConversationID :: string
  ce_ExternalUserID :: string
  ce_Text :: string
  ce_MessageType :: string
  ce_Direction :: string
  ce_Origin :: string
  ce_Private :: bool
  ce_SenderType :: string
  ce_DeliveryStatus :: string
  ce_ExternalCreatedAt :: "time option"
  ce_ReceivedAt :: time
  ce_RawPayloadReference :: string

record raw_payload =
  rp_Reference :: string
  rp_SHA256 :: string

record provider_inbound_draft =
  pd_ActionPayload :: string
  pd_InboundEventID :: string
  pd_BusinessID :: string
  pd_ConnectionID :: string
  pd_ProviderRef :: string
  pd_ProviderEventID :: string
  pd_Channel :: string
  pd_ProviderAccountRef :: string
  pd_ProviderConversationID :: string
  pd_ExternalUserID :: string
  pd_ProviderMessageID :: string
  pd_EventType :: string
  pd_InteractionKind :: string
  pd_Text :: string
  pd_ExternalCreatedAt :: "time option"
  pd_ReceivedAt :: time
  pd_RawPayloadReference :: string
  pd_PayloadHash :: string

record provider_inbound_result =
  pi_BusinessID :: string
  pi_Duplicate :: bool
  pi_Ignored :: bool
  pi_CustomerID :: string
  pi_ConversationID :: string
  pi_ConversationReferenceID :: string
  pi_CommunicationMessageID :: string
  pi_InboundEventID :: string

record conversation_profile =
  cv_ParticipantID :: string
  cv_ParticipantName :: string
  cv_ParticipantPicture :: string

record profile_merge =
  pm_BusinessID :: string
  pm_CustomerID :: string
  pm_DisplayName :: string
  pm_Picture :: string
  pm_ExternalUserID :: string

record automation_command =
  ac_BusinessID :: string
  ac_ConversationID :: string
  ac_InboundEventID :: string
  ac_Channel :: string
  ac_Text :: string

text \<open>The reply task as it enters the worker pool: of the command's metadata only the business is set.\<close>

record auto_reply_task =
  at_BusinessID :: string
  at_ConversationID :: string
  at_SourceMessageReference :: string
  at_Text :: string
  at_Channel :: string
  at_ProviderRef :: string

datatype realtime_value = TextValue string | TimeValue time

record realtime_event =
  re_EventID :: string
  re_EventType :: string
  re_BusinessID :: string
  re_ResourceType :: string
  re_ResourceID :: string
  re_OccurredAt :: time
  re_Data :: string

text \<open>
  The service: an option is a collaborator that may be \<^verbatim>\<open>nil\<close>. \<open>wb_Sha256Hex\<close> is the hexadecimal SHA-256 digest,
  \<open>wb_Marshal\<close> the JSON encoder, and \<open>wb_AutoReply\<close> says whether a reply handler is wired: the service only passes
  it on to the pool.
\<close>

record 'w webhook_service =
  wb_VerifyWebhook :: "((string \<times> string) list \<Rightarrow> string \<Rightarrow> ('w, unit) run) option"
  wb_NormalizeWebhook :: "(string \<times> string) list \<Rightarrow> string \<Rightarrow> ('w, channel_event list) run"
  wb_RawPayloads :: "(string \<Rightarrow> string \<Rightarrow> string \<Rightarrow> ('w, raw_payload) run) option"
  wb_History :: "(string \<Rightarrow> string \<Rightarrow> string \<Rightarrow> time \<Rightarrow> ('w, bool) run) option"
  wb_Connections :: "(string \<Rightarrow> string \<Rightarrow> string \<Rightarrow> ('w, channel_connection) run) option"
  wb_Events :: "(inbound_draft \<Rightarrow> ('w, bool \<times> inbound_event) run) option"
  wb_Inbound :: "(provider_inbound_draft \<Rightarrow> ('w, provider_inbound_result) run) option"
  wb_DeliveryStatuses :: "(delivery_draft \<Rightarrow> ('w, delivery_result) run) option"
  wb_Automation :: "(automation_command \<Rightarrow> ('w, unit) run) option"
  wb_AutoReply :: bool
  wb_Realtime :: "(realtime_event \<Rightarrow> ('w, unit) run) option"
  wb_Enricher :: "(string \<Rightarrow> ('w, conversation_profile) run) option"
  wb_Customers :: "(profile_merge \<Rightarrow> ('w, unit) run) option"
  wb_CostProtection :: "(string \<Rightarrow> 'w \<Rightarrow> (bool \<times> string) \<times> 'w) option"
  wb_WorkerPool :: "(auto_reply_task \<Rightarrow> 'w \<Rightarrow> bool \<times> 'w) option"
  wb_Now :: "'w \<Rightarrow> time \<times> 'w"
  wb_NewID :: "'w \<Rightarrow> string \<times> 'w"
  wb_Sha256Hex :: "string \<Rightarrow> string"
  wb_Marshal :: "(string \<times> realtime_value) list \<Rightarrow> string result"

datatype webhook_effect =
    Verified
  | Resolved_To channel_event channel_connection
  | Suppressed channel_event
  | Stored_Body string raw_payload
  | Recorded_Event inbound_draft bool inbound_event
  | Status_Applied delivery_draft delivery_result
  | Materialized provider_inbound_draft provider_inbound_result
  | Profile_Merged profile_merge
  | Published realtime_event
  | Automated automation_command
  | Cost_Checked string bool
  | Submitted auto_reply_task bool

type_synonym 'w webhook_state = "('w, webhook_effect) observed"

section \<open>Helpers\<close>

definition validate_webhook_command :: "webhook_command \<Rightarrow> unit result" where
  "validate_webhook_command command =
     (if blank (wc_RouteKey command) then Inl (app_error CodeValidation ''webhook route key is required'')
      else if wc_RawPayload command = '''' then Inl (app_error CodeValidation ''webhook raw payload is required'')
      else Inr ())"

definition webhook_authentication_error :: "go_error \<Rightarrow> go_error" where
  "webhook_authentication_error e = AppError CodeUnauthenticated ''webhook signature verification failed'' False (Some e)"

definition external_dependency_error :: "string \<Rightarrow> go_error \<Rightarrow> go_error" where
  "external_dependency_error message e = AppError CodeExternalDependency message True (Some e)"

definition dedupe_state :: "string option \<Rightarrow> string" where
  "dedupe_state businessID = (if businessID \<noteq> None then ''received'' else ''unresolved'')"

definition string_pointer :: "string \<Rightarrow> string option" where
  "string_pointer value = (if trim_space value = '''' then None else Some (trim_space value))"

definition non_empty_or :: "string \<Rightarrow> string \<Rightarrow> string" where
  "non_empty_or value fallback = (if blank value then fallback else value)"

text \<open>\<^verbatim>\<open>enrichCustomerProfile\<close>: best effort, no error leaves it.\<close>

definition enrich_customer_profile ::
  "(string \<Rightarrow> ('w, conversation_profile) run) \<Rightarrow> (profile_merge \<Rightarrow> ('w, unit) run) \<Rightarrow>
   string \<Rightarrow> string \<Rightarrow> string \<Rightarrow> string \<Rightarrow> ('w webhook_state, unit) run" where
  "enrich_customer_profile getProfile mergeProfile businessID customerID providerConversationID externalUserID =
     run_ignore (run_bind (quietly (getProfile providerConversationID)) (\<lambda>profile.
       if \<not> blank (cv_ParticipantID profile) \<and> \<not> blank externalUserID \<and> cv_ParticipantID profile \<noteq> externalUserID
       then run_return ()
       else if blank (cv_ParticipantName profile) \<and> blank (cv_ParticipantPicture profile)
       then run_return ()
       else let merge = \<lparr>pm_BusinessID = businessID, pm_CustomerID = customerID,
                         pm_DisplayName = cv_ParticipantName profile, pm_Picture = cv_ParticipantPicture profile,
                         pm_ExternalUserID = cv_ParticipantID profile\<rparr>
            in noting (\<lambda>_. Profile_Merged merge) (mergeProfile merge)))"

text \<open>A realtime event is published on a best-effort basis; an encoding error suppresses it.\<close>

definition publish ::
  "'w webhook_service \<Rightarrow> string \<Rightarrow> string \<Rightarrow> string \<Rightarrow> string \<Rightarrow> time \<Rightarrow> (string \<times> realtime_value) list \<Rightarrow>
   ('w webhook_state, unit) run" where
  "publish S businessID eventType resourceType resourceID occurredAt payload =
     (case wb_Realtime S of
        None \<Rightarrow> run_return ()
      | Some publishEvent \<Rightarrow>
          (case wb_Marshal S payload of
             Inl e \<Rightarrow> run_return ()
           | Inr body \<Rightarrow>
               run_bind (quietly (total_call (wb_NewID S))) (\<lambda>eventID.
                 let ev = \<lparr>re_EventID = eventID, re_EventType = eventType, re_BusinessID = businessID,
                           re_ResourceType = resourceType, re_ResourceID = resourceID,
                           re_OccurredAt = occurredAt, re_Data = body\<rparr>
                 in run_ignore (run_bind (note_that (Published ev)) (\<lambda>_. quietly (publishEvent ev))))))"

section \<open>Resolution\<close>

text \<open>The connection of an event, or the error that says there is none.\<close>

definition resolve_connection ::
  "(string \<Rightarrow> string \<Rightarrow> string \<Rightarrow> ('w, channel_connection) run) \<Rightarrow> channel_event \<Rightarrow>
   ('w webhook_state, channel_connection result) run" where
  "resolve_connection getByReferences event s =
     (case quietly (getByReferences ''socialapi'' (ce_ProviderConnectionID event) '''') s of
        (Inr connection, s1) \<Rightarrow> run_bind (note_that (Resolved_To event connection)) (\<lambda>_. run_return (Inr connection)) s1
      | (Inl e, s1) \<Rightarrow>
          (case repository_kind e of
             Some RepositoryNotFound \<Rightarrow> (Inr (Inl e), s1)
           | Some RepositoryConflict \<Rightarrow>
               (Inl (app_error CodeConflict ''provider account maps to multiple channel connections''), s1)
           | _ \<Rightarrow> (Inl (external_dependency_error ''channel connection lookup failed'' e), s1)))"

definition should_ignore ::
  "'w webhook_service \<Rightarrow> channel_event \<Rightarrow> channel_connection result \<Rightarrow> ('w webhook_state, bool) run" where
  "should_ignore S event resolution =
     (case (resolution, wb_History S) of
        (Inr connection, Some shouldIgnore) \<Rightarrow>
          run_bind (on_error (external_dependency_error ''channel history replay guard failed'')
            (quietly (shouldIgnore (cn_BusinessID connection) (cn_ID connection) (ce_ProviderEventID event)
               (case ce_ExternalCreatedAt event of Some t \<Rightarrow> t | None \<Rightarrow> ce_ReceivedAt event)))) (\<lambda>ignore.
            if ignore then run_bind (note_that (Suppressed event)) (\<lambda>_. run_return True) else run_return False)
      | _ \<Rightarrow> run_return False)"

fun retain_events ::
  "'w webhook_service \<Rightarrow> (string \<Rightarrow> string \<Rightarrow> string \<Rightarrow> ('w, channel_connection) run) \<Rightarrow> channel_event list \<Rightarrow>
   (channel_event \<times> channel_connection result) list \<times> bool \<Rightarrow>
   ('w webhook_state, (channel_event \<times> channel_connection result) list \<times> bool) run" where
  "retain_events S getByReferences [] acc = run_return acc"
| "retain_events S getByReferences (event # events) (retained, removed) =
     (if ce_Provider event \<noteq> ''socialapi'' \<or> blank (ce_ProviderConnectionID event)
      then run_fail (app_error CodeValidation ''verified SocialAPI webhook has no provider account reference'')
      else run_bind (resolve_connection getByReferences event) (\<lambda>resolution.
           run_bind (should_ignore S event resolution) (\<lambda>ignore.
             if ignore then retain_events S getByReferences events (retained, True)
             else retain_events S getByReferences events (retained @ [(event, resolution)], removed))))"

section \<open>One event\<close>

definition inbound_draft_of ::
  "channel_event \<Rightarrow> channel_connection result \<Rightarrow> raw_payload \<Rightarrow> time \<Rightarrow> time \<Rightarrow> inbound_draft" where
  "inbound_draft_of event resolution stored createdAt updatedAt =
     (let businessID = (case resolution of Inl _ \<Rightarrow> None | Inr connection \<Rightarrow> Some (cn_BusinessID connection));
          connectionID = (case resolution of Inl _ \<Rightarrow> None | Inr connection \<Rightarrow> Some (cn_ID connection))
      in \<lparr>id_ID = ce_ID event, id_ProviderRef = ce_Provider event,
          id_ProviderConnectionRef = ce_ProviderConnectionID event, id_ProviderEventID = ce_ProviderEventID event,
          id_DedupeStrategy = non_empty_or (ce_DedupeStrategy event) ''provider_event_id'',
          id_BusinessID = businessID, id_ConnectionID = connectionID, id_EventType = ce_EventType event,
          id_InteractionKind = string_pointer (ce_InteractionKind event),
          id_ProviderMessageID = string_pointer (ce_ProviderMessageID event),
          id_ProviderConversationID = string_pointer (ce_ProviderConversationID event),
          id_ExternalUserID = string_pointer (ce_ExternalUserID event),
          id_ContentReference = None, id_ExternalCreatedAt = ce_ExternalCreatedAt event,
          id_ReceivedAt = ce_ReceivedAt event, id_RawPayloadReference = rp_Reference stored,
          id_PayloadHash = rp_SHA256 stored, id_SignatureVerified = True,
          id_ProcessingState = non_empty_or (dedupe_state businessID) ''unresolved'',
          id_NextAttemptAt = None, id_CreatedAt = createdAt, id_UpdatedAt = updatedAt\<rparr>)"

definition record_event ::
  "'w webhook_service \<Rightarrow> (inbound_draft \<Rightarrow> ('w, bool \<times> inbound_event) run) \<Rightarrow> raw_payload \<Rightarrow>
   channel_event \<Rightarrow> channel_connection result \<Rightarrow> ('w webhook_state, bool \<times> inbound_event) run" where
  "record_event S recordIfAbsent stored event resolution =
     run_bind (quietly (total_call (wb_Now S))) (\<lambda>createdAt.
     run_bind (quietly (total_call (wb_Now S))) (\<lambda>updatedAt.
       let draft = inbound_draft_of event resolution stored createdAt updatedAt
       in on_error (external_dependency_error ''inbound event could not be recorded'')
            (noting (\<lambda>(created, rec). Recorded_Event draft created rec) (recordIfAbsent draft))))"

definition apply_status ::
  "'w webhook_service \<Rightarrow> channel_event \<Rightarrow> channel_connection \<Rightarrow> inbound_event \<Rightarrow> webhook_result \<Rightarrow>
   ('w webhook_state, webhook_result) run" where
  "apply_status S event connection rec result =
     (case wb_DeliveryStatuses S of
        None \<Rightarrow> run_fail not_implemented
      | Some applyStatus \<Rightarrow>
          let draft = \<lparr>dd_InboundEventID = ie_ID rec, dd_BusinessID = cn_BusinessID connection,
                       dd_ConnectionID = cn_ID connection, dd_ProviderRef = ce_Provider event,
                       dd_ProviderAccountRef = ce_ProviderConnectionID event,
                       dd_ProviderMessageID = ce_ProviderMessageID event, dd_Status = ce_DeliveryStatus event,
                       dd_OccurredAt = ce_ReceivedAt event\<rparr>
          in run_bind (on_error (external_dependency_error ''SocialAPI delivery status could not be applied'')
               (noting (Status_Applied draft) (applyStatus draft))) (\<lambda>status.
             if dz_Duplicate status then run_return (result\<lparr>wr_Duplicate := True\<rparr>)
             else run_bind (publish S (cn_BusinessID connection) ''conversation.message_status_changed'' ''message''
                    (ce_ProviderMessageID event) (ce_ReceivedAt event)
                    [(''provider_message_id'', TextValue (ce_ProviderMessageID event)),
                     (''status'', TextValue (ce_DeliveryStatus event)), (''occurred_at'', TimeValue (ce_ReceivedAt event))])
                    (\<lambda>_. run_return result)))"

definition inbound_message_draft ::
  "channel_event \<Rightarrow> channel_connection \<Rightarrow> inbound_event \<Rightarrow> raw_payload \<Rightarrow> provider_inbound_draft" where
  "inbound_message_draft event connection rec stored =
     \<lparr>pd_ActionPayload = ce_ActionPayload event, pd_InboundEventID = ie_ID rec,
      pd_BusinessID = cn_BusinessID connection, pd_ConnectionID = cn_ID connection,
      pd_ProviderRef = ce_Provider event, pd_ProviderEventID = ce_ProviderEventID event,
      pd_Channel = ce_Channel event, pd_ProviderAccountRef = ce_ProviderConnectionID event,
      pd_ProviderConversationID = ce_ProviderConversationID event, pd_ExternalUserID = ce_ExternalUserID event,
      pd_ProviderMessageID = ce_ProviderMessageID event, pd_EventType = ce_EventType event,
      pd_InteractionKind = ce_InteractionKind event, pd_Text = ce_Text event,
      pd_ExternalCreatedAt = ce_ExternalCreatedAt event, pd_ReceivedAt = ce_ReceivedAt event,
      pd_RawPayloadReference = rp_Reference stored, pd_PayloadHash = rp_SHA256 stored\<rparr>"

definition customer_message :: "channel_event \<Rightarrow> bool" where
  "customer_message event \<longleftrightarrow> ce_EventType event = ''interaction_received'' \<and> ce_Direction event = ''inbound'' \<and>
     ce_Origin event = ''customer'' \<and> \<not> blank (ce_ProviderMessageID event)"

definition automate ::
  "'w webhook_service \<Rightarrow> channel_event \<Rightarrow> channel_connection \<Rightarrow> inbound_event \<Rightarrow> provider_inbound_result \<Rightarrow>
   ('w webhook_state, unit) run" where
  "automate S event connection rec materialized =
     (case wb_Automation S of
        None \<Rightarrow> run_return ()
      | Some handle \<Rightarrow>
          if \<not> customer_message event then run_return ()
          else let cmd = \<lparr>ac_BusinessID = cn_BusinessID connection, ac_ConversationID = pi_ConversationID materialized,
                          ac_InboundEventID = ie_ID rec, ac_Channel = ce_Channel event, ac_Text = ce_Text event\<rparr>
               in on_error (external_dependency_error ''SocialAPI inbound automation could not be executed'')
                    (noting (\<lambda>_. Automated cmd) (handle cmd)))"

definition auto_reply ::
  "'w webhook_service \<Rightarrow> channel_event \<Rightarrow> channel_connection \<Rightarrow> provider_inbound_result \<Rightarrow>
   ('w webhook_state, unit) run" where
  "auto_reply S event connection materialized =
     (if \<not> (wb_AutoReply S \<and> customer_message event \<and> \<not> blank (ce_Text event)) then run_return ()
      else (case wb_CostProtection S of
              None \<Rightarrow> run_return ()
            | Some isAllowed \<Rightarrow>
                run_bind (noting (\<lambda>(allowed, reason). Cost_Checked (cn_BusinessID connection) allowed)
                            (total_call (isAllowed (cn_BusinessID connection)))) (\<lambda>(allowed, reason).
                  if \<not> allowed then run_return ()
                  else (case wb_WorkerPool S of
                          None \<Rightarrow> run_return ()
                        | Some submit \<Rightarrow>
                            let task = \<lparr>at_BusinessID = cn_BusinessID connection,
                                        at_ConversationID = pi_ConversationID materialized,
                                        at_SourceMessageReference = ce_ProviderMessageID event,
                                        at_Text = ce_Text event, at_Channel = ce_Channel event,
                                        at_ProviderRef = ce_Provider event\<rparr>
                            in run_bind (noting (Submitted task) (total_call (submit task))) (\<lambda>_. run_return ())))))"

definition enrich ::
  "'w webhook_service \<Rightarrow> channel_event \<Rightarrow> channel_connection \<Rightarrow> provider_inbound_result \<Rightarrow> ('w webhook_state, unit) run" where
  "enrich S event connection materialized =
     (case (wb_Enricher S, wb_Customers S) of
        (Some getProfile, Some mergeProfile) \<Rightarrow>
          if \<not> blank (pi_CustomerID materialized) \<and> \<not> blank (ce_ProviderConversationID event)
          then enrich_customer_profile getProfile mergeProfile (cn_BusinessID connection) (pi_CustomerID materialized)
                 (ce_ProviderConversationID event) (ce_ExternalUserID event)
          else run_return ()
      | _ \<Rightarrow> run_return ())"

definition deliver_message ::
  "'w webhook_service \<Rightarrow> raw_payload \<Rightarrow> channel_event \<Rightarrow> channel_connection \<Rightarrow> inbound_event \<Rightarrow> webhook_result \<Rightarrow>
   ('w webhook_state, webhook_result) run" where
  "deliver_message S stored event connection rec result =
     (case wb_Inbound S of
        None \<Rightarrow> run_fail not_implemented
      | Some materialize \<Rightarrow>
          let draft = inbound_message_draft event connection rec stored
          in run_bind (on_error (external_dependency_error ''SocialAPI inbound event could not be materialized'')
               (noting (Materialized draft) (materialize draft))) (\<lambda>materialized.
             if pi_Duplicate materialized then run_return (result\<lparr>wr_Duplicate := True\<rparr>)
             else if pi_Ignored materialized then run_return (result\<lparr>wr_Ignored := True\<rparr>)
             else if ce_ActionPayload event \<noteq> '''' then run_return result
             else
               run_bind (enrich S event connection materialized) (\<lambda>_.
               run_bind (publish S (cn_BusinessID connection) ''conversation.message_received'' ''conversation''
                   (pi_ConversationID materialized) (ce_ReceivedAt event)
                   [(''message_id'', TextValue (pi_CommunicationMessageID materialized)),
                    (''conversation_id'', TextValue (pi_ConversationID materialized)),
                    (''direction'', TextValue ''inbound''), (''origin'', TextValue ''customer''),
                    (''text'', TextValue (ce_Text event)),
                    (''provider_message_id'', TextValue (ce_ProviderMessageID event)),
                    (''channel'', TextValue (ce_Channel event)), (''received_at'', TimeValue (ce_ReceivedAt event))]) (\<lambda>_.
               run_bind (automate S event connection rec materialized) (\<lambda>_.
               run_bind (auto_reply S event connection materialized) (\<lambda>_. run_return result))))))"

text \<open>What becomes of a recorded event.\<close>

definition route_event ::
  "'w webhook_service \<Rightarrow> raw_payload \<Rightarrow> channel_event \<Rightarrow> channel_connection result \<Rightarrow> inbound_event \<Rightarrow> webhook_result \<Rightarrow>
   ('w webhook_state, webhook_result) run" where
  "route_event S stored event resolution rec result =
     (case resolution of
        Inl _ \<Rightarrow> run_return result
      | Inr connection \<Rightarrow>
          if ce_EventType event = ''delivery_status_changed'' then apply_status S event connection rec result
          else deliver_message S stored event connection rec result)"

definition ingest_event ::
  "'w webhook_service \<Rightarrow> (inbound_draft \<Rightarrow> ('w, bool \<times> inbound_event) run) \<Rightarrow> raw_payload \<Rightarrow>
   channel_event \<Rightarrow> channel_connection result \<Rightarrow> webhook_result \<Rightarrow> ('w webhook_state, webhook_result) run" where
  "ingest_event S recordIfAbsent stored event resolution result =
     (let result = result\<lparr>wr_Resolved := (case resolution of Inl _ \<Rightarrow> False | Inr _ \<Rightarrow> True)\<rparr> in
      run_bind (record_event S recordIfAbsent stored event resolution) (\<lambda>(created, rec).
        route_event S stored event resolution rec (if created then result else result\<lparr>wr_Duplicate := True\<rparr>)))"

fun ingest_events ::
  "'w webhook_service \<Rightarrow> (inbound_draft \<Rightarrow> ('w, bool \<times> inbound_event) run) \<Rightarrow> raw_payload \<Rightarrow>
   (channel_event \<times> channel_connection result) list \<Rightarrow> webhook_result \<Rightarrow> ('w webhook_state, webhook_result) run" where
  "ingest_events S recordIfAbsent stored [] result = run_return result"
| "ingest_events S recordIfAbsent stored ((event, resolution) # rest) result =
     run_bind (ingest_event S recordIfAbsent stored event resolution result)
       (ingest_events S recordIfAbsent stored rest)"

section \<open>The delivery\<close>

definition body_to_store :: "'w webhook_service \<Rightarrow> webhook_command \<Rightarrow> bool \<Rightarrow> string" where
  "body_to_store S command removed =
     (if removed then ''mixed-delivery-redacted-sha256:'' @ wb_Sha256Hex S (wc_RawPayload command)
      else wc_RawPayload command)"

text \<open>What follows the verification and the reading of the body, then the whole handler.\<close>

definition proceed_webhook ::
  "'w webhook_service \<Rightarrow> webhook_command \<Rightarrow> (string \<Rightarrow> string \<Rightarrow> string \<Rightarrow> ('w, raw_payload) run) \<Rightarrow>
   (string \<Rightarrow> string \<Rightarrow> string \<Rightarrow> ('w, channel_connection) run) \<Rightarrow> (inbound_draft \<Rightarrow> ('w, bool \<times> inbound_event) run) \<Rightarrow>
   channel_event list \<Rightarrow> ('w webhook_state, webhook_result) run" where
  "proceed_webhook S command put getByReferences recordIfAbsent events =
     (let ignored = no_webhook_result\<lparr>wr_Accepted := True, wr_Ignored := True, wr_RequestID := wc_RequestID command\<rparr> in
      if events = [] then run_return ignored
      else run_bind (retain_events S getByReferences events ([], False)) (\<lambda>(retained, removed).
        if retained = [] then run_return ignored
        else run_bind (on_error (external_dependency_error ''raw webhook payload could not be stored'')
               (noting (Stored_Body (body_to_store S command removed))
                  (put ''socialapi'' (wc_DeliveryID command) (body_to_store S command removed)))) (\<lambda>stored.
          ingest_events S recordIfAbsent stored retained
            (no_webhook_result\<lparr>wr_Accepted := True, wr_RequestID := wc_RequestID command\<rparr>))))"

definition handle_webhook :: "'w webhook_service \<Rightarrow> webhook_command \<Rightarrow> ('w webhook_state, webhook_result) run" where
  "handle_webhook S command =
     (case (wb_VerifyWebhook S, wb_RawPayloads S, wb_Connections S, wb_Events S) of
        (Some verify, Some put, Some getByReferences, Some recordIfAbsent) \<Rightarrow>
          (case validate_webhook_command command of
             Inl e \<Rightarrow> run_fail e
           | Inr _ \<Rightarrow>
               run_bind (on_error webhook_authentication_error
                 (noting (\<lambda>_. Verified) (verify (wc_ProviderHeaders command) (wc_RawPayload command)))) (\<lambda>_.
               run_bind (on_error webhook_authentication_error
                 (quietly (wb_NormalizeWebhook S (wc_ProviderHeaders command) (wc_RawPayload command))))
               (proceed_webhook S command put getByReferences recordIfAbsent)))
      | _ \<Rightarrow> run_fail not_implemented)"

section \<open>The law of a delivery\<close>

text \<open>The history holds a message of the business that was taken in, new and not ignored, and is no postback.\<close>

definition taken_in :: "webhook_effect list \<Rightarrow> string \<Rightarrow> provider_inbound_draft \<Rightarrow> provider_inbound_result \<Rightarrow> bool" where
  "taken_in pre businessID d r \<longleftrightarrow> Materialized d r \<in> set pre \<and> pd_BusinessID d = businessID \<and>
     \<not> pi_Duplicate r \<and> \<not> pi_Ignored r \<and> pd_ActionPayload d = ''''"

text \<open>The event with this record was recorded for this business and connection.\<close>

definition recorded_for :: "webhook_effect list \<Rightarrow> string \<Rightarrow> string \<Rightarrow> string \<Rightarrow> string \<Rightarrow> bool" where
  "recorded_for pre eventID businessID connectionID eventType \<longleftrightarrow>
     (\<exists>draft created rec. Recorded_Event draft created rec \<in> set pre \<and> ie_ID rec = eventID \<and>
        id_BusinessID draft = Some businessID \<and> id_ConnectionID draft = Some connectionID \<and> id_EventType draft = eventType)"

text \<open>
  What may happen in a delivery, and after what:
  the signature is verified first of all; connections are looked up for events of this provider only; the
  body is stored once, as received if no event was suppressed and otherwise reduced to its digest; an
  event is recorded as verified, with the reference of the stored body, and as received exactly when its
  account resolved to a connection, whose business and identifier it then carries; statuses are applied and
  messages taken in only for events recorded for that business and connection; profiles, automation,
  notifications, the check of the cost protection and the submission of a reply follow only on a message
  that was taken in for that business; a reply is submitted only after the cost protection allowed it, for a
  customer's text.
\<close>

fun webhook_allowed :: "string \<Rightarrow> string \<Rightarrow> webhook_effect list \<Rightarrow> webhook_effect \<Rightarrow> bool" where
  "webhook_allowed raw digest pre Verified \<longleftrightarrow> pre = []"
| "webhook_allowed raw digest pre (Resolved_To e c) \<longleftrightarrow>
     Verified \<in> set pre \<and> ce_Provider e = ''socialapi'' \<and> \<not> blank (ce_ProviderConnectionID e)"
| "webhook_allowed raw digest pre (Suppressed e) \<longleftrightarrow>
     (\<exists>c. Resolved_To e c \<in> set pre) \<and> (\<forall>b r. Stored_Body b r \<notin> set pre)"
| "webhook_allowed raw digest pre (Stored_Body b r) \<longleftrightarrow>
     Verified \<in> set pre \<and> (\<forall>b r. Stored_Body b r \<notin> set pre) \<and>
     b = (if \<exists>e. Suppressed e \<in> set pre then ''mixed-delivery-redacted-sha256:'' @ digest else raw)"
| "webhook_allowed raw digest pre (Recorded_Event d created rec) \<longleftrightarrow>
     id_SignatureVerified d \<and>
     (\<exists>b r. Stored_Body b r \<in> set pre \<and> id_RawPayloadReference d = rp_Reference r \<and> id_PayloadHash d = rp_SHA256 r) \<and>
     (case id_BusinessID d of
        None \<Rightarrow> id_ConnectionID d = None \<and> id_ProcessingState d = ''unresolved''
      | Some businessID \<Rightarrow> id_ProcessingState d = ''received'' \<and>
          (\<exists>e c. Resolved_To e c \<in> set pre \<and> ce_ProviderConnectionID e = id_ProviderConnectionRef d \<and>
                 cn_BusinessID c = businessID \<and> id_ConnectionID d = Some (cn_ID c)))"
| "webhook_allowed raw digest pre (Status_Applied d r) \<longleftrightarrow>
     recorded_for pre (dd_InboundEventID d) (dd_BusinessID d) (dd_ConnectionID d) ''delivery_status_changed''"
| "webhook_allowed raw digest pre (Materialized d r) \<longleftrightarrow> pd_EventType d \<noteq> ''delivery_status_changed'' \<and>
     recorded_for pre (pd_InboundEventID d) (pd_BusinessID d) (pd_ConnectionID d) (pd_EventType d)"
| "webhook_allowed raw digest pre (Profile_Merged m) \<longleftrightarrow>
     (\<exists>d r. taken_in pre (pm_BusinessID m) d r \<and> pm_CustomerID m = pi_CustomerID r \<and>
        (blank (pm_ExternalUserID m) \<or> blank (pd_ExternalUserID d) \<or> pm_ExternalUserID m = pd_ExternalUserID d))"
| "webhook_allowed raw digest pre (Published ev) \<longleftrightarrow>
     (\<exists>d r. Status_Applied d r \<in> set pre \<and> \<not> dz_Duplicate r \<and> re_BusinessID ev = dd_BusinessID d) \<or>
     (\<exists>d r. taken_in pre (re_BusinessID ev) d r)"
| "webhook_allowed raw digest pre (Automated c) \<longleftrightarrow>
     (\<exists>d r. taken_in pre (ac_BusinessID c) d r \<and> ac_ConversationID c = pi_ConversationID r \<and> ac_InboundEventID c = pd_InboundEventID d)"
| "webhook_allowed raw digest pre (Cost_Checked businessID ok) \<longleftrightarrow> (\<exists>d r. taken_in pre businessID d r)"
| "webhook_allowed raw digest pre (Submitted t accepted) \<longleftrightarrow>
     Cost_Checked (at_BusinessID t) True \<in> set pre \<and> \<not> blank (at_Text t) \<and>
     (\<exists>d r. taken_in pre (at_BusinessID t) d r \<and> at_ConversationID t = pi_ConversationID r \<and>
        at_SourceMessageReference t = pd_ProviderMessageID d \<and> at_Text t = pd_Text d)"

interpretation wh: observation_law "webhook_allowed raw digest" for raw digest .

lemma taken_in_append [simp]: "taken_in pre b d r \<Longrightarrow> taken_in (pre @ ext) b d r"
  by (simp add: taken_in_def)

lemma dedupe_not_blank: "non_empty_or (dedupe_state b) ''unresolved'' = (if b = None then ''unresolved'' else ''received'')"
proof -
  have "\<not> blank ''received''" "\<not> blank ''unresolved''" by code_simp+
  then show ?thesis by (simp add: non_empty_or_def dedupe_state_def)
qed

text \<open>What a message taken in leads to.\<close>

lemma publish_obeys:
  assumes "\<And>tr ev. P tr \<Longrightarrow> re_BusinessID ev = b \<Longrightarrow> webhook_allowed raw digest tr (Published ev)"
    and mono: "\<And>tr ext. P tr \<Longrightarrow> P (tr @ ext)"
  shows "wh.obeys raw digest P (publish S b ty rt ri at fs) (\<lambda>_. P)"
proof -
  have pub: "wh.obeys raw digest P (run_ignore (run_bind (note_that (Published ev)) (\<lambda>_. quietly m))) (\<lambda>_. P)"
    if "re_BusinessID ev = b" for ev m
    using that assms
    by (intro wh.obeys_ignore wh.obeys_bind [where Q = "\<lambda>_ _. True"] wh.obeys_note wh.obeys_quietly) auto
  show ?thesis
    unfolding publish_def Let_def
    by (auto split: option.split sum.split intro!: pub wh.obeys_done wh.obeys_then [OF wh.obeys_quiet])
qed

lemma enrich_obeys:
  assumes "pd_ExternalUserID d = ce_ExternalUserID event" "cn_BusinessID connection = b"
  shows "wh.obeys raw digest (\<lambda>tr. taken_in tr b d r) (enrich S event connection r) (\<lambda>_ tr. taken_in tr b d r)"
proof -
  let ?P = "\<lambda>tr. taken_in tr b d r"
  have "wh.obeys raw digest ?P (enrich_customer_profile g m b (pi_CustomerID r) k (ce_ExternalUserID event)) (\<lambda>_. ?P)" for g m k
    unfolding enrich_customer_profile_def Let_def
  proof (rule wh.obeys_ignore, rule wh.obeys_then [OF wh.obeys_quiet])
    fix profile :: conversation_profile
    let ?m = "\<lparr>pm_BusinessID = b, pm_CustomerID = pi_CustomerID r, pm_DisplayName = cv_ParticipantName profile,
      pm_Picture = cv_ParticipantPicture profile, pm_ExternalUserID = cv_ParticipantID profile\<rparr>"
    show "wh.obeys raw digest ?P
      (if \<not> blank (cv_ParticipantID profile) \<and> \<not> blank (ce_ExternalUserID event) \<and> cv_ParticipantID profile \<noteq> ce_ExternalUserID event
       then run_return ()
       else if blank (cv_ParticipantName profile) \<and> blank (cv_ParticipantPicture profile) then run_return ()
       else noting (\<lambda>_. Profile_Merged ?m) (m ?m)) (\<lambda>_ _. True)"
      using assms by (auto intro!: wh.obeys_return wh.obeys_noting exI [of _ d] exI [of _ r])
  qed simp
  with assms show ?thesis
    unfolding enrich_def by (auto split: option.split intro!: wh.obeys_done)
qed

lemma automate_obeys:
  assumes "pd_InboundEventID d = ie_ID rec" "cn_BusinessID connection = b"
  shows "wh.obeys raw digest (\<lambda>tr. taken_in tr b d r) (automate S event connection rec r) (\<lambda>_ tr. taken_in tr b d r)"
  unfolding automate_def Let_def
  using assms
  by (auto split: option.split intro!: wh.obeys_done wh.obeys_on_error wh.obeys_noting exI [of _ d] exI [of _ r])

lemma auto_reply_obeys:
  assumes "pd_ProviderMessageID d = ce_ProviderMessageID event" "pd_Text d = ce_Text event" "cn_BusinessID connection = b"
  shows "wh.obeys raw digest (\<lambda>tr. taken_in tr b d r) (auto_reply S event connection r) (\<lambda>_ tr. taken_in tr b d r)"
proof (cases "wb_AutoReply S \<and> customer_message event \<and> \<not> blank (ce_Text event) \<and> wb_CostProtection S \<noteq> None")
  case False
  then show ?thesis unfolding auto_reply_def by (auto split: option.split intro!: wh.obeys_done)
next
  case True
  then obtain isAllowed where S: "wb_CostProtection S = Some isAllowed" by blast
  have "wh.obeys raw digest (\<lambda>tr. taken_in tr b d r \<and> Cost_Checked b (fst ar) \<in> set tr)
      (case ar of (allowed, reason) \<Rightarrow> if \<not> allowed then run_return ()
         else (case wb_WorkerPool S of None \<Rightarrow> run_return ()
               | Some submit \<Rightarrow> let task = \<lparr>at_BusinessID = cn_BusinessID connection, at_ConversationID = pi_ConversationID r,
                       at_SourceMessageReference = ce_ProviderMessageID event, at_Text = ce_Text event,
                       at_Channel = ce_Channel event, at_ProviderRef = ce_Provider event\<rparr>
                   in run_bind (noting (Submitted task) (total_call (submit task))) (\<lambda>_. run_return ())))
      (\<lambda>_ tr. taken_in tr b d r)" for ar :: "bool \<times> string"
    using assms True
    by (auto simp: Let_def split: prod.split option.split intro!: wh.obeys_return
        wh.obeys_bind [where Q = "\<lambda>_ tr. taken_in tr b d r"] wh.obeys_noting exI [of _ d] exI [of _ r])
  with True S assms show ?thesis
    unfolding auto_reply_def
    by (auto intro!: wh.obeys_bind [where Q = "\<lambda>ar tr. taken_in tr b d r \<and> Cost_Checked b (fst ar) \<in> set tr"]
        wh.obeys_noting exI [of _ d] exI [of _ r] split: prod.split)
qed

lemma deliver_message_obeys:
  assumes "ce_EventType event \<noteq> ''delivery_status_changed''"
  shows "wh.obeys raw digest
     (\<lambda>tr. recorded_for tr (ie_ID rec) (cn_BusinessID connection) (cn_ID connection) (ce_EventType event))
     (deliver_message S stored event connection rec result) (\<lambda>_ _. True)"
proof (cases "wb_Inbound S")
  case None
  then show ?thesis by (simp add: deliver_message_def wh.obeys_fail)
next
  case (Some materialize)
  let ?d = "inbound_message_draft event connection rec stored"
  let ?b = "cn_BusinessID connection"
  have rest: "wh.obeys raw digest (\<lambda>tr. taken_in tr ?b ?d r)
      (run_bind (enrich S event connection r) (\<lambda>_.
       run_bind (publish S ?b ty rt ri at fs) (\<lambda>_.
       run_bind (automate S event connection rec r) (\<lambda>_.
       run_bind (auto_reply S event connection r) (\<lambda>_. run_return result))))) (\<lambda>_ _. True)" for r ty rt ri at fs
    by (intro wh.obeys_then [OF enrich_obeys] wh.obeys_then [OF publish_obeys] wh.obeys_then [OF automate_obeys]
        wh.obeys_then [OF auto_reply_obeys] wh.obeys_return)
      (auto simp: inbound_message_draft_def)
  show ?thesis
    unfolding deliver_message_def Some option.case Let_def
  proof (rule wh.obeys_bind [where Q = "\<lambda>r tr. Materialized ?d r \<in> set tr"])
    show "wh.obeys raw digest (\<lambda>tr. recorded_for tr (ie_ID rec) ?b (cn_ID connection) (ce_EventType event))
      (on_error (external_dependency_error ''SocialAPI inbound event could not be materialized'')
        (noting (Materialized ?d) (materialize ?d))) (\<lambda>r tr. Materialized ?d r \<in> set tr)"
      using assms by (intro wh.obeys_on_error wh.obeys_noting) (simp add: inbound_message_draft_def)
  qed (auto intro!: wh.obeys_return wh.obeys_weaken [OF rest] simp: taken_in_def inbound_message_draft_def)
qed

lemma apply_status_obeys:
  assumes "ce_EventType event = ''delivery_status_changed''"
  shows "wh.obeys raw digest
     (\<lambda>tr. recorded_for tr (ie_ID rec) (cn_BusinessID connection) (cn_ID connection) (ce_EventType event))
     (apply_status S event connection rec result) (\<lambda>_ _. True)"
proof (cases "wb_DeliveryStatuses S")
  case None
  then show ?thesis by (simp add: apply_status_def wh.obeys_fail)
next
  case (Some applyStatus)
  let ?d = "\<lparr>dd_InboundEventID = ie_ID rec, dd_BusinessID = cn_BusinessID connection,
    dd_ConnectionID = cn_ID connection, dd_ProviderRef = ce_Provider event,
    dd_ProviderAccountRef = ce_ProviderConnectionID event,
    dd_ProviderMessageID = ce_ProviderMessageID event, dd_Status = ce_DeliveryStatus event,
    dd_OccurredAt = ce_ReceivedAt event\<rparr>"
  have pub: "wh.obeys raw digest (\<lambda>tr. Status_Applied ?d r \<in> set tr)
      (run_bind (publish S (cn_BusinessID connection) ty rt ri at fs) (\<lambda>_. run_return result)) (\<lambda>_ _. True)"
    if "\<not> dz_Duplicate r" for r ty rt ri at fs
  proof (intro wh.obeys_then [OF publish_obeys] wh.obeys_return)
    fix tr and ev :: realtime_event assume "Status_Applied ?d r \<in> set tr" "re_BusinessID ev = cn_BusinessID connection"
    with that show "webhook_allowed raw digest tr (Published ev)"
      unfolding webhook_allowed.simps by (intro disjI1 exI [of _ ?d] exI [of _ r]) simp
  qed simp_all
  show ?thesis
    unfolding apply_status_def Some option.case Let_def
    using assms pub
    by (intro wh.obeys_bind [where Q = "\<lambda>r tr. Status_Applied ?d r \<in> set tr"] wh.obeys_on_error wh.obeys_noting)
      (auto intro!: wh.obeys_return)
qed

lemma recorded_forI:
  "Recorded_Event draft created rec \<in> set tr \<Longrightarrow> id_BusinessID draft = Some b \<Longrightarrow> id_ConnectionID draft = Some c \<Longrightarrow>
     recorded_for tr (ie_ID rec) b c (id_EventType draft)"
  by (auto simp: recorded_for_def)

lemma record_event_obeys:
  assumes pre: "\<And>tr. P tr \<Longrightarrow> \<exists>b. Stored_Body b stored \<in> set tr"
    "\<And>tr connection. P tr \<Longrightarrow> resolution = Inr connection \<Longrightarrow> Resolved_To event connection \<in> set tr"
  shows "wh.obeys raw digest P (record_event S recordIfAbsent stored event resolution)
     (\<lambda>(created, rec) tr. \<forall>connection. resolution = Inr connection \<longrightarrow>
        recorded_for tr (ie_ID rec) (cn_BusinessID connection) (cn_ID connection) (ce_EventType event))"
proof -
  have "webhook_allowed raw digest tr (Recorded_Event (inbound_draft_of event resolution stored t1 t2) created rec)"
    if "P tr" for tr t1 t2 created rec
    using pre(1) [OF that] pre(2) [OF that]
    by (cases resolution) (auto simp: inbound_draft_of_def Let_def dedupe_not_blank)
  moreover have "recorded_for (tr @ [Recorded_Event (inbound_draft_of event resolution stored t1 t2) created rec])
      (ie_ID rec) (cn_BusinessID connection) (cn_ID connection) (ce_EventType event)"
    if "resolution = Inr connection" for tr t1 t2 created rec connection
  proof -
    let ?draft = "inbound_draft_of event resolution stored t1 t2"
    have "id_BusinessID ?draft = Some (cn_BusinessID connection)" "id_ConnectionID ?draft = Some (cn_ID connection)"
      "id_EventType ?draft = ce_EventType event" by (simp_all add: inbound_draft_of_def Let_def that)
    with recorded_forI [of ?draft created rec "tr @ [Recorded_Event ?draft created rec]"] show ?thesis by simp
  qed
  ultimately have "webhook_allowed raw digest tr (Recorded_Event (inbound_draft_of event resolution stored t1 t2) created rec) \<and>
     (\<forall>connection. resolution = Inr connection \<longrightarrow>
        recorded_for (tr @ [Recorded_Event (inbound_draft_of event resolution stored t1 t2) created rec])
          (ie_ID rec) (cn_BusinessID connection) (cn_ID connection) (ce_EventType event))"
    if "P tr" for tr t1 t2 created rec
    using that by blast
  then show ?thesis
    unfolding record_event_def Let_def
    by (intro wh.obeys_then [OF wh.obeys_quiet] wh.obeys_on_error wh.obeys_noting) auto
qed

lemma ingest_event_obeys:
  assumes mono: "\<And>tr ext. F tr \<Longrightarrow> F (tr @ ext)" and stored: "\<And>tr. F tr \<Longrightarrow> \<exists>b. Stored_Body b stored \<in> set tr"
    and resolved: "\<And>tr connection. F tr \<Longrightarrow> resolution = Inr connection \<Longrightarrow> Resolved_To event connection \<in> set tr"
  shows "wh.obeys raw digest F (ingest_event S recordIfAbsent stored event resolution result) (\<lambda>_. F)"
proof -
  have "wh.obeys raw digest F (ingest_event S recordIfAbsent stored event resolution result) (\<lambda>_ _. True)"
    unfolding ingest_event_def Let_def
    by (rule wh.obeys_bind [OF record_event_obeys [OF stored resolved]])
      (auto simp: route_event_def split: prod.split sum.split intro!: wh.obeys_return
        wh.obeys_weaken [OF apply_status_obeys] wh.obeys_weaken [OF deliver_message_obeys])
  from wh.obeys_frame [where F = F, OF mono this] show ?thesis by (rule wh.obeys_weaken) simp_all
qed

text \<open>What the second loop finds: the body is stored, and the connections it uses were resolved.\<close>

definition ready :: "raw_payload \<Rightarrow> (channel_event \<times> channel_connection result) list \<Rightarrow> webhook_effect list \<Rightarrow> bool" where
  "ready stored retained tr \<longleftrightarrow> (\<exists>b. Stored_Body b stored \<in> set tr) \<and>
     (\<forall>event connection. (event, Inr connection) \<in> set retained \<longrightarrow> Resolved_To event connection \<in> set tr)"

lemma ready_append: "ready stored retained tr \<Longrightarrow> ready stored retained (tr @ ext)"
  by (auto simp: ready_def)

lemma ingest_events_obeys:
  "wh.obeys raw digest (ready stored retained) (ingest_events S recordIfAbsent stored retained result) (\<lambda>_ _. True)"
proof (induction retained arbitrary: result)
  case Nil
  show ?case by (auto intro: wh.obeys_return)
next
  case (Cons er retained)
  obtain event resolution where er: "er = (event, resolution)" by force
  let ?F = "ready stored (er # retained)"
  have "wh.obeys raw digest ?F (ingest_event S recordIfAbsent stored event resolution result) (\<lambda>_. ?F)"
    by (rule ingest_event_obeys) (auto simp: er ready_def)
  moreover have "wh.obeys raw digest ?F (ingest_events S recordIfAbsent stored retained result') (\<lambda>_ _. True)" for result'
    by (rule wh.obeys_weaken [OF Cons.IH]) (simp_all add: ready_def)
  ultimately show ?case unfolding er ingest_events.simps by (rule wh.obeys_then)
qed

text \<open>What the first loop keeps true: nothing is stored yet, and the flag says whether an event was suppressed.\<close>

definition sifting :: "(channel_event \<times> channel_connection result) list \<times> bool \<Rightarrow> webhook_effect list \<Rightarrow> bool" where
  "sifting acc tr \<longleftrightarrow> Verified \<in> set tr \<and> (\<forall>b r. Stored_Body b r \<notin> set tr) \<and>
     (snd acc \<longleftrightarrow> (\<exists>e. Suppressed e \<in> set tr)) \<and>
     (\<forall>event connection. (event, Inr connection) \<in> set (fst acc) \<longrightarrow> Resolved_To event connection \<in> set tr)"

lemma resolve_connection_obeys:
  assumes "ce_Provider event = ''socialapi''" "\<not> blank (ce_ProviderConnectionID event)"
  shows "wh.obeys raw digest (sifting acc) (resolve_connection getByReferences event)
     (\<lambda>resolution tr. sifting acc tr \<and> (\<forall>c. resolution = Inr c \<longrightarrow> Resolved_To event c \<in> set tr))"
  unfolding wh.obeys_def
proof (intro allI impI)
  fix s r s' assume run: "resolve_connection getByReferences event s = (r, s')"
    and pre: "sifting acc (snd s)" "wh.lawful raw digest (snd s)"
  obtain a s1 where q: "quietly (getByReferences ''socialapi'' (ce_ProviderConnectionID event) '''') s = (a, s1)"
    by (metis surj_pair)
  from snd_quietly [OF q] run q pre assms
  show "wh.lawful raw digest (snd s') \<and> (\<exists>ext. snd s' = snd s @ ext) \<and>
     (case r of Inl _ \<Rightarrow> True | Inr resolution \<Rightarrow> sifting acc (snd s') \<and>
        (\<forall>c. resolution = Inr c \<longrightarrow> Resolved_To event c \<in> set (snd s')))"
    by (cases a) (auto simp: resolve_connection_def run_bind_def note_that_def run_return_def sifting_def
        split: prod.splits option.splits repo_kind.splits, blast)
qed

text \<open>The event under consideration, and the two ways it can go.\<close>

abbreviation considering where
  "considering retained removed event resolution tr \<equiv>
     sifting (retained, removed) tr \<and> (\<forall>c. resolution = Inr c \<longrightarrow> Resolved_To event c \<in> set tr)"

abbreviation considered where
  "considered retained removed event resolution ignore \<equiv>
     sifting (if ignore then (retained, True) else (retained @ [(event, resolution)], removed))"

lemma keep_event_obeys:
  "wh.obeys raw digest (considering retained removed event resolution) (run_return False)
     (considered retained removed event resolution)"
  by (rule wh.obeys_return) (auto simp: sifting_def)

lemma suppress_event_obeys:
  "wh.obeys raw digest (considering retained removed event (Inr connection))
     (run_bind (note_that (Suppressed event)) (\<lambda>_. run_return True)) (considered retained removed event resolution)"
  by (rule wh.obeys_bind [where Q = "\<lambda>_. sifting (retained, True)"])
    (auto simp: sifting_def intro!: wh.obeys_note wh.obeys_return)

lemma should_ignore_obeys:
  "wh.obeys raw digest (considering retained removed event resolution) (should_ignore S event resolution)
     (considered retained removed event resolution)"
proof (cases "\<exists>connection shouldIgnore. resolution = Inr connection \<and> wb_History S = Some shouldIgnore")
  case False
  then have "should_ignore S event resolution = run_return False"
    unfolding should_ignore_def by (auto split: sum.split option.split)
  then show ?thesis using keep_event_obeys by simp
next
  case True
  then obtain connection shouldIgnore where eq: "resolution = Inr connection" "wb_History S = Some shouldIgnore" by blast
  show ?thesis
    unfolding should_ignore_def eq prod.case sum.case option.case
    by (intro wh.obeys_then [OF wh.obeys_on_error [OF wh.obeys_quiet]] wh.obeys_if suppress_event_obeys keep_event_obeys)
qed

lemma retain_events_obeys:
  "wh.obeys raw digest (sifting acc) (retain_events S getByReferences events acc) sifting"
proof (induction events arbitrary: acc)
  case Nil
  show ?case by (auto intro: wh.obeys_return)
next
  case (Cons event events)
  obtain retained removed where acc: "acc = (retained, removed)" by force
  show ?case
  proof (cases "ce_Provider event \<noteq> ''socialapi'' \<or> blank (ce_ProviderConnectionID event)")
    case True
    then show ?thesis by (simp add: acc wh.obeys_fail)
  next
    case False
    then have ok: "ce_Provider event = ''socialapi''" "\<not> blank (ce_ProviderConnectionID event)" by simp_all
    have next_event: "wh.obeys raw digest (sifting (if ignore then (retained, True) else (retained @ [(event, resolution)], removed)))
       (if ignore then retain_events S getByReferences events (retained, True)
        else retain_events S getByReferences events (retained @ [(event, resolution)], removed)) sifting" for ignore resolution
      using Cons.IH by simp
    from False show ?thesis
      unfolding acc retain_events.simps if_not_P [OF False]
      by (intro wh.obeys_bind [OF resolve_connection_obeys [OF ok]] wh.obeys_bind [OF should_ignore_obeys] next_event)
  qed
qed

text \<open>
  C27: every delivery follows the law above, whatever the collaborators answer and whether the delivery
  is accepted or not. In particular nothing is looked up, stored or recorded before the signature was
  verified; a body that contains a suppressed event is never stored as received; no event, status, message,
  profile, notification, automation or reply concerns a business other than the one whose connection the
  event's account resolved to; and no reply is submitted for a duplicate, an ignored message or a postback,
  or without the consent of the cost protection.
\<close>

theorem webhook_effects_lawful:
  "observation_law.lawful (webhook_allowed (wc_RawPayload command) (wb_Sha256Hex S (wc_RawPayload command)))
     (snd (snd (handle_webhook S command (w, []))))"
proof -
  let ?raw = "wc_RawPayload command" and ?digest = "wb_Sha256Hex S (wc_RawPayload command)"
  have put: "wh.obeys ?raw ?digest (sifting (retained, removed))
      (run_bind (on_error f (noting (Stored_Body (body_to_store S command removed)) m))
         (\<lambda>stored. ingest_events S recordIfAbsent stored retained result)) (\<lambda>_ _. True)"
    for retained removed f m recordIfAbsent result
    by (rule wh.obeys_bind [OF wh.obeys_on_error [OF wh.obeys_noting] ingest_events_obeys])
      (auto simp: sifting_def ready_def body_to_store_def)
  have proceed: "wh.obeys ?raw ?digest (sifting ([], False)) (proceed_webhook S command p g rec events) (\<lambda>_ _. True)" for p g rec events
    unfolding proceed_webhook_def Let_def
    by (auto split: prod.split intro!: wh.obeys_return wh.obeys_bind [OF retain_events_obeys] put)
  have "wh.obeys ?raw ?digest (\<lambda>tr. tr = []) (handle_webhook S command) (\<lambda>_ _. True)"
    unfolding handle_webhook_def
    by (auto split: option.split sum.split intro!: wh.obeys_fail
        wh.obeys_bind [where Q = "\<lambda>_. sifting ([], False)" and P = "\<lambda>tr. tr = []"]
        wh.obeys_then [where P = "sifting ([], False)"]
        wh.obeys_on_error wh.obeys_noting wh.obeys_quiet proceed simp: sifting_def)
  from wh.obeys_lawful [OF this] show ?thesis by simp
qed

section \<open>The errors of a delivery\<close>

text \<open>The errors that can leave a delivery once its signature is verified and its body is understood.\<close>

definition delivery_errors :: "go_error set" where
  "delivery_errors = insert not_implemented ({app_error code m | code m. code \<in> {CodeValidation, CodeConflict}} \<union>
     {AppError CodeExternalDependency m True (Some e) | m e. True})"

lemma delivery_errorsI [simp]:
  "not_implemented \<in> delivery_errors" "app_error CodeValidation m \<in> delivery_errors"
  "app_error CodeConflict m \<in> delivery_errors" "external_dependency_error m e \<in> delivery_errors"
  by (auto simp: delivery_errors_def external_dependency_error_def)

lemma publish_fails: "fails_in E (publish S b ty rt ri at fs)"
  unfolding publish_def by (auto simp: Let_def split: option.split sum.split intro!: fails_rules)

lemma ingest_event_fails: "fails_in delivery_errors (ingest_event S recordIfAbsent stored event resolution result)"
proof -
  have "fails_in delivery_errors (apply_status S event connection rec result)" for connection rec result
    unfolding apply_status_def
    by (auto simp: Let_def split: option.split intro!: fails_rules fails_fail fails_on_error publish_fails)
  moreover have "fails_in delivery_errors (enrich S event connection r)" for connection r
    unfolding enrich_def enrich_customer_profile_def by (auto split: option.split intro!: fails_rules)
  moreover have "fails_in delivery_errors (automate S event connection rec r)" for connection rec r
    unfolding automate_def by (auto simp: Let_def split: option.split intro!: fails_rules fails_on_error)
  moreover have "fails_in delivery_errors (auto_reply S event connection r)" for connection r
    unfolding auto_reply_def by (auto simp: Let_def split: option.split prod.split intro!: fails_rules)
  ultimately have "fails_in delivery_errors (route_event S stored event resolution rec result)" for rec result
    unfolding route_event_def deliver_message_def
    by (auto simp: Let_def split: option.split sum.split intro!: fails_rules fails_fail fails_on_error publish_fails)
  then show ?thesis
    unfolding ingest_event_def record_event_def Let_def
    by (auto split: prod.split intro!: fails_rules fails_on_error)
qed

lemma retain_events_fails: "fails_in delivery_errors (retain_events S getByReferences events acc)"
proof (induction events arbitrary: acc)
  case Nil
  show ?case by (simp add: fails_return)
next
  case (Cons event events)
  obtain retained removed where acc: "acc = (retained, removed)" by force
  have "fails_in delivery_errors (resolve_connection getByReferences event)"
    unfolding fails_in_def
    by (auto simp: resolve_connection_def run_bind_def note_that_def run_return_def
        split: prod.splits sum.splits option.splits repo_kind.splits)
  moreover have "fails_in delivery_errors (should_ignore S event resolution)" for resolution
    unfolding should_ignore_def by (auto split: sum.split option.split intro!: fails_rules fails_on_error)
  ultimately show ?case
    unfolding acc by (auto intro!: fails_rules fails_fail Cons.IH)
qed

lemma ingest_events_fails: "fails_in delivery_errors (ingest_events S recordIfAbsent stored retained result)"
  by (induction retained arbitrary: result) (auto intro!: fails_rules ingest_event_fails)

text \<open>The results that acknowledge a request.\<close>

definition acknowledgements :: "string \<Rightarrow> webhook_result set" where
  "acknowledgements requestID = {result. wr_Accepted result \<and> wr_RequestID result = requestID}"

lemma acknowledgements_iff [simp]:
  "result \<in> acknowledgements requestID \<longleftrightarrow> wr_Accepted result \<and> wr_RequestID result = requestID"
  by (simp add: acknowledgements_def)

lemma ingest_event_returns:
  assumes "result \<in> acknowledgements q"
  shows "returns_in (acknowledgements q) (ingest_event S recordIfAbsent stored event resolution result)"
  using assms
  unfolding ingest_event_def route_event_def apply_status_def deliver_message_def
  by (auto simp: Let_def split: option.split sum.split prod.split
      intro!: returns_bind returns_if returns_return returns_fail)

lemma ingest_events_returns:
  "result \<in> acknowledgements q \<Longrightarrow> returns_in (acknowledgements q) (ingest_events S recordIfAbsent stored retained result)"
  by (induction retained arbitrary: result)
    (auto intro!: returns_return returns_feed [OF ingest_event_returns])

text \<open>How a delivery can begin.\<close>

lemma handle_webhook_cases:
  obtains (early) e where "handle_webhook S command s = (Inl e, s)" "e \<in> delivery_errors"
  | (unauthenticated) e s' where "handle_webhook S command s = (Inl (webhook_authentication_error e), s')"
      "snd s' = snd s \<or> snd s' = snd s @ [Verified]"
  | (proceeds) m s' where "handle_webhook S command s = m s'" "fails_in delivery_errors m"
      "returns_in (acknowledgements (wc_RequestID command)) m"
proof (cases "\<exists>verify put getByReferences recordIfAbsent. wb_VerifyWebhook S = Some verify \<and> wb_RawPayloads S = Some put \<and>
    wb_Connections S = Some getByReferences \<and> wb_Events S = Some recordIfAbsent \<and> validate_webhook_command command = Inr ()")
  case False
  have "validate_webhook_command command = Inl e \<Longrightarrow> e \<in> delivery_errors" for e
    by (auto simp: validate_webhook_command_def split: if_splits)
  with False have "\<exists>e \<in> delivery_errors. handle_webhook S command = run_fail e"
    by (cases "wb_VerifyWebhook S"; cases "wb_RawPayloads S"; cases "wb_Connections S"; cases "wb_Events S";
        cases "validate_webhook_command command") (auto simp: handle_webhook_def)
  with early show thesis by (auto simp: run_fail_def)
next
  case True
  then obtain verify put getByReferences recordIfAbsent where
    S: "wb_VerifyWebhook S = Some verify" "wb_RawPayloads S = Some put" "wb_Connections S = Some getByReferences"
      "wb_Events S = Some recordIfAbsent" "validate_webhook_command command = Inr ()" by blast
  let ?rest = "proceed_webhook S command put getByReferences recordIfAbsent"
  obtain a s1 where v: "noting (\<lambda>_. Verified) (verify (wc_ProviderHeaders command) (wc_RawPayload command)) s = (a, s1)"
    by (metis surj_pair)
  obtain b s2 where n: "quietly (wb_NormalizeWebhook S (wc_ProviderHeaders command) (wc_RawPayload command)) s1 = (b, s2)"
    by (metis surj_pair)
  have step: "handle_webhook S command s = (case a of Inl e \<Rightarrow> (Inl (webhook_authentication_error e), s1)
      | Inr _ \<Rightarrow> case b of Inl e \<Rightarrow> (Inl (webhook_authentication_error e), s2) | Inr events \<Rightarrow> ?rest events s2)"
    unfolding handle_webhook_def S prod.case option.case sum.case
      run_bind_on_error [where m = "noting (\<lambda>_. Verified) (verify (wc_ProviderHeaders command) (wc_RawPayload command))" and s = s, OF v]
      run_bind_on_error [where m = "quietly (wb_NormalizeWebhook S (wc_ProviderHeaders command) (wc_RawPayload command))" and s = s1, OF n] ..
  have tr: "a = Inl e \<Longrightarrow> snd s1 = snd s" "a = Inr () \<Longrightarrow> snd s1 = snd s @ [Verified]" for e
    using v by (auto dest: noting_Inl simp: noting_Inr)
  show thesis
  proof (cases a)
    case (Inl e)
    with step tr unauthenticated show thesis by simp
  next
    case (Inr u)
    show thesis
    proof (cases b)
      case (Inl e)
      with Inr step tr snd_quietly [OF n] unauthenticated show thesis by simp
    next
      case (Inr events)
      have "fails_in delivery_errors (?rest events)"
        unfolding proceed_webhook_def Let_def
        by (auto intro!: fails_rules fails_on_error retain_events_fails ingest_events_fails split: prod.split)
      moreover have "returns_in (acknowledgements (wc_RequestID command)) (?rest events)"
        unfolding proceed_webhook_def Let_def
        by (auto intro!: returns_if returns_return returns_bind ingest_events_returns split: prod.split)
      ultimately show thesis using step \<open>a = Inr u\<close> Inr proceeds by simp
    qed
  qed
qed

text \<open>
  C28: every error of a delivery is an application error. It is marked retryable exactly when a dependency
  failed; it is an authentication error only when the body could not be verified or understood, and then
  nothing was done with the delivery; it is never swallowed into an acceptance: a delivery that is answered
  without error is accepted.
\<close>

theorem webhook_errors_classified:
  "case handle_webhook S command (w, []) of
     (Inr result, _) \<Rightarrow> wr_Accepted result \<and> wr_RequestID result = wc_RequestID command
   | (Inl e, (_, tr)) \<Rightarrow> \<exists>code message retry cause. e = AppError code message retry cause \<and>
       code \<in> {CodeNotImplemented, CodeValidation, CodeUnauthenticated, CodeConflict, CodeExternalDependency} \<and>
       (retry \<longleftrightarrow> code = CodeExternalDependency) \<and> (code = CodeUnauthenticated \<longrightarrow> set tr \<subseteq> {Verified})"
proof -
  have classified: "\<exists>code message retry cause. e = AppError code message retry cause \<and>
       code \<in> {CodeNotImplemented, CodeValidation, CodeConflict, CodeExternalDependency} \<and>
       (retry \<longleftrightarrow> code = CodeExternalDependency)" if "e \<in> delivery_errors" for e
    using that by (auto simp: delivery_errors_def not_implemented_def app_error_def)
  show ?thesis
  proof (cases rule: handle_webhook_cases [of S command "(w, [])"])
    case (early e)
    with classified [of e] show ?thesis by auto
  next
    case (unauthenticated e s')
    then show ?thesis by (cases s') (auto simp: webhook_authentication_error_def)
  next
    case (proceeds m s')
    obtain r s'' where out: "m s' = (r, s'')" by (metis surj_pair)
    show ?thesis
    proof (cases r)
      case (Inl e)
      with proceeds(2) out have "e \<in> delivery_errors" unfolding fails_in_def by blast
      from classified [OF this] show ?thesis unfolding proceeds(1) out Inl by (cases s'') auto
    next
      case (Inr result)
      with proceeds(3) out have "result \<in> acknowledgements (wc_RequestID command)" unfolding returns_in_def by blast
      then show ?thesis unfolding proceeds(1) out Inr by (simp add: acknowledgements_def)
    qed
  qed
qed

section \<open>A sample delivery\<close>

definition sample_channel_event :: channel_event where
  "sample_channel_event =
     \<lparr>ce_ActionPayload = '''', ce_ActionTitle = '''', ce_ID = ''e1'', ce_BusinessID = '''', ce_ConnectionID = '''',
      ce_Provider = ''socialapi'', ce_Channel = ''whatsapp'', ce_ProviderConnectionID = ''acc'', ce_ProviderEventID = ''pe1'',
      ce_DeliveryID = ''d1'', ce_DedupeStrategy = '''', ce_EventType = ''interaction_received'', ce_InteractionKind = ''dm'',
      ce_ProviderMessageID = ''pm1'', ce_ProviderConversationID = ''pc1'', ce_ExternalUserID = ''u1'', ce_Text = ''price?'',
      ce_MessageType = ''text'', ce_Direction = ''inbound'', ce_Origin = ''customer'', ce_Private = False, ce_SenderType = '''',
      ce_DeliveryStatus = '''', ce_ExternalCreatedAt = None, ce_ReceivedAt = 90, ce_RawPayloadReference = ''''\<rparr>"

definition sample_connection :: channel_connection where
  "sample_connection = \<lparr>cn_ID = ''c1'', cn_BusinessID = ''b1'', cn_ProviderReference = ''socialapi'', cn_Channel = ''whatsapp'',
     cn_ProviderAccountReference = Some ''acc'', cn_ProviderConnectionRef = ''acc'', cn_Status = ''active'',
     cn_SecretReference = '''', cn_ResourceVersion = 1, cn_UpdatedAt = 1\<rparr>"

definition sample_service :: "unit webhook_service" where
  "sample_service =
     \<lparr>wb_VerifyWebhook = Some (\<lambda>headers body w. (if headers = [(''sig'', ''ok'')] then Inr () else Inl (PlainError ''bad signature''), w)),
      wb_NormalizeWebhook = (\<lambda>_ _ w. (Inr [sample_channel_event], w)),
      wb_RawPayloads = Some (\<lambda>_ _ _ w. (Inr \<lparr>rp_Reference = ''raw1'', rp_SHA256 = ''h1''\<rparr>, w)),
      wb_History = Some (\<lambda>_ _ _ _ w. (Inr False, w)),
      wb_Connections = Some (\<lambda>_ _ _ w. (Inr sample_connection, w)),
      wb_Events = Some (\<lambda>_ w. (Inr (True, sample_event), w)),
      wb_Inbound = Some (\<lambda>_ w. (Inr \<lparr>pi_BusinessID = ''b1'', pi_Duplicate = False, pi_Ignored = False, pi_CustomerID = ''cu1'',
        pi_ConversationID = ''k1'', pi_ConversationReferenceID = ''rf1'', pi_CommunicationMessageID = ''m1'', pi_InboundEventID = ''e1''\<rparr>, w)),
      wb_DeliveryStatuses = None, wb_Automation = None, wb_AutoReply = True, wb_Realtime = None, wb_Enricher = None,
      wb_Customers = None, wb_CostProtection = Some (\<lambda>_ w. ((True, ''''), w)), wb_WorkerPool = Some (\<lambda>_ w. (True, w)),
      wb_Now = (\<lambda>w. (100, w)), wb_NewID = (\<lambda>w. (''n1'', w)), wb_Sha256Hex = (\<lambda>_. ''h1''), wb_Marshal = (\<lambda>_. Inr '''')\<rparr>"

definition sample_command :: "(string \<times> string) list \<Rightarrow> webhook_command" where
  "sample_command headers = \<lparr>wc_RouteKey = ''socialapi'', wc_Signature = '''', wc_Timestamp = '''', wc_DeliveryID = ''d1'',
     wc_ProviderEvent = '''', wc_RequestID = ''q1'', wc_ProviderHeaders = headers, wc_RawPayload = ''body''\<rparr>"

text \<open>An accepted delivery submits a reply; one with a wrong signature is rejected without effect.\<close>

lemma sample_delivery_replies:
  "case handle_webhook sample_service (sample_command [(''sig'', ''ok'')]) ((), []) of
     (Inr result, (_, tr)) \<Rightarrow> wr_Resolved result \<and> length tr = 7 \<and> (case last tr of Submitted t ok \<Rightarrow> at_Text t = ''price?'' | _ \<Rightarrow> False)
   | _ \<Rightarrow> False"
  by code_simp

theorem webhook_errors_classified_witness:
  "\<exists>message cause. handle_webhook sample_service (sample_command []) ((), []) =
     (Inl (AppError CodeUnauthenticated message False cause), ((), []))"
proof -
  have "case fst (handle_webhook sample_service (sample_command []) ((), [])) of
      Inl (AppError CodeUnauthenticated _ _ _) \<Rightarrow> True | _ \<Rightarrow> False" by code_simp
  moreover have "snd (handle_webhook sample_service (sample_command []) ((), [])) = ((), [])" by code_simp
  ultimately show ?thesis
    using webhook_errors_classified [where S = sample_service and command = "sample_command []" and w = "()"]
    by (auto split: prod.splits sum.splits go_error.splits app_code.splits)
qed

end
