(* ===== verification/Auto_Reply_Pool.thy ===== *)
theory Auto_Reply_Pool
  imports Go_Prelude "HOL-Library.Multiset"
begin

text \<open>
  The bounded worker pool of \<^verbatim>\<open>services/autoreply_worker_pool.go\<close> as a state machine. Its actions are the
  atomic steps of the goroutines: a call of \<^verbatim>\<open>Submit\<close> takes the read lock, reads the flag and tries to send; the
  first call of \<^verbatim>\<open>Stop\<close> takes the write lock, sets the flag, closes the channel, releases the lock and waits; a
  worker receives a task, finishes it (the handler may fail or panic, both are recovered) or leaves when the
  channel is closed and empty. Any interleaving of them is a run.
\<close>

section \<open>State\<close>

datatype 'a submit_call = Checking 'a | Sending 'a

datatype stop_phase = Not_Stopping | Locked | Flagged | Closing | Waiting | Returned

datatype 'a worker = Idle | Running 'a | Left

text \<open>
  \<open>ps_Submits\<close> are the calls that hold the read lock. \<open>ps_Accepted\<close> and \<open>ps_Done\<close> list the tasks for which
  \<^verbatim>\<open>Submit\<close> has returned true and those a worker is done with; \<open>ps_Panicked\<close> says that a send met a closed channel.
\<close>

record 'a pool =
  ps_Depth :: nat
  ps_Queue :: "'a list"
  ps_Submits :: "'a submit_call list"
  ps_Stop :: stop_phase
  ps_Stopped :: bool
  ps_Closed :: bool
  ps_Workers :: "'a worker list"
  ps_Accepted :: "'a list"
  ps_Done :: "'a list"
  ps_Panicked :: bool

definition new_pool :: "int \<Rightarrow> int \<Rightarrow> 'a pool" where
  "new_pool concurrency queueDepth =
     \<lparr>ps_Depth = nat (if queueDepth < 1 then 64 else queueDepth), ps_Queue = [], ps_Submits = [], ps_Stop = Not_Stopping,
      ps_Stopped = False, ps_Closed = False,
      ps_Workers = replicate (nat (if concurrency < 1 then 4 else concurrency)) Idle,
      ps_Accepted = [], ps_Done = [], ps_Panicked = False\<rparr>"

section \<open>Actions\<close>

datatype 'a pool_action =
    Begin_Submit 'a
  | Continue_Submit nat
  | Continue_Stop
  | Receive nat
  | Finish nat
  | Leave nat

definition drop_nth :: "nat \<Rightarrow> 'b list \<Rightarrow> 'b list" where
  "drop_nth i xs = take i xs @ drop (Suc i) xs"

text \<open>The write lock is held from its acquisition to its release; it excludes the read lock and is excluded by it.\<close>

definition write_locked :: "'a pool \<Rightarrow> bool" where
  "write_locked p \<longleftrightarrow> ps_Stop p \<in> {Locked, Flagged, Closing}"

definition begin_submit :: "'a \<Rightarrow> 'a pool \<Rightarrow> 'a pool option" where
  "begin_submit t p = (if write_locked p then None else Some (p\<lparr>ps_Submits := ps_Submits p @ [Checking t]\<rparr>))"

definition continue_submit :: "nat \<Rightarrow> 'a pool \<Rightarrow> 'a pool option" where
  "continue_submit i p =
     (if length (ps_Submits p) \<le> i then None
      else case ps_Submits p ! i of
        Checking t \<Rightarrow>
          if ps_Stopped p then Some (p\<lparr>ps_Submits := drop_nth i (ps_Submits p)\<rparr>)
          else Some (p\<lparr>ps_Submits := (ps_Submits p)[i := Sending t]\<rparr>)
      | Sending t \<Rightarrow>
          let q = p\<lparr>ps_Submits := drop_nth i (ps_Submits p)\<rparr> in
          if ps_Closed p then Some (q\<lparr>ps_Panicked := True\<rparr>)
          else if length (ps_Queue p) < ps_Depth p
          then Some (q\<lparr>ps_Queue := ps_Queue p @ [t], ps_Accepted := ps_Accepted p @ [t]\<rparr>)
          else Some q)"

definition continue_stop :: "'a pool \<Rightarrow> 'a pool option" where
  "continue_stop p =
     (case ps_Stop p of
        Not_Stopping \<Rightarrow> if ps_Submits p = [] then Some (p\<lparr>ps_Stop := Locked\<rparr>) else None
      | Locked \<Rightarrow> Some (p\<lparr>ps_Stop := Flagged, ps_Stopped := True\<rparr>)
      | Flagged \<Rightarrow> Some (p\<lparr>ps_Stop := Closing, ps_Closed := True\<rparr>)
      | Closing \<Rightarrow> Some (p\<lparr>ps_Stop := Waiting\<rparr>)
      | Waiting \<Rightarrow> if \<forall>x \<in> set (ps_Workers p). x = Left then Some (p\<lparr>ps_Stop := Returned\<rparr>) else None
      | Returned \<Rightarrow> None)"

definition worker_step :: "nat \<Rightarrow> ('a worker \<Rightarrow> 'a pool \<Rightarrow> 'a pool option) \<Rightarrow> 'a pool \<Rightarrow> 'a pool option" where
  "worker_step i f p = (if i < length (ps_Workers p) then f (ps_Workers p ! i) p else None)"

definition receive :: "nat \<Rightarrow> 'a worker \<Rightarrow> 'a pool \<Rightarrow> 'a pool option" where
  "receive i x p =
     (case (x, ps_Queue p) of
        (Idle, t # q) \<Rightarrow> Some (p\<lparr>ps_Queue := q, ps_Workers := (ps_Workers p)[i := Running t]\<rparr>)
      | _ \<Rightarrow> None)"

definition finish :: "nat \<Rightarrow> 'a worker \<Rightarrow> 'a pool \<Rightarrow> 'a pool option" where
  "finish i x p =
     (case x of
        Running t \<Rightarrow> Some (p\<lparr>ps_Workers := (ps_Workers p)[i := Idle], ps_Done := ps_Done p @ [t]\<rparr>)
      | _ \<Rightarrow> None)"

definition leave :: "nat \<Rightarrow> 'a worker \<Rightarrow> 'a pool \<Rightarrow> 'a pool option" where
  "leave i x p =
     (if x = Idle \<and> ps_Closed p \<and> ps_Queue p = [] then Some (p\<lparr>ps_Workers := (ps_Workers p)[i := Left]\<rparr>) else None)"

fun pool_step :: "'a pool_action \<Rightarrow> 'a pool \<Rightarrow> 'a pool option" where
  "pool_step (Begin_Submit t) p = begin_submit t p"
| "pool_step (Continue_Submit i) p = continue_submit i p"
| "pool_step Continue_Stop p = continue_stop p"
| "pool_step (Receive i) p = worker_step i (receive i) p"
| "pool_step (Finish i) p = worker_step i (finish i) p"
| "pool_step (Leave i) p = worker_step i (leave i) p"

fun pool_run :: "'a pool_action list \<Rightarrow> 'a pool \<Rightarrow> 'a pool option" where
  "pool_run [] p = Some p"
| "pool_run (a # as) p = (case pool_step a p of None \<Rightarrow> None | Some q \<Rightarrow> pool_run as q)"

inductive pool_reachable :: "int \<Rightarrow> int \<Rightarrow> 'a pool \<Rightarrow> bool" for c d where
  start: "pool_reachable c d (new_pool c d)"
| step: "pool_reachable c d p \<Longrightarrow> pool_step a p = Some q \<Longrightarrow> pool_reachable c d q"

section \<open>The invariant\<close>

definition worker_task :: "'a worker \<Rightarrow> 'a multiset" where
  "worker_task x = (case x of Running t \<Rightarrow> {#t#} | _ \<Rightarrow> {#})"

definition in_hand :: "'a pool \<Rightarrow> 'a multiset" where
  "in_hand p = mset (ps_Queue p) + (\<Sum>x \<in># mset (ps_Workers p). worker_task x)"

text \<open>
  The flag and the channel follow the phases of \<^verbatim>\<open>Stop\<close>; no call holds the read lock while the write lock is held,
  and a call that is about to send has seen the flag down, so the flag is still down and the channel open; the
  queue is bounded; every accepted task is in exactly one place; a worker leaves only a closed, empty channel.
\<close>

definition lock_inv :: "'a pool \<Rightarrow> bool" where
  "lock_inv p \<longleftrightarrow>
     (ps_Stopped p \<longleftrightarrow> ps_Stop p \<notin> {Not_Stopping, Locked}) \<and>
     (ps_Closed p \<longleftrightarrow> ps_Stop p \<in> {Closing, Waiting, Returned}) \<and>
     (write_locked p \<longrightarrow> ps_Submits p = []) \<and>
     (ps_Stopped p \<longrightarrow> (\<forall>t. Sending t \<notin> set (ps_Submits p))) \<and>
     \<not> ps_Panicked p"

definition task_inv :: "int \<Rightarrow> int \<Rightarrow> 'a pool \<Rightarrow> bool" where
  "task_inv c d p \<longleftrightarrow>
     ps_Depth p = nat (if d < 1 then 64 else d) \<and> length (ps_Workers p) = nat (if c < 1 then 4 else c) \<and>
     length (ps_Queue p) \<le> ps_Depth p \<and>
     mset (ps_Accepted p) = in_hand p + mset (ps_Done p) \<and>
     (Left \<in> set (ps_Workers p) \<longrightarrow> ps_Closed p \<and> ps_Queue p = []) \<and>
     (ps_Stop p = Returned \<longrightarrow> set (ps_Workers p) \<subseteq> {Left})"

definition pool_inv :: "int \<Rightarrow> int \<Rightarrow> 'a pool \<Rightarrow> bool" where
  "pool_inv c d p \<longleftrightarrow> lock_inv p \<and> task_inv c d p"

lemma lock_inv_frame [simp]:
  "lock_inv (p\<lparr>ps_Queue := a\<rparr>) = lock_inv p" "lock_inv (p\<lparr>ps_Workers := b\<rparr>) = lock_inv p"
  "lock_inv (p\<lparr>ps_Accepted := e\<rparr>) = lock_inv p" "lock_inv (p\<lparr>ps_Done := f\<rparr>) = lock_inv p"
  by (simp_all add: lock_inv_def write_locked_def)

lemma task_inv_frame [simp]:
  "task_inv c d (p\<lparr>ps_Submits := a\<rparr>) = task_inv c d p" "task_inv c d (p\<lparr>ps_Stopped := b\<rparr>) = task_inv c d p"
  by (simp_all add: task_inv_def in_hand_def)

lemma set_drop_nth: "x \<in> set (drop_nth i xs) \<Longrightarrow> x \<in> set xs"
  unfolding drop_nth_def by (auto dest: in_set_takeD in_set_dropD)

lemma worker_tasks_update:
  assumes "i < length xs"
  shows "(\<Sum>x \<in># mset (xs[i := y]). worker_task x) + worker_task (xs ! i) =
         (\<Sum>x \<in># mset xs. worker_task x) + worker_task y"
  using assms
  by (simp add: mset_update add.commute add.left_commute)
    (metis (no_types, lifting) add.commute image_mset_add_mset insert_DiffM nth_mem_mset sum_mset.add_mset)

lemma in_set_update: "x \<in> set (xs[i := y]) \<Longrightarrow> x = y \<or> x \<in> set xs"
  using set_update_subset_insert [of xs i y] by auto

text \<open>As long as a worker has not left, the call of \<^verbatim>\<open>Stop\<close> has not returned.\<close>

lemma worker_present:
  assumes "task_inv c d p" "i < length (ps_Workers p)" "ps_Workers p ! i \<noteq> Left"
  shows "ps_Stop p \<noteq> Returned"
proof
  assume "ps_Stop p = Returned"
  with assms(1) have "set (ps_Workers p) \<subseteq> {Left}" by (simp add: task_inv_def)
  with nth_mem [OF assms(2)] assms(3) show False by blast
qed

lemma pool_inv_start: "pool_inv c d (new_pool c d)"
  by (simp add: pool_inv_def lock_inv_def task_inv_def new_pool_def write_locked_def in_hand_def worker_task_def)

lemma lock_inv_sending:
  assumes "lock_inv p" "i < length (ps_Submits p)" "ps_Submits p ! i = Sending t"
  shows "\<not> ps_Stopped p" "\<not> ps_Closed p"
proof -
  from assms(2,3) have "Sending t \<in> set (ps_Submits p)" by (metis nth_mem)
  with assms(1) show "\<not> ps_Stopped p" by (auto simp: lock_inv_def)
  with assms(1) show "\<not> ps_Closed p" by (cases "ps_Stop p") (simp_all add: lock_inv_def)
qed

text \<open>
  The calls that hold the read lock may change as long as one does hold it, or none need to, and no call starts
  to send once the flag is up.
\<close>

lemma lock_inv_submits:
  assumes "lock_inv p" "\<not> write_locked p"
    and "\<And>t. Sending t \<in> set xs \<Longrightarrow> ps_Stopped p \<Longrightarrow> Sending t \<in> set (ps_Submits p)"
  shows "lock_inv (p\<lparr>ps_Submits := xs\<rparr>)"
  using assms unfolding lock_inv_def write_locked_def by simp blast

lemma begin_submit_inv:
  assumes "pool_inv c d p" and "begin_submit t p = Some q"
  shows "pool_inv c d q"
proof -
  from assms(2) have q: "q = p\<lparr>ps_Submits := ps_Submits p @ [Checking t]\<rparr>" "\<not> write_locked p"
    by (simp_all add: begin_submit_def split: if_splits)
  from assms(1) q(2) have "lock_inv q" unfolding q(1) pool_inv_def by (intro lock_inv_submits) auto
  with assms(1) q(1) show ?thesis by (simp add: pool_inv_def)
qed

lemma task_inv_accept:
  assumes "task_inv c d p" "\<not> ps_Closed p" "length (ps_Queue p) < ps_Depth p"
  shows "task_inv c d (p\<lparr>ps_Submits := x, ps_Queue := ps_Queue p @ [t], ps_Accepted := ps_Accepted p @ [t]\<rparr>)"
  using assms unfolding task_inv_def in_hand_def by simp

lemma continue_submit_inv:
  assumes inv: "pool_inv c d p" and step: "continue_submit i p = Some q"
  shows "pool_inv c d q"
proof -
  from step have i: "i < length (ps_Submits p)" by (simp add: continue_submit_def split: if_splits)
  then have free: "\<not> write_locked p" using inv by (auto simp: pool_inv_def lock_inv_def)
  from inv have lock: "lock_inv p" and task: "task_inv c d p" by (simp_all add: pool_inv_def)
  have dropped: "lock_inv (p\<lparr>ps_Submits := drop_nth i (ps_Submits p)\<rparr>)"
    using lock free by (rule lock_inv_submits) (rule set_drop_nth)
  show ?thesis
  proof (cases "ps_Submits p ! i")
    case (Checking t)
    have "lock_inv (p\<lparr>ps_Submits := (ps_Submits p)[i := Sending t]\<rparr>)" if "\<not> ps_Stopped p"
      using lock free by (rule lock_inv_submits) (simp add: that)
    with Checking step i dropped task show ?thesis
      by (auto simp: continue_submit_def pool_inv_def split: if_splits)
  next
    case (Sending t)
    note up = lock_inv_sending [OF lock i Sending]
    with up Sending step i dropped task show ?thesis
      by (auto simp: task_inv_accept continue_submit_def pool_inv_def Let_def split: if_splits)
  qed
qed

lemma continue_stop_inv:
  assumes inv: "pool_inv c d p" and step: "continue_stop p = Some q"
  shows "pool_inv c d q"
proof -
  from inv have lock: "lock_inv p" and task: "task_inv c d p" by (simp_all add: pool_inv_def)
  have "lock_inv q"
    using lock step unfolding lock_inv_def continue_stop_def write_locked_def
    by (cases "ps_Stop p") (auto split: if_splits)
  moreover have "task_inv c d q"
    using task step unfolding task_inv_def continue_stop_def in_hand_def
    by (cases "ps_Stop p") (auto split: if_splits)
  ultimately show ?thesis by (simp add: pool_inv_def)
qed

lemma receive_inv:
  assumes inv: "pool_inv c d p" and i: "i < length (ps_Workers p)" and step: "receive i (ps_Workers p ! i) p = Some q"
  shows "pool_inv c d q"
proof -
  from inv have lock: "lock_inv p" and task: "task_inv c d p" by (simp_all add: pool_inv_def)
  from step obtain t ts where t: "ps_Workers p ! i = Idle" "ps_Queue p = t # ts"
    and q: "q = p\<lparr>ps_Queue := ts, ps_Workers := (ps_Workers p)[i := Running t]\<rparr>"
    by (auto simp: receive_def split: worker.splits list.splits)
  have "in_hand q = in_hand p"
    using worker_tasks_update [OF i, of "Running t"] t by (simp add: in_hand_def q worker_task_def)
  moreover have "Left \<notin> set (ps_Workers p)" using task t by (auto simp: task_inv_def)
  then have "Left \<notin> set (ps_Workers q)"
    using in_set_update [of Left "ps_Workers p" i "Running t"] by (auto simp: q)
  moreover have "ps_Stop p \<noteq> Returned" using worker_present [OF task i] t by simp
  ultimately have "task_inv c d q"
    using task t unfolding task_inv_def by (simp add: q)
  with lock show ?thesis by (simp add: pool_inv_def q)
qed

lemma finish_inv:
  assumes inv: "pool_inv c d p" and i: "i < length (ps_Workers p)" and step: "finish i (ps_Workers p ! i) p = Some q"
  shows "pool_inv c d q"
proof -
  from inv have lock: "lock_inv p" and task: "task_inv c d p" by (simp_all add: pool_inv_def)
  from step obtain t where t: "ps_Workers p ! i = Running t"
    and q: "q = p\<lparr>ps_Workers := (ps_Workers p)[i := Idle], ps_Done := ps_Done p @ [t]\<rparr>"
    by (auto simp: finish_def split: worker.splits)
  have "in_hand p = add_mset t (in_hand q)"
    using worker_tasks_update [OF i, of Idle] t by (simp add: in_hand_def q worker_task_def)
  moreover have "Left \<in> set (ps_Workers q) \<longrightarrow> Left \<in> set (ps_Workers p)"
    using in_set_update [of Left "ps_Workers p" i Idle] by (auto simp: q)
  moreover have "ps_Stop p \<noteq> Returned" using worker_present [OF task i] t by simp
  ultimately have "task_inv c d q"
    using task t unfolding task_inv_def by (auto simp: q)
  with lock show ?thesis by (simp add: pool_inv_def q)
qed

lemma leave_inv:
  assumes inv: "pool_inv c d p" and i: "i < length (ps_Workers p)" and step: "leave i (ps_Workers p ! i) p = Some q"
  shows "pool_inv c d q"
proof -
  from inv have lock: "lock_inv p" and task: "task_inv c d p" by (simp_all add: pool_inv_def)
  from step have t: "ps_Workers p ! i = Idle" "ps_Closed p" "ps_Queue p = []"
    and q: "q = p\<lparr>ps_Workers := (ps_Workers p)[i := Left]\<rparr>"
    by (auto simp: leave_def split: if_splits)
  have "in_hand q = in_hand p"
    using worker_tasks_update [OF i, of Left] t by (simp add: in_hand_def q worker_task_def)
  moreover have "ps_Stop p \<noteq> Returned" using worker_present [OF task i] t by simp
  ultimately have "task_inv c d q"
    using task t unfolding task_inv_def by (simp add: q)
  with lock show ?thesis by (simp add: pool_inv_def q)
qed

lemma pool_step_inv: "pool_inv c d p \<Longrightarrow> pool_step a p = Some q \<Longrightarrow> pool_inv c d q"
  by (cases a)
    (auto simp: worker_step_def split: if_splits
      intro: begin_submit_inv continue_submit_inv continue_stop_inv receive_inv finish_inv leave_inv)

lemma pool_reachable_inv: "pool_reachable c d p \<Longrightarrow> pool_inv c d p"
  by (induction rule: pool_reachable.induct) (auto intro: pool_inv_start pool_step_inv)

section \<open>What the pool promises\<close>

text \<open>
  The specification: a store of tasks of bounded capacity that is open until it is closed, takes a task only
  while it is open and has room, and hands each task out to be done exactly once.
\<close>

record 'a task_store =
  ts_Open :: bool
  ts_Pending :: "'a multiset"
  ts_Done :: "'a multiset"

inductive task_store_step :: "nat \<Rightarrow> 'a task_store \<Rightarrow> 'a task_store \<Rightarrow> bool" for capacity where
  accept: "ts_Open s \<Longrightarrow> size (ts_Pending s) < capacity \<Longrightarrow>
     task_store_step capacity s (s\<lparr>ts_Pending := add_mset t (ts_Pending s)\<rparr>)"
| close: "ts_Open s \<Longrightarrow> task_store_step capacity s (s\<lparr>ts_Open := False\<rparr>)"
| do_task: "t \<in># ts_Pending s \<Longrightarrow>
     task_store_step capacity s (s\<lparr>ts_Pending := ts_Pending s - {#t#}, ts_Done := add_mset t (ts_Done s)\<rparr>)"

definition store_of :: "'a pool \<Rightarrow> 'a task_store" where
  "store_of p = \<lparr>ts_Open = (\<not> ps_Stopped p), ts_Pending = in_hand p, ts_Done = mset (ps_Done p)\<rparr>"

lemma size_worker_tasks: "size (\<Sum>x \<in># mset xs. worker_task x) \<le> length xs"
  by (induction xs) (auto simp: worker_task_def split: worker.splits)

lemma submit_refines:
  assumes inv: "pool_inv c d p" and step: "continue_submit i p = Some q"
  shows "store_of q = store_of p \<or> task_store_step (ps_Depth p + length (ps_Workers p)) (store_of p) (store_of q)"
proof (cases "\<exists>t. i < length (ps_Submits p) \<and> ps_Submits p ! i = Sending t \<and> \<not> ps_Closed p \<and> length (ps_Queue p) < ps_Depth p")
  case False
  with step show ?thesis
    by (auto simp: continue_submit_def store_of_def in_hand_def Let_def split: if_splits submit_call.splits)
next
  case True
  then obtain t where t: "i < length (ps_Submits p)" "ps_Submits p ! i = Sending t" "\<not> ps_Closed p" "length (ps_Queue p) < ps_Depth p"
    by blast
  from inv have "lock_inv p" by (simp add: pool_inv_def)
  with t(1,2) have "\<not> ps_Stopped p" by (simp add: lock_inv_sending(1))
  moreover from t(4) size_worker_tasks [of "ps_Workers p"]
  have "size (in_hand p) < ps_Depth p + length (ps_Workers p)" by (simp add: in_hand_def)
  moreover from t step have "store_of q = (store_of p)\<lparr>ts_Pending := add_mset t (ts_Pending (store_of p))\<rparr>"
    by (auto simp: continue_submit_def store_of_def in_hand_def Let_def)
  moreover have "ts_Open (store_of p) = (\<not> ps_Stopped p)" "ts_Pending (store_of p) = in_hand p"
    by (simp_all add: store_of_def)
  ultimately show ?thesis by (metis task_store_step.accept)
qed

lemma finish_refines:
  assumes i: "i < length (ps_Workers p)" and step: "finish i (ps_Workers p ! i) p = Some q"
  shows "task_store_step k (store_of p) (store_of q)"
proof -
  from step obtain t where t: "ps_Workers p ! i = Running t"
    and q: "q = p\<lparr>ps_Workers := (ps_Workers p)[i := Idle], ps_Done := ps_Done p @ [t]\<rparr>"
    by (auto simp: finish_def split: worker.splits)
  have "in_hand p = add_mset t (in_hand q)"
    using worker_tasks_update [OF i, of Idle] t by (simp add: in_hand_def q worker_task_def)
  then have "store_of q = (store_of p)\<lparr>ts_Pending := ts_Pending (store_of p) - {#t#}, ts_Done := add_mset t (ts_Done (store_of p))\<rparr>"
    "t \<in># ts_Pending (store_of p)" by (simp_all add: store_of_def q)
  then show ?thesis by (simp add: task_store_step.do_task)
qed

lemma receive_leave_stutter:
  assumes i: "i < length (ps_Workers p)"
  shows "receive i (ps_Workers p ! i) p = Some q \<Longrightarrow> store_of q = store_of p"
    and "leave i (ps_Workers p ! i) p = Some q \<Longrightarrow> store_of q = store_of p"
  using worker_tasks_update [OF i]
  by (auto simp: receive_def leave_def store_of_def in_hand_def worker_task_def
      split: worker.splits list.splits if_splits)

lemma stop_refines:
  assumes "pool_inv c d p" and step: "continue_stop p = Some q"
  shows "store_of q = store_of p \<or> task_store_step k (store_of p) (store_of q)"
proof (cases "ps_Stop p = Locked")
  case True
  with assms(1) have "\<not> ps_Stopped p" by (simp add: pool_inv_def lock_inv_def)
  moreover from True step have "store_of q = (store_of p)\<lparr>ts_Open := False\<rparr>"
    by (auto simp: continue_stop_def store_of_def in_hand_def)
  moreover have "ts_Open (store_of p) = (\<not> ps_Stopped p)" by (simp add: store_of_def)
  ultimately show ?thesis by (simp add: task_store_step.close)
next
  case False
  with step have "store_of q = store_of p"
    unfolding continue_stop_def store_of_def in_hand_def
    by (cases "ps_Stop p") (auto split: if_splits)
  then show ?thesis ..
qed

text \<open>
  C39: For every interleaving of callers, workers and the stopping goroutine, each step of the pool is a step of the
  bounded task store, or invisible to it: a task is taken only while the pool is open and fewer tasks are in hand
  than the queue and the workers hold, each accepted task is done once, and no send meets a closed channel.
\<close>

theorem auto_reply_pool_refines:
  assumes "pool_reachable c d p" and "pool_step a p = Some q"
  shows "\<not> ps_Panicked q \<and>
    (store_of q = store_of p \<or> task_store_step (ps_Depth p + length (ps_Workers p)) (store_of p) (store_of q))"
proof
  have inv: "pool_inv c d p" using assms(1) by (rule pool_reachable_inv)
  then have "pool_inv c d q" using assms(2) by (rule pool_step_inv)
  then show "\<not> ps_Panicked q" by (simp add: pool_inv_def lock_inv_def)
  show "store_of q = store_of p \<or> task_store_step (ps_Depth p + length (ps_Workers p)) (store_of p) (store_of q)"
  proof (cases a)
    case (Begin_Submit t)
    with assms(2) show ?thesis by (auto simp: begin_submit_def store_of_def in_hand_def split: if_splits)
  next
    case (Continue_Submit i)
    with assms(2) show ?thesis by (simp add: submit_refines [OF inv])
  next
    case Continue_Stop
    with assms(2) show ?thesis by (simp add: stop_refines [OF inv])
  next
    case (Receive i)
    with assms(2) show ?thesis by (auto simp: worker_step_def receive_leave_stutter split: if_splits)
  next
    case (Finish i)
    with assms(2) show ?thesis by (auto simp: worker_step_def finish_refines split: if_splits)
  next
    case (Leave i)
    with assms(2) show ?thesis by (auto simp: worker_step_def receive_leave_stutter split: if_splits)
  qed
qed

lemma pool_reachable_run: "pool_reachable c d p \<Longrightarrow> pool_run as p = Some q \<Longrightarrow> pool_reachable c d q"
  by (induction as arbitrary: p) (auto split: option.splits intro: pool_reachable.step)

theorem auto_reply_pool_refines_witness:
  "\<exists>p q. pool_run [Begin_Submit (7::nat), Continue_Submit 0] (new_pool 2 1) = Some p \<and>
     pool_step (Continue_Submit 0) p = Some q \<and> task_store_step 3 (store_of p) (store_of q)"
proof -
  let ?p = "the (pool_run [Begin_Submit (7::nat), Continue_Submit 0] (new_pool 2 1))"
  let ?q = "the (pool_step (Continue_Submit 0) ?p)"
  have p: "pool_run [Begin_Submit (7::nat), Continue_Submit 0] (new_pool 2 1) = Some ?p"
    and q: "pool_step (Continue_Submit 0) ?p = Some ?q"
    by code_simp+
  have "store_of ?q \<noteq> store_of ?p"
    by (simp add: store_of_def in_hand_def new_pool_def begin_submit_def continue_submit_def write_locked_def
        worker_task_def drop_nth_def Let_def)
  moreover have "ps_Depth ?p + length (ps_Workers ?p) = 3" by code_simp
  ultimately show ?thesis
    using p q auto_reply_pool_refines [OF pool_reachable_run [OF pool_reachable.start p] q] by auto
qed

section \<open>Shutdown\<close>

fun worker_action :: "'a pool_action \<Rightarrow> bool" where
  "worker_action (Receive i) = True"
| "worker_action (Finish i) = True"
| "worker_action (Leave i) = True"
| "worker_action _ = False"

definition worker_weight :: "'a worker \<Rightarrow> nat" where
  "worker_weight x = (case x of Idle \<Rightarrow> 1 | Running t \<Rightarrow> 2 | Left \<Rightarrow> 0)"

text \<open>The steps the workers can still take: a queued task costs its receipt, its run and the worker's return.\<close>

definition work_left :: "'a pool \<Rightarrow> nat" where
  "work_left p = 3 * length (ps_Queue p) + sum_list (map worker_weight (ps_Workers p))"

lemma worker_weight_update:
  assumes "i < length xs"
  shows "sum_list (map worker_weight (xs[i := y])) + worker_weight (xs ! i) =
    sum_list (map worker_weight xs) + worker_weight y"
  using assms
proof (induction xs arbitrary: i)
  case (Cons x xs)
  then show ?case by (cases i) auto
qed simp

lemma worker_progress:
  assumes i: "i < length (ps_Workers p)"
  shows "receive i (ps_Workers p ! i) p = Some q \<Longrightarrow> work_left q < work_left p"
    and "finish i (ps_Workers p ! i) p = Some q \<Longrightarrow> work_left q < work_left p"
    and "leave i (ps_Workers p ! i) p = Some q \<Longrightarrow> work_left q < work_left p"
proof -
  note w = worker_weight_update [OF i] and defs = work_left_def worker_weight_def
  show "work_left q < work_left p" if "receive i (ps_Workers p ! i) p = Some q"
    using that w [of "Running (hd (ps_Queue p))"]
    by (auto simp: receive_def defs split: worker.splits list.splits)
  show "work_left q < work_left p" if "finish i (ps_Workers p ! i) p = Some q"
    using that w [of Idle] by (auto simp: finish_def defs split: worker.splits)
  show "work_left q < work_left p" if "leave i (ps_Workers p ! i) p = Some q"
    using that w [of Left] by (auto simp: leave_def defs split: if_splits)
qed

lemma worker_keeps:
  "receive i x p = Some q \<Longrightarrow> ps_Closed q = ps_Closed p \<and> ps_Accepted q = ps_Accepted p"
  "finish i x p = Some q \<Longrightarrow> ps_Closed q = ps_Closed p \<and> ps_Accepted q = ps_Accepted p"
  "leave i x p = Some q \<Longrightarrow> ps_Closed q = ps_Closed p \<and> ps_Accepted q = ps_Accepted p"
  by (auto simp: receive_def finish_def leave_def split: worker.splits list.splits if_splits)

lemma worker_action_progress:
  assumes "pool_step a p = Some q" "worker_action a"
  shows "work_left q < work_left p" "ps_Closed q = ps_Closed p" "ps_Accepted q = ps_Accepted p"
  using assms
  by (cases a; simp add: worker_step_def worker_progress worker_keeps split: if_splits)+

lemma worker_enabled:
  assumes "ps_Closed p" "i < length (ps_Workers p)" "ps_Workers p ! i \<noteq> Left"
  shows "\<exists>a. worker_action a \<and> pool_step a p \<noteq> None"
proof (cases "ps_Workers p ! i")
  case Idle
  show ?thesis
  proof (cases "ps_Queue p")
    case Nil
    with assms Idle have "pool_step (Leave i) p \<noteq> None" by (simp add: worker_step_def leave_def)
    then show ?thesis using worker_action.simps(3) by blast
  next
    case (Cons t ts)
    with assms Idle have "pool_step (Receive i) p \<noteq> None" by (simp add: worker_step_def receive_def)
    then show ?thesis using worker_action.simps(1) by blast
  qed
next
  case (Running t)
  with assms have "pool_step (Finish i) p \<noteq> None" by (simp add: worker_step_def finish_def)
  then show ?thesis using worker_action.simps(2) by blast
next
  case Left
  with assms show ?thesis by simp
qed

lemma drained:
  assumes inv: "pool_inv c d p" and all: "set (ps_Workers p) \<subseteq> {Left}"
  shows "work_left p = 0" "mset (ps_Done p) = mset (ps_Accepted p)"
proof -
  from inv have task: "task_inv c d p" by (simp add: pool_inv_def)
  have rep: "ps_Workers p = replicate (length (ps_Workers p)) Left"
    using all by (simp add: replicate_length_same subset_iff)
  have "ps_Workers p \<noteq> []" using task by (auto simp: task_inv_def split: if_splits)
  with all have "Left \<in> set (ps_Workers p)" by (cases "ps_Workers p") auto
  with task have queue: "ps_Queue p = []" by (simp add: task_inv_def)
  have none: "(\<Sum>x \<in># mset (ps_Workers p). worker_task x) = {#}"
    by (subst rep) (simp add: worker_task_def)
  show "work_left p = 0"
    unfolding work_left_def queue by (subst rep) (simp add: worker_weight_def sum_list_replicate)
  from task none queue show "mset (ps_Done p) = mset (ps_Accepted p)"
    by (simp add: task_inv_def in_hand_def)
qed

lemma worker_run_progress:
  assumes "pool_run as p = Some q" "list_all worker_action as"
  shows "length as + work_left q \<le> work_left p \<and> ps_Closed q = ps_Closed p \<and> ps_Accepted q = ps_Accepted p"
  using assms
proof (induction as arbitrary: p)
  case (Cons a as)
  then obtain r where r: "pool_step a p = Some r" "pool_run as r = Some q" by (auto split: option.splits)
  with Cons worker_action_progress [OF r(1)] show ?case by fastforce
qed simp

text \<open>
  C40: Once the channel is closed the pool drains, however the workers are scheduled: they can take at most
  \<open>work_left\<close> more steps, one of them can always take one as long as not all have left, and when all have left
  (which is when \<^verbatim>\<open>Stop\<close> returns) every task whose submission was accepted has been done, once.
\<close>

theorem auto_reply_pool_drains:
  assumes "pool_reachable c d p" and "ps_Closed p"
    and "pool_run as p = Some q" and "list_all worker_action as"
  shows "length as + work_left q \<le> work_left p \<and>
    ((set (ps_Workers q) \<subseteq> {Left} \<and> work_left q = 0 \<and> mset (ps_Done q) = mset (ps_Accepted p)) \<or>
     (\<exists>a. worker_action a \<and> pool_step a q \<noteq> None))"
proof -
  have inv: "pool_inv c d q"
    using pool_reachable_run [OF assms(1,3)] by (rule pool_reachable_inv)
  note run = worker_run_progress [OF assms(3,4)]
  show ?thesis
  proof (cases "set (ps_Workers q) \<subseteq> {Left}")
    case True
    with run drained [OF inv True] show ?thesis by simp
  next
    case False
    then obtain x where "x \<in> set (ps_Workers q)" "x \<noteq> Left" by blast
    then obtain i where "i < length (ps_Workers q)" "ps_Workers q ! i \<noteq> Left" by (metis in_set_conv_nth)
    with run assms(2) worker_enabled [of q i] show ?thesis by simp
  qed
qed

theorem auto_reply_pool_drains_witness:
  "\<exists>p q. pool_run [Begin_Submit (7::nat), Begin_Submit 8, Continue_Submit 0, Continue_Submit 0, Continue_Submit 0,
       Continue_Submit 0, Continue_Stop, Continue_Stop, Continue_Stop] (new_pool 1 1) = Some p \<and>
     pool_run [Receive 0, Finish 0, Leave 0] p = Some q \<and> mset (ps_Done q) = mset (ps_Accepted p) \<and> ps_Done q = [7]"
proof -
  let ?as = "[Begin_Submit (7::nat), Begin_Submit 8, Continue_Submit 0, Continue_Submit 0, Continue_Submit 0,
       Continue_Submit 0, Continue_Stop, Continue_Stop, Continue_Stop]"
  let ?p = "the (pool_run ?as (new_pool 1 1))"
  let ?bs = "[Receive 0, Finish 0, Leave 0] :: nat pool_action list"
  let ?q = "the (pool_run ?bs ?p)"
  have p: "pool_run ?as (new_pool 1 1) = Some ?p" and c: "ps_Closed ?p"
    and q: "pool_run ?bs ?p = Some ?q" and w: "list_all worker_action ?bs"
    and d: "ps_Done ?q = [7]" and l: "ps_Workers ?q = [Left]"
    by code_simp+
  have stuck: "\<not> (\<exists>a. worker_action a \<and> pool_step a ?q \<noteq> None)"
  proof
    assume "\<exists>a. worker_action a \<and> pool_step a ?q \<noteq> None"
    then obtain a where "worker_action a" "pool_step a ?q \<noteq> None" by blast
    with l show False
      by (cases a) (auto simp: worker_step_def receive_def finish_def leave_def nth_Cons' simp del: pool_run.simps split: if_splits)
  qed
  from auto_reply_pool_drains [OF pool_reachable_run [OF pool_reachable.start p] c q w] stuck
  have "mset (ps_Done ?q) = mset (ps_Accepted ?p)" by blast
  with p q d show ?thesis by blast
qed

end
