(* ===== verification/Team_Store.thy ===== *)
theory Team_Store
  imports Postgres Observed_Runs Message_Content
begin

text \<open>
  The store of a business's team: the tables \<^verbatim>\<open>business_memberships\<close>, \<^verbatim>\<open>team_invitations\<close> and \<^verbatim>\<open>principals\<close>
  of \<^verbatim>\<open>schema.sql\<close> (with the columns and checks that migration 72 adds) and \<^verbatim>\<open>postgres/team_repository.go\<close> with its
  scanners, on the records of \<^verbatim>\<open>ports/team_repositories.go\<close>. A call runs alone: the transactions lock the rows and the
  seats of the business they read. A column of permissions is the list of strings its JSON array holds. An
  identifier read from a row is canonical, so that its cast back to \<^verbatim>\<open>uuid\<close> is the identity.
\<close>

section \<open>Data\<close>

record membership =
  mb_BusinessID :: string
  mb_PrincipalID :: string
  mb_Role :: string
  mb_Permissions :: "string list"
  mb_Status :: string
  mb_CreatedAt :: time
  mb_UpdatedAt :: time

record team_member_record = membership +
  mb_Email :: string
  mb_DisplayName :: string

record team_invitation =
  ti_ID :: string
  ti_BusinessID :: string
  ti_Email :: string
  ti_DisplayName :: string
  ti_Role :: string
  ti_Permissions :: "string list"
  ti_TokenHash :: string
  ti_Status :: string
  ti_InvitedBy :: string
  ti_AcceptedBy :: "string option"
  ti_ExpiresAt :: time
  ti_AcceptedAt :: "time option"
  ti_RevokedAt :: "time option"
  ti_CreatedAt :: time
  ti_UpdatedAt :: time

record team_invitation_record = team_invitation +
  ti_BusinessName :: string
  ti_AccountState :: string

record principal =
  pr_ID :: string
  pr_Email :: string
  pr_DisplayName :: string
  pr_PasswordHash :: string
  pr_Status :: string
  pr_CreatedAt :: time
  pr_UpdatedAt :: time

text \<open>Of a business only what the team store reads.\<close>

record team_business =
  bz_ID :: string
  bz_Name :: string
  bz_Status :: string

record team_db =
  tb_Members :: "membership list"
  tb_Invitations :: "team_invitation list"
  tb_Principals :: "principal list"
  tb_Businesses :: "team_business list"

record 'a page =
  pp_Items :: "'a list"
  pp_NextCursor :: string
  pp_HasMore :: bool

record invitation_create =
  nc_ID :: string
  nc_BusinessID :: string
  nc_Email :: string
  nc_DisplayName :: string
  nc_Role :: string
  nc_Permissions :: "string list"
  nc_TokenHash :: string
  nc_InvitedBy :: string
  nc_ExpiresAt :: time
  nc_CreatedAt :: time
  nc_UpdatedAt :: time

record invitation_acceptance =
  na_TokenHash :: string
  na_PrincipalID :: string
  na_AcceptedAt :: time

record new_account_acceptance = invitation_acceptance +
  na_DisplayName :: string
  na_PasswordHash :: string

record invitation_revocation =
  nr_BusinessID :: string
  nr_InvitationID :: string
  nr_RevokedAt :: time

record invitation_resend =
  ns_BusinessID :: string
  ns_InvitationID :: string
  ns_NewInvitationID :: string
  ns_TokenHash :: string
  ns_InvitedBy :: string
  ns_ExpiresAt :: time
  ns_CreatedAt :: time

record member_role_change =
  mc_BusinessID :: string
  mc_PrincipalID :: string
  mc_Role :: string
  mc_UpdatedAt :: time

record member_access_change = member_role_change +
  mc_Permissions :: "string list"

record member_revocation =
  mv_BusinessID :: string
  mv_PrincipalID :: string
  mv_RevokedAt :: time

text \<open>
  What a call meets: the database's environment, the transaction's, a failure of the \<open>n\<close>-th statement of the call,
  the database's \<^verbatim>\<open>lower\<close>, its test of the format of an address and its order of texts, and the seats that the
  active subscription of a business grants at an instant. \<open>te_Unset\<close> is that the repository has no adapter.
\<close>

record team_env =
  te_Pg :: pg_env
  te_Tx :: tx_env
  te_Unset :: bool
  te_Fault :: "nat \<Rightarrow> db_fault option"
  te_Lower :: "string \<Rightarrow> string"
  te_EmailFormat :: "string \<Rightarrow> bool"
  te_TextLess :: "string \<Rightarrow> string \<Rightarrow> bool"
  te_SeatLimit :: "string \<Rightarrow> time \<Rightarrow> int option"

type_synonym 'a team_run = "(team_db, 'a) run"

section \<open>Statements\<close>

definition wired :: "team_env \<Rightarrow> 'a team_run \<Rightarrow> 'a team_run" where
  "wired env m db = (if te_Unset env then (Inl err_pool_closed, db) else m db)"

definition store_write :: "team_env \<Rightarrow> nat \<Rightarrow> (team_db \<Rightarrow> ('a \<times> team_db) result) \<Rightarrow> 'a team_run" where
  "store_write env n stmt = faulty_write (te_Pg env) (te_Fault env n) stmt"

definition store_read :: "team_env \<Rightarrow> nat \<Rightarrow> (team_db \<Rightarrow> 'a result) \<Rightarrow> 'a team_run" where
  "store_read env n query = faulty_read (te_Pg env) (te_Fault env n) query"

text \<open>The errors of \<^verbatim>\<open>scanTeamMember\<close> and \<^verbatim>\<open>scanTeamInvitation\<close>: any failure but a missing row is invalid input.\<close>

definition scan_team_member :: "'a team_run \<Rightarrow> 'a team_run" where
  "scan_team_member m = on_error (classify_repository_get_error ''team.member'') m"

definition scan_team_invitation :: "'a team_run \<Rightarrow> 'a team_run" where
  "scan_team_invitation m = on_error (classify_repository_get_error ''team.invitation'') m"

definition team_repository_write_error :: "string \<Rightarrow> go_error \<Rightarrow> go_error" where
  "team_repository_write_error operation e =
     (if repository_kind e \<noteq> None then e else classify_repository_write_error operation e)"

abbreviation stamp :: "team_env \<Rightarrow> time \<Rightarrow> time" where
  "stamp env t \<equiv> pg_ts (te_Pg env) t"

definition team_roles :: "string list" where
  "team_roles = [''owner'', ''admin'', ''manager'', ''agent'', ''analyst'', ''viewer'']"

definition invitation_checks :: "team_env \<Rightarrow> team_invitation \<Rightarrow> bool" where
  "invitation_checks env i \<longleftrightarrow>
     (ti_Status i = ''accepted'' \<longleftrightarrow> ti_AcceptedBy i \<noteq> None \<and> ti_AcceptedAt i \<noteq> None) \<and>
     te_EmailFormat env (ti_Email i) \<and> sql_nonblank (ti_Email i) \<and> sql_nonblank (ti_DisplayName i) \<and>
     ti_CreatedAt i < ti_ExpiresAt i \<and> (ti_Status i = ''revoked'' \<longleftrightarrow> ti_RevokedAt i \<noteq> None) \<and>
     ti_Role i \<in> set team_roles \<and> ti_Role i \<noteq> ''owner'' \<and>
     ti_Status i \<in> {''pending'', ''accepted'', ''revoked'', ''expired''}"

definition invitation_violated :: "team_env \<Rightarrow> team_db \<Rightarrow> team_invitation \<Rightarrow> string option" where
  "invitation_violated env db i =
     (if \<not> invitation_checks env i then Some check_violation
      else if \<exists>x \<in> set (tb_Invitations db). ti_ID x = ti_ID i \<or> ti_TokenHash x = ti_TokenHash i \<or>
                (ti_Status x = ''pending'' \<and> ti_Status i = ''pending'' \<and> ti_BusinessID x = ti_BusinessID i \<and>
                 te_Lower env (ti_Email x) = te_Lower env (ti_Email i))
      then Some unique_violation
      else if \<not> ((\<exists>p \<in> set (tb_Principals db). pr_ID p = ti_InvitedBy i) \<and>
                 (\<exists>b \<in> set (tb_Businesses db). bz_ID b = ti_BusinessID i))
      then Some foreign_key_violation else None)"

definition insert_invitation :: "team_env \<Rightarrow> team_invitation \<Rightarrow> team_db \<Rightarrow> (team_invitation \<times> team_db) result" where
  "insert_invitation env i db =
     (case invitation_violated env db i of
        Some code \<Rightarrow> Inl (PgError code)
      | None \<Rightarrow> Inr (i, db\<lparr>tb_Invitations := tb_Invitations db @ [i]\<rparr>))"

definition business_active :: "team_db \<Rightarrow> string \<Rightarrow> bool" where
  "business_active db b \<longleftrightarrow> (\<exists>x \<in> set (tb_Businesses db). bz_ID x = b \<and> bz_Status x = ''active'')"

definition set_expired :: "team_env \<Rightarrow> time \<Rightarrow> team_invitation \<Rightarrow> team_invitation" where
  "set_expired env now i = i\<lparr>ti_Status := ''expired'', ti_UpdatedAt := stamp env now\<rparr>"

definition expire_due :: "team_env \<Rightarrow> (team_invitation \<Rightarrow> bool) \<Rightarrow> time \<Rightarrow> team_db \<Rightarrow> (unit \<times> team_db) result" where
  "expire_due env p now db =
     (let due = (\<lambda>i. p i \<and> ti_Status i = ''pending'' \<and> ti_ExpiresAt i \<le> stamp env now) in
      if \<exists>i \<in> set (tb_Invitations db). due i \<and> \<not> invitation_checks env (set_expired env now i)
      then Inl (PgError check_violation)
      else Inr ((), db\<lparr>tb_Invitations := update_where due (set_expired env now) (tb_Invitations db)\<rparr>))"

definition member_record :: "team_db \<Rightarrow> membership \<Rightarrow> team_member_record result" where
  "member_record db m =
     (case find (\<lambda>p. pr_ID p = mb_PrincipalID m) (tb_Principals db) of
        None \<Rightarrow> Inl ErrNoRows
      | Some p \<Rightarrow> Inr (membership.extend m (team_member_record.fields (pr_Email p) (pr_DisplayName p))))"

section \<open>Queries\<close>

definition encode_team_cursor :: "string \<Rightarrow> string" where
  "encode_team_cursor i = b64_encode i"

definition decode_team_cursor :: "string \<Rightarrow> string result" where
  "decode_team_cursor cursor =
     (if cursor = '''' then Inr ''''
      else (case b64_decode cursor of
              Inl e \<Rightarrow> Inl (RepositoryError ''team.list_members'' RepositoryInvalid e)
            | Inr v \<Rightarrow> Inr v))"

definition page_limit :: "int \<Rightarrow> int" where
  "page_limit limit = (if limit \<le> 0 \<or> limit > 100 then 50 else limit)"

definition page_of :: "int \<Rightarrow> ('a \<Rightarrow> string) \<Rightarrow> 'a list \<Rightarrow> 'a page" where
  "page_of limit key items =
     (if int (length items) > limit
      then let shown = take (nat limit) items
           in \<lparr>pp_Items = shown, pp_NextCursor = encode_team_cursor (key (last shown)), pp_HasMore = True\<rparr>
      else \<lparr>pp_Items = items, pp_NextCursor = '''', pp_HasMore = False\<rparr>)"

text \<open>\<^verbatim>\<open>WHERE business_id = b AND key::text > after ORDER BY key LIMIT n\<close>.\<close>

definition next_rows :: "team_env \<Rightarrow> ('r \<Rightarrow> string) \<Rightarrow> ('r \<Rightarrow> string) \<Rightarrow> string \<Rightarrow> string \<Rightarrow> int \<Rightarrow> 'r list \<Rightarrow> 'r list" where
  "next_rows env business key b after n rows =
     take (nat n) (sort_key key (filter (\<lambda>r. business r = b \<and> te_TextLess env after (key r)) rows))"

definition list_members :: "team_env \<Rightarrow> string \<Rightarrow> int \<Rightarrow> string \<Rightarrow> team_member_record page team_run" where
  "list_members env businessID limit0 cursor =
     wired env
       (case decode_team_cursor cursor of
          Inl e \<Rightarrow> run_fail e
        | Inr after \<Rightarrow> on_executor (te_Pg env)
            (let limit = page_limit limit0 in
             run_bind (on_error (RepositoryError ''team.list_members'' RepositoryInvalid)
                 (store_read env 0 (\<lambda>db. with_uuid (te_Pg env) businessID (\<lambda>b.
                    Inr (List.map_filter (\<lambda>m. case member_record db m of Inl _ \<Rightarrow> None | Inr r \<Rightarrow> Some r)
                           (next_rows env mb_BusinessID mb_PrincipalID b after (limit + 1) (tb_Members db)))))))
               (\<lambda>items. run_return (page_of limit mb_PrincipalID items))))"

definition list_invitations :: "team_env \<Rightarrow> string \<Rightarrow> int \<Rightarrow> string \<Rightarrow> time \<Rightarrow> team_invitation page team_run" where
  "list_invitations env businessID limit0 cursor now =
     wired env
       (case decode_team_cursor cursor of
          Inl e \<Rightarrow> run_fail e
        | Inr after \<Rightarrow> on_executor (te_Pg env)
            (let limit = page_limit limit0 in
             run_bind (on_error (classify_repository_write_error ''team.expire_invitations'')
                 (store_write env 0 (\<lambda>db. with_uuid (te_Pg env) businessID (\<lambda>b.
                    expire_due env (\<lambda>i. ti_BusinessID i = b) now db))))
               (\<lambda>_. run_bind (on_error (classify_repository_write_error ''team.list_invitations'')
                   (store_read env 1 (\<lambda>db. with_uuid (te_Pg env) businessID (\<lambda>b.
                      Inr (next_rows env ti_BusinessID ti_ID b after (limit + 1) (tb_Invitations db))))))
                 (\<lambda>items. run_return (page_of limit ti_ID items)))))"

definition resolve_active_member :: "team_env \<Rightarrow> string \<Rightarrow> string \<Rightarrow> team_member_record team_run" where
  "resolve_active_member env businessID principalID =
     wired env (on_executor (te_Pg env) (scan_team_member (store_read env 0 (\<lambda>db.
       with_uuid (te_Pg env) businessID (\<lambda>b. with_uuid (te_Pg env) principalID (\<lambda>p.
         case find (\<lambda>m. mb_BusinessID m = b \<and> mb_PrincipalID m = p \<and> mb_Status m = ''active'' \<and>
                        (\<exists>x \<in> set (tb_Principals db). pr_ID x = p \<and> pr_Status x = ''active'')) (tb_Members db) of
           None \<Rightarrow> Inl ErrNoRows
         | Some m \<Rightarrow> member_record db m))))))"

section \<open>Invitations\<close>

definition new_invitation ::
  "team_env \<Rightarrow> string \<Rightarrow> string \<Rightarrow> string \<Rightarrow> string \<Rightarrow> string \<Rightarrow> string list \<Rightarrow> string \<Rightarrow> string \<Rightarrow> time \<Rightarrow> time \<Rightarrow>
   team_invitation" where
  "new_invitation env i b email name role permissions hash inviter expires created =
     \<lparr>ti_ID = i, ti_BusinessID = b, ti_Email = te_Lower env email, ti_DisplayName = name, ti_Role = role,
      ti_Permissions = permissions, ti_TokenHash = hash, ti_Status = ''pending'', ti_InvitedBy = inviter,
      ti_AcceptedBy = None, ti_ExpiresAt = stamp env expires, ti_AcceptedAt = None, ti_RevokedAt = None,
      ti_CreatedAt = stamp env created, ti_UpdatedAt = stamp env created\<rparr>"

definition create_invitation :: "team_env \<Rightarrow> invitation_create \<Rightarrow> team_invitation team_run" where
  "create_invitation env c =
     wired env (on_error (team_repository_write_error ''team.create_invitation'')
       (within (te_Tx env) (on_executor (te_Pg env)
         (run_bind (on_error (classify_repository_write_error ''team.expire_invitation'')
             (store_write env 0 (\<lambda>db. with_uuid (te_Pg env) (nc_BusinessID c) (\<lambda>b.
                expire_due env (\<lambda>i. ti_BusinessID i = b \<and> te_Lower env (ti_Email i) = te_Lower env (nc_Email c))
                  (nc_CreatedAt c) db))))
           (\<lambda>_. scan_team_invitation (store_write env 1 (\<lambda>db.
              with_uuid (te_Pg env) (nc_ID c) (\<lambda>i. with_uuid (te_Pg env) (nc_BusinessID c) (\<lambda>b.
                with_uuid (te_Pg env) (nc_InvitedBy c) (\<lambda>inviter.
                  if \<not> business_active db b then Inl ErrNoRows
                  else insert_invitation env
                         (new_invitation env i b (nc_Email c) (nc_DisplayName c) (nc_Role c) (nc_Permissions c)
                            (nc_TokenHash c) inviter (nc_ExpiresAt c) (nc_CreatedAt c)) db))))))))))"

definition invitation_metadata :: "team_env \<Rightarrow> team_db \<Rightarrow> team_invitation \<Rightarrow> team_invitation_record result" where
  "invitation_metadata env db i =
     (case find (\<lambda>b. bz_ID b = ti_BusinessID i) (tb_Businesses db) of
        None \<Rightarrow> Inl ErrNoRows
      | Some b \<Rightarrow> Inr (team_invitation.extend i (team_invitation_record.fields (bz_Name b)
          (if \<exists>p \<in> set (tb_Principals db). te_Lower env (pr_Email p) = te_Lower env (ti_Email i)
           then ''existing'' else ''new''))))"

definition inspect_invitation :: "team_env \<Rightarrow> string \<Rightarrow> time \<Rightarrow> team_invitation_record team_run" where
  "inspect_invitation env tokenHash now =
     wired env (on_executor (te_Pg env)
       (run_bind (on_error (classify_repository_write_error ''team.inspect_expire'')
           (store_write env 0 (expire_due env (\<lambda>i. ti_TokenHash i = tokenHash) now)))
         (\<lambda>_. scan_team_invitation (store_read env 1 (\<lambda>db.
            case find (\<lambda>i. ti_TokenHash i = tokenHash) (tb_Invitations db) of
              None \<Rightarrow> Inl ErrNoRows
            | Some i \<Rightarrow> invitation_metadata env db i)))))"

text \<open>
  The seats in use are those of the other active members; the lock on the business's seats lasts to the end of
  the transaction.
\<close>

definition other_seats :: "team_db \<Rightarrow> string \<Rightarrow> string \<Rightarrow> nat" where
  "other_seats db b p =
     length (filter (\<lambda>m. mb_BusinessID m = b \<and> mb_Status m = ''active'' \<and> mb_PrincipalID m \<noteq> p) (tb_Members db))"

definition seat_error :: "repo_kind \<Rightarrow> go_error \<Rightarrow> go_error" where
  "seat_error kind e = RepositoryError ''team.seat_entitlement'' kind e"

definition ensure_seat_available :: "team_env \<Rightarrow> nat \<Rightarrow> string \<Rightarrow> string \<Rightarrow> time \<Rightarrow> unit team_run" where
  "ensure_seat_available env n businessID principalID now =
     run_bind (on_error (RepositoryError ''team.seat_entitlement.lock'' RepositoryInvalid)
         (store_read env n (\<lambda>db. Inr ())))
     (\<lambda>_. run_bind (on_error (seat_error RepositoryInvalid) (store_read env (n + 1) (\<lambda>db.
            Inr (te_SeatLimit env businessID (stamp env now)))))
     (\<lambda>limit. case limit of
        None \<Rightarrow> run_fail (seat_error RepositoryConflict (PlainError ''an active subscription is required to add a team seat''))
      | Some seatLimit \<Rightarrow>
          run_bind (on_error (seat_error RepositoryInvalid) (store_read env (n + 2) (\<lambda>db.
              with_uuid (te_Pg env) principalID (\<lambda>p. Inr (int (other_seats db businessID p))))))
          (\<lambda>activeSeats. if activeSeats \<ge> seatLimit
             then run_fail (seat_error RepositoryConflict (PlainError ''active seat limit has been reached''))
             else run_return ())))"

definition upsert_membership :: "string \<Rightarrow> string \<Rightarrow> string \<Rightarrow> string list \<Rightarrow> time \<Rightarrow> membership list \<Rightarrow> membership list" where
  "upsert_membership b p role permissions at ms =
     (if \<exists>m \<in> set ms. mb_BusinessID m = b \<and> mb_PrincipalID m = p
      then update_where (\<lambda>m. mb_BusinessID m = b \<and> mb_PrincipalID m = p)
             (\<lambda>m. m\<lparr>mb_Role := role, mb_Permissions := permissions, mb_Status := ''active'', mb_UpdatedAt := at\<rparr>) ms
      else ms @ [\<lparr>mb_BusinessID = b, mb_PrincipalID = p, mb_Role = role, mb_Permissions = permissions,
                  mb_Status = ''active'', mb_CreatedAt = at, mb_UpdatedAt = at\<rparr>])"

definition set_joined :: "string \<Rightarrow> time \<Rightarrow> team_invitation \<Rightarrow> team_invitation" where
  "set_joined p at i = i\<lparr>ti_Status := ''accepted'', ti_AcceptedBy := Some p, ti_AcceptedAt := Some at, ti_UpdatedAt := at\<rparr>"

text \<open>The statement of \<^verbatim>\<open>AcceptInvitation\<close> that accepts the invitation and writes the membership.\<close>

definition may_accept :: "team_env \<Rightarrow> string \<Rightarrow> string \<Rightarrow> time \<Rightarrow> team_db \<Rightarrow> team_invitation \<Rightarrow> bool" where
  "may_accept env tokenHash p at db i \<longleftrightarrow>
     ti_TokenHash i = tokenHash \<and> ti_Status i = ''pending'' \<and> at < ti_ExpiresAt i \<and>
     (\<exists>x \<in> set (tb_Principals db). pr_ID x = p \<and> pr_Status x = ''active'' \<and>
        te_Lower env (pr_Email x) = te_Lower env (ti_Email i)) \<and>
     business_active db (ti_BusinessID i)"

definition accept_stmt :: "team_env \<Rightarrow> invitation_acceptance \<Rightarrow> team_db \<Rightarrow> (team_invitation \<times> team_db) result" where
  "accept_stmt env a db =
     with_uuid (te_Pg env) (na_PrincipalID a) (\<lambda>p.
       let at = stamp env (na_AcceptedAt a) in
       case find (may_accept env (na_TokenHash a) p at db) (tb_Invitations db) of
         None \<Rightarrow> Inl ErrNoRows
       | Some i \<Rightarrow>
           if \<not> invitation_checks env (set_joined p at i) then Inl (PgError check_violation)
           else Inr (set_joined p at i,
             db\<lparr>tb_Invitations := update_where (may_accept env (na_TokenHash a) p at db) (set_joined p at) (tb_Invitations db),
                tb_Members := upsert_membership (ti_BusinessID i) p (ti_Role i) (ti_Permissions i) at (tb_Members db)\<rparr>))"

definition not_pending :: "string \<Rightarrow> go_error" where
  "not_pending operation = RepositoryError operation RepositoryConflict (PlainError ''invitation is not pending'')"

definition accept_invitation :: "team_env \<Rightarrow> invitation_acceptance \<Rightarrow> team_invitation team_run" where
  "accept_invitation env a =
     wired env (within (te_Tx env) (on_executor (te_Pg env)
       (run_bind (on_error (classify_repository_write_error ''team.accept_expire'')
           (store_write env 0 (expire_due env (\<lambda>i. ti_TokenHash i = na_TokenHash a) (na_AcceptedAt a))))
       (\<lambda>_. run_bind (on_error (\<lambda>_. not_pending ''team.accept_invitation'') (store_read env 1 (\<lambda>db.
             select_one (\<lambda>i. ti_TokenHash i = na_TokenHash a \<and> ti_Status i = ''pending'' \<and>
                             stamp env (na_AcceptedAt a) < ti_ExpiresAt i) (tb_Invitations db))))
       (\<lambda>i. run_bind (ensure_seat_available env 2 (ti_BusinessID i) (na_PrincipalID a) (na_AcceptedAt a))
       (\<lambda>_. scan_team_invitation (store_write env 5 (accept_stmt env a))))))))"

section \<open>Acceptance with a new account\<close>

definition principal_violated :: "team_env \<Rightarrow> team_db \<Rightarrow> principal \<Rightarrow> string option" where
  "principal_violated env db x =
     (if \<not> (sql_nonblank (pr_DisplayName x) \<and> te_EmailFormat env (pr_Email x) \<and> sql_nonblank (pr_Email x) \<and>
            sql_nonblank (pr_PasswordHash x) \<and> pr_Status x \<in> {''active'', ''suspended''})
      then Some check_violation
      else if \<exists>y \<in> set (tb_Principals db). pr_ID y = pr_ID x \<or> te_Lower env (pr_Email y) = te_Lower env (pr_Email x)
      then Some unique_violation else None)"

definition insert_principal :: "team_env \<Rightarrow> string \<Rightarrow> new_account_acceptance \<Rightarrow> team_db \<Rightarrow> (unit \<times> team_db) result" where
  "insert_principal env email a db =
     with_uuid (te_Pg env) (na_PrincipalID a) (\<lambda>p.
       let at = stamp env (na_AcceptedAt a);
           x = \<lparr>pr_ID = p, pr_Email = te_Lower env email, pr_DisplayName = na_DisplayName a,
                pr_PasswordHash = na_PasswordHash a, pr_Status = ''active'', pr_CreatedAt = at, pr_UpdatedAt = at\<rparr>
       in case principal_violated env db x of
            Some code \<Rightarrow> Inl (PgError code)
          | None \<Rightarrow> Inr ((), db\<lparr>tb_Principals := tb_Principals db @ [x]\<rparr>))"

definition membership_violated :: "team_db \<Rightarrow> membership \<Rightarrow> string option" where
  "membership_violated db m =
     (if \<not> (mb_Role m \<in> set team_roles \<and> mb_Status m \<in> {''active'', ''revoked''}) then Some check_violation
      else if \<exists>x \<in> set (tb_Members db). mb_BusinessID x = mb_BusinessID m \<and> mb_PrincipalID x = mb_PrincipalID m
      then Some unique_violation
      else if \<not> ((\<exists>p \<in> set (tb_Principals db). pr_ID p = mb_PrincipalID m) \<and>
                 (\<exists>b \<in> set (tb_Businesses db). bz_ID b = mb_BusinessID m))
      then Some foreign_key_violation else None)"

definition insert_membership :: "team_env \<Rightarrow> team_invitation \<Rightarrow> string \<Rightarrow> time \<Rightarrow> team_db \<Rightarrow> (unit \<times> team_db) result" where
  "insert_membership env i principalID now db =
     with_uuid (te_Pg env) principalID (\<lambda>p.
       let at = stamp env now;
           m = \<lparr>mb_BusinessID = ti_BusinessID i, mb_PrincipalID = p, mb_Role = ti_Role i,
                mb_Permissions = ti_Permissions i, mb_Status = ''active'', mb_CreatedAt = at, mb_UpdatedAt = at\<rparr>
       in case membership_violated db m of
            Some code \<Rightarrow> Inl (PgError code)
          | None \<Rightarrow> Inr ((), db\<lparr>tb_Members := tb_Members db @ [m]\<rparr>))"

definition update_invitation ::
  "team_env \<Rightarrow> (team_invitation \<Rightarrow> bool) \<Rightarrow> (team_invitation \<Rightarrow> team_invitation) \<Rightarrow> team_db \<Rightarrow>
   (team_invitation \<times> team_db) result" where
  "update_invitation env p f db =
     (case update_returning p f (\<lambda>x. if invitation_checks env x then None else Some check_violation) (tb_Invitations db) of
        Inl e \<Rightarrow> Inl e
      | Inr (x, rows) \<Rightarrow> Inr (x, db\<lparr>tb_Invitations := rows\<rparr>))"

definition accept_row :: "team_env \<Rightarrow> string \<Rightarrow> string \<Rightarrow> time \<Rightarrow> team_db \<Rightarrow> (team_invitation \<times> team_db) result" where
  "accept_row env i principalID now db =
     with_uuid (te_Pg env) principalID (\<lambda>p.
       update_invitation env (\<lambda>x. ti_ID x = i \<and> ti_Status x = ''pending'') (set_joined p (stamp env now)) db)"

definition enroll :: "team_env \<Rightarrow> new_account_acceptance \<Rightarrow> team_invitation \<Rightarrow> team_invitation team_run" where
  "enroll env a i =
     run_bind (on_error (classify_repository_write_error ''team.accept_new.lookup_principal'') (store_read env 6 (\<lambda>db.
         Inr (find (\<lambda>p. te_Lower env (pr_Email p) = te_Lower env (ti_Email i)) (tb_Principals db)))))
     (\<lambda>existing. if existing \<noteq> None
        then run_fail (RepositoryError ''team.accept_new'' RepositoryConflict (PlainError ''principal already exists''))
        else run_bind (on_error (classify_repository_write_error ''team.accept_new.create_principal'')
                 (store_write env 7 (insert_principal env (ti_Email i) a)))
        (\<lambda>_. run_bind (on_error (classify_repository_write_error ''team.accept_new.create_membership'')
                 (store_write env 8 (insert_membership env i (na_PrincipalID a) (na_AcceptedAt a))))
        (\<lambda>_. scan_team_invitation (store_write env 9 (accept_row env (ti_ID i) (na_PrincipalID a) (na_AcceptedAt a))))))"

definition accept_invitation_new_account :: "team_env \<Rightarrow> new_account_acceptance \<Rightarrow> team_invitation team_run" where
  "accept_invitation_new_account env a =
     wired env (on_executor (te_Pg env)
       (run_bind (on_error (classify_repository_write_error ''team.accept_new_expire'')
           (store_write env 0 (expire_due env (\<lambda>i. ti_TokenHash i = na_TokenHash a) (na_AcceptedAt a))))
       (\<lambda>_. within (te_Tx env) (on_executor (te_Pg env)
         (run_bind (scan_team_invitation (store_read env 1 (\<lambda>db.
             select_one (\<lambda>i. ti_TokenHash i = na_TokenHash a) (tb_Invitations db))))
         (\<lambda>i. if ti_Status i \<noteq> ''pending'' \<or> \<not> na_AcceptedAt a < ti_ExpiresAt i
            then run_fail (not_pending ''team.accept_new'')
            else run_bind (on_error (\<lambda>_. RepositoryError ''team.accept_new'' RepositoryConflict (PlainError ''business is not active''))
                (store_read env 2 (\<lambda>db. if business_active db (ti_BusinessID i) then Inr () else Inl ErrNoRows)))
              (\<lambda>_. run_bind (ensure_seat_available env 3 (ti_BusinessID i) (na_PrincipalID a) (na_AcceptedAt a))
              (\<lambda>_. enroll env a i))))))))"

section \<open>Revocation and renewal of invitations\<close>

definition set_revoked :: "team_env \<Rightarrow> time \<Rightarrow> team_invitation \<Rightarrow> team_invitation" where
  "set_revoked env now i =
     i\<lparr>ti_Status := ''revoked'', ti_RevokedAt := Some (stamp env now), ti_UpdatedAt := stamp env now\<rparr>"

definition revoke_invitation :: "team_env \<Rightarrow> invitation_revocation \<Rightarrow> team_invitation team_run" where
  "revoke_invitation env v =
     wired env (on_executor (te_Pg env)
       (run_bind (on_error (classify_repository_write_error ''team.revoke_invitation_expire'')
           (store_write env 0 (\<lambda>db. with_uuid (te_Pg env) (nr_BusinessID v) (\<lambda>b. with_uuid (te_Pg env) (nr_InvitationID v) (\<lambda>i.
              expire_due env (\<lambda>x. ti_BusinessID x = b \<and> ti_ID x = i) (nr_RevokedAt v) db)))))
       (\<lambda>_. scan_team_invitation (store_write env 1 (\<lambda>db.
          with_uuid (te_Pg env) (nr_BusinessID v) (\<lambda>b. with_uuid (te_Pg env) (nr_InvitationID v) (\<lambda>i.
            update_invitation env
              (\<lambda>x. ti_BusinessID x = b \<and> ti_ID x = i \<and> ti_Status x = ''pending'' \<and> stamp env (nr_RevokedAt v) < ti_ExpiresAt x)
              (set_revoked env (nr_RevokedAt v)) db)))))))"

text \<open>\<^verbatim>\<open>revoked_at\<close> is cleared when the old invitation is closed as expired.\<close>

definition set_closed :: "team_env \<Rightarrow> string \<Rightarrow> time \<Rightarrow> team_invitation \<Rightarrow> team_invitation" where
  "set_closed env status now i =
     i\<lparr>ti_Status := status, ti_RevokedAt := (if status = ''revoked'' then Some (stamp env now) else None),
       ti_UpdatedAt := stamp env now\<rparr>"

definition close_old :: "team_env \<Rightarrow> invitation_resend \<Rightarrow> string \<Rightarrow> string \<Rightarrow> team_invitation \<Rightarrow> unit team_run" where
  "close_old env v b i previous =
     (if ti_Status previous = ''pending''
      then let status = (if \<not> ns_CreatedAt v < ti_ExpiresAt previous then ''expired'' else ''revoked'') in
        on_error (classify_repository_write_error ''team.resend_invitation.close_old'')
          (run_bind (store_write env 1 (update_invitation env (\<lambda>x. ti_BusinessID x = b \<and> ti_ID x = i)
                                        (set_closed env status (ns_CreatedAt v)))) (\<lambda>_. run_return ()))
      else run_return ())"

definition find_invitation :: "team_env \<Rightarrow> invitation_resend \<Rightarrow> team_db \<Rightarrow> (string \<times> string \<times> team_invitation) result" where
  "find_invitation env v db =
     with_uuid (te_Pg env) (ns_BusinessID v) (\<lambda>b. with_uuid (te_Pg env) (ns_InvitationID v) (\<lambda>i.
       case find (\<lambda>x. ti_BusinessID x = b \<and> ti_ID x = i) (tb_Invitations db) of
         None \<Rightarrow> Inl ErrNoRows
       | Some x \<Rightarrow> Inr (b, i, x)))"

definition resend_invitation :: "team_env \<Rightarrow> invitation_resend \<Rightarrow> team_invitation team_run" where
  "resend_invitation env v =
     wired env (on_error (team_repository_write_error ''team.resend_invitation'')
       (within (te_Tx env) (on_executor (te_Pg env)
         (run_bind (scan_team_invitation (store_read env 0 (find_invitation env v)))
         (\<lambda>(b, i, previous). if ti_Status previous = ''accepted''
            then run_fail (RepositoryError ''team.resend_invitation'' RepositoryConflict
                   (PlainError ''accepted invitation cannot be resent''))
            else run_bind (close_old env v b i previous)
              (\<lambda>_. scan_team_invitation (store_write env 2 (\<lambda>db.
                 with_uuid (te_Pg env) (ns_NewInvitationID v) (\<lambda>new. with_uuid (te_Pg env) (ns_InvitedBy v) (\<lambda>inviter.
                   insert_invitation env
                     (new_invitation env new b (ti_Email previous) (ti_DisplayName previous) (ti_Role previous)
                        (ti_Permissions previous) (ns_TokenHash v) inviter (ns_ExpiresAt v) (ns_CreatedAt v)) db))))))))))"

section \<open>Members\<close>

text \<open>An update of memberships joined with the principals: the answer is empty when no row is hit.\<close>

definition update_member ::
  "team_env \<Rightarrow> string \<Rightarrow> string \<Rightarrow> (team_db \<Rightarrow> membership \<Rightarrow> bool) \<Rightarrow> (membership \<Rightarrow> membership) \<Rightarrow> team_member_record team_run" where
  "update_member env businessID principalID p f =
     scan_team_member (run_bind (store_write env 0 (\<lambda>db.
       with_uuid (te_Pg env) businessID (\<lambda>b. with_uuid (te_Pg env) principalID (\<lambda>q.
         let hit = (\<lambda>m. mb_BusinessID m = b \<and> mb_PrincipalID m = q \<and> mb_Status m = ''active'' \<and> p db m) in
         case update_returning hit f
                (\<lambda>m. if mb_Role m \<in> set team_roles \<and> mb_Status m \<in> {''active'', ''revoked''} then None else Some check_violation)
                (tb_Members db) of
           Inl e \<Rightarrow> Inl e
         | Inr (m, ms) \<Rightarrow> Inr (member_record db m, db\<lparr>tb_Members := ms\<rparr>)))))
       (\<lambda>r db. (r, db)))"

definition update_member_role :: "team_env \<Rightarrow> member_role_change \<Rightarrow> team_member_record team_run" where
  "update_member_role env c =
     wired env (on_executor (te_Pg env)
       (update_member env (mc_BusinessID c) (mc_PrincipalID c) (\<lambda>_ m. mb_Role m \<noteq> ''owner'')
          (\<lambda>m. m\<lparr>mb_Role := mc_Role c, mb_UpdatedAt := stamp env (mc_UpdatedAt c)\<rparr>)))"

definition update_member_access :: "team_env \<Rightarrow> member_access_change \<Rightarrow> team_member_record team_run" where
  "update_member_access env c =
     wired env (on_executor (te_Pg env)
       (update_member env (mc_BusinessID c) (mc_PrincipalID c) (\<lambda>_ m. mb_Role m \<noteq> ''owner'')
          (\<lambda>m. m\<lparr>mb_Role := mc_Role c, mb_Permissions := mc_Permissions c, mb_UpdatedAt := stamp env (mc_UpdatedAt c)\<rparr>)))"

definition active_owners :: "team_db \<Rightarrow> string \<Rightarrow> membership list" where
  "active_owners db b =
     filter (\<lambda>m. mb_BusinessID m = b \<and> mb_Role m = ''owner'' \<and> mb_Status m = ''active'') (tb_Members db)"

definition revoke_member :: "team_env \<Rightarrow> member_revocation \<Rightarrow> team_member_record team_run" where
  "revoke_member env v =
     wired env (on_executor (te_Pg env)
       (on_error (\<lambda>e. if repository_kind e = Some RepositoryNotFound
                      then RepositoryError ''team.revoke_member'' RepositoryConflict e else e)
         (update_member env (mv_BusinessID v) (mv_PrincipalID v)
            (\<lambda>db m. mb_Role m \<noteq> ''owner'' \<or> 1 < length (active_owners db (mb_BusinessID m)))
            (\<lambda>m. m\<lparr>mb_Status := ''revoked'', mb_UpdatedAt := stamp env (mv_RevokedAt v)\<rparr>))))"

end
