(* ===== verification/Store_Changes.thy ===== *)
theory Store_Changes
  imports Postgres Observed_Runs
begin

text \<open>
  What the calls of a store do to its state, as far as a relation of permitted changes tells: the locale
  \<open>state_changes\<close> fixes the relation, and a run \<open>reaches\<close> when it leads from a state by such changes only, however it
  ends. Reads, refusals, error wrapping and transactions keep this, so that each call is judged by its statements.
\<close>

locale state_changes =
  fixes change :: "'t \<Rightarrow> 't \<Rightarrow> bool"
begin

definition reaches :: "('t, 'a) run \<Rightarrow> 't \<Rightarrow> bool" where
  "reaches m db \<longleftrightarrow> change\<^sup>*\<^sup>* db (snd (m db))"

lemma reaches_return [simp]: "reaches (run_return x) db" "reaches (run_fail e) db"
  by (simp_all add: reaches_def run_return_def run_fail_def)

lemma reaches_read [simp]: "reaches (faulty_read env fault q) db"
  by (simp add: reaches_def)

lemma reaches_on_error [simp]: "reaches (on_error f m) db = reaches m db"
  by (simp add: reaches_def)

lemma reaches_write:
  assumes "\<And>x db'. stmt db = Inr (x, db') \<Longrightarrow> change\<^sup>*\<^sup>* db db'"
  shows "reaches (faulty_write env fault stmt) db"
  unfolding reaches_def using faulty_write_effect [of env fault stmt db] assms by auto

lemma reaches_bind:
  assumes "reaches m db" "\<And>x db1. m db = (Inr x, db1) \<Longrightarrow> reaches (f x) db1"
  shows "reaches (run_bind m f) db"
proof -
  obtain r db1 where m: "m db = (r, db1)" by fastforce
  with assms(1) have "change\<^sup>*\<^sup>* db db1" by (simp add: reaches_def)
  with assms(2) m show ?thesis
    by (cases r) (auto simp: reaches_def run_bind_def intro: rtranclp_trans)
qed

lemma within_changes:
  assumes "\<And>x db'. m db = (Inr x, db') \<Longrightarrow> change\<^sup>*\<^sup>* db db'"
  shows "reaches (within tx m) db"
proof -
  obtain r db' where e: "within tx m db = (r, db')" by fastforce
  from within_atomic [OF e] assms e show ?thesis by (auto simp: reaches_def)
qed

lemma reaches_within: "reaches m db \<Longrightarrow> reaches (within tx m) db"
  by (rule within_changes) (simp add: reaches_def)

lemma reaches_executor: "reaches m db \<Longrightarrow> reaches (on_executor pg m) db"
  by (simp add: reaches_def on_executor_def split: option.splits)

lemma reaches_if: "(b \<Longrightarrow> reaches m db) \<Longrightarrow> (\<not> b \<Longrightarrow> reaches m' db) \<Longrightarrow> reaches (if b then m else m') db"
  by simp

end

end
