(* ===== verification/Team_Laws.thy ===== *)
theory Team_Laws
  imports Team_Store Store_Changes Authorization
begin

text \<open>
  What the operations of the team store can do to a team, as a relation on its states: invitations are closed and
  issued, principals enrolled, members admitted, altered and revoked. The locale \<open>team_policy\<close> fixes what one call is
  allowed (the grants it may make, the seats there are, who accepts) and shows what every sequence of such changes
  keeps: the keys, the origin of every grant, the owners and the seats. Each operation is shown to be such a sequence.
\<close>

section \<open>Observations of a team\<close>

definition member_key :: "membership \<Rightarrow> string \<times> string" where
  "member_key m = (mb_BusinessID m, mb_PrincipalID m)"

definition grants :: "team_db \<Rightarrow> (string \<times> string list) set" where
  "grants db = (\<lambda>m. (mb_BusinessID m, mb_Permissions m)) ` set (tb_Members db) \<union>
     (\<lambda>i. (ti_BusinessID i, ti_Permissions i)) ` set (tb_Invitations db)"

definition owner_keys :: "team_db \<Rightarrow> (string \<times> string) set" where
  "owner_keys db = member_key ` {m \<in> set (tb_Members db). mb_Role m = ''owner'' \<and> mb_Status m = ''active''}"

definition active_seats :: "team_db \<Rightarrow> string \<Rightarrow> nat" where
  "active_seats db b = length (filter (\<lambda>m. mb_BusinessID m = b \<and> mb_Status m = ''active'') (tb_Members db))"

definition team_inv :: "team_db \<Rightarrow> bool" where
  "team_inv db \<longleftrightarrow>
     distinct (map member_key (tb_Members db)) \<and> distinct (map ti_ID (tb_Invitations db)) \<and>
     distinct (map ti_TokenHash (tb_Invitations db)) \<and> (\<forall>i \<in> set (tb_Invitations db). ti_Role i \<noteq> ''owner'')"

definition same_offer :: "team_invitation \<Rightarrow> team_invitation \<Rightarrow> bool" where
  "same_offer i j \<longleftrightarrow> ti_ID i = ti_ID j \<and> ti_BusinessID i = ti_BusinessID j \<and> ti_Role i = ti_Role j \<and>
     ti_Permissions i = ti_Permissions j \<and> ti_TokenHash i = ti_TokenHash j"

lemma length_filter_mono: "(\<And>x. x \<in> set xs \<Longrightarrow> P x \<Longrightarrow> Q x) \<Longrightarrow> length (filter P xs) \<le> length (filter Q xs)"
  by (induction xs) auto

lemma filter_update_where:
  "(\<And>x. x \<in> set xs \<Longrightarrow> p x \<Longrightarrow> P (f x) = P x) \<Longrightarrow> length (filter P (update_where p f xs)) = length (filter P xs)"
  by (induction xs) auto

lemma filter_update_where_le:
  "(\<And>x. x \<in> set xs \<Longrightarrow> p x \<Longrightarrow> P (f x) \<Longrightarrow> P x) \<Longrightarrow> length (filter P (update_where p f xs)) \<le> length (filter P xs)"
  by (induction xs) auto

text \<open>With unique keys, leaving out one principal leaves out at most one active member.\<close>

lemma active_seats_others:
  assumes "distinct (map member_key (tb_Members db))"
  shows "active_seats db b \<le> other_seats db b p + 1"
proof -
  have one: "length (filter (\<lambda>m. member_key m = (b, p)) ms) \<le> 1" if "distinct (map member_key ms)" for ms
    using that by (induction ms) (auto simp: filter_empty_conv image_iff)
  have "length (filter (\<lambda>m. mb_BusinessID m = b \<and> mb_Status m = ''active'') ms) \<le>
      length (filter (\<lambda>m. mb_BusinessID m = b \<and> mb_Status m = ''active'' \<and> mb_PrincipalID m \<noteq> p) ms) +
      length (filter (\<lambda>m. member_key m = (b, p)) ms)" for ms
    by (induction ms) (auto simp: member_key_def)
  from order_trans [OF this add_left_mono [OF one]] assms show ?thesis
    unfolding active_seats_def other_seats_def by blast
qed

lemma another_key:
  assumes "1 < length xs" "distinct (map key xs)"
  obtains x where "x \<in> set xs" "key x \<noteq> k"
proof -
  from assms(1) obtain a c r where "xs = a # c # r" by (metis One_nat_def length_0_conv length_Cons less_not_refl2 list.exhaust less_numeral_extra(3) zero_less_one_class.zero_less_one Suc_lessD)
  with assms(2) have "key a \<noteq> key c" "a \<in> set xs" "c \<in> set xs" by auto
  with that show thesis by metis
qed

section \<open>What a call tells\<close>

lemma store_read_Inr: "store_read env n q db = (Inr x, db') \<longleftrightarrow> te_Fault env n = None \<and> q db = Inr x \<and> db' = db"
  by (simp add: store_read_def faulty_read_Inr)

lemma snd_store_read [simp]: "snd (store_read env n q db) = db"
  by (simp add: store_read_def)

lemma store_write_Inr: "store_write env n stmt db = (Inr x, db') \<longleftrightarrow> te_Fault env n = None \<and> stmt db = Inr (x, db')"
  by (simp add: store_write_def faulty_write_Inr)

lemmas team_call_rules = store_read_Inr on_error_Inr store_write_Inr scan_team_invitation_def scan_team_member_def

lemma ensure_seat_available_Inr:
  assumes "ensure_seat_available env n b principalID now db = (Inr u, db')"
  shows "db' = db \<and> (\<exists>limit p. te_SeatLimit env b (stamp env now) = Some limit \<and>
     pg_uuid (te_Pg env) principalID = Some p \<and> int (other_seats db b p) < limit)"
  using assms unfolding ensure_seat_available_def
  by (auto simp: run_rules team_call_rules with_uuid_Inr split: option.splits if_splits)

lemma snd_ensure_seat [simp]: "snd (ensure_seat_available env n b principalID now db) = db"
  by (simp add: ensure_seat_available_def run_bind_def on_error_def store_read_def faulty_read_def run_fail_def run_return_def
      split: sum.splits option.splits)

lemma expire_due_Inr:
  assumes "expire_due env p now db = Inr (u, db')"
  obtains q where "db' = db\<lparr>tb_Invitations := update_where q (set_expired env now) (tb_Invitations db)\<rparr>"
  using assms by (auto simp: expire_due_def Let_def split: if_splits)

lemma update_invitation_Inr:
  assumes "update_invitation env p f db = Inr (x, db')"
  shows "db' = db\<lparr>tb_Invitations := update_where p f (tb_Invitations db)\<rparr>"
  using assms by (auto simp: update_invitation_def statement_rules split: sum.splits prod.splits)

lemma insert_invitation_Inr:
  assumes "insert_invitation env i db = Inr (x, db')"
  shows "db' = db\<lparr>tb_Invitations := tb_Invitations db @ [i]\<rparr>" "invitation_checks env i"
    "ti_ID i \<notin> ti_ID ` set (tb_Invitations db)" "ti_TokenHash i \<notin> ti_TokenHash ` set (tb_Invitations db)"
  using assms by (auto simp: insert_invitation_def invitation_violated_def split: if_splits)

lemma same_offer_set [simp]:
  "same_offer (set_expired env now i) i" "same_offer (set_joined p at i) i"
  "same_offer (set_revoked env now i) i" "same_offer (set_closed env st now i) i"
  by (simp_all add: same_offer_def set_expired_def set_joined_def set_revoked_def set_closed_def)

section \<open>Changes\<close>

locale team_policy =
  fixes grant :: "string \<Rightarrow> string list \<Rightarrow> bool"
    and seats :: "string \<Rightarrow> int option"
    and accepting :: "string option"
  assumes no_wildcard: "grant b ps \<Longrightarrow> permission_all \<notin> set ps"
begin

inductive change :: "team_db \<Rightarrow> team_db \<Rightarrow> bool" where
  close: "(\<And>i. i \<in> set (tb_Invitations db) \<Longrightarrow> p i \<Longrightarrow> same_offer (f i) i) \<Longrightarrow>
     change db (db\<lparr>tb_Invitations := update_where p f (tb_Invitations db)\<rparr>)"
| issue: "ti_ID i \<notin> ti_ID ` set (tb_Invitations db) \<Longrightarrow> ti_TokenHash i \<notin> ti_TokenHash ` set (tb_Invitations db) \<Longrightarrow>
     ti_Role i \<noteq> ''owner'' \<Longrightarrow>
     (ti_BusinessID i, ti_Permissions i) \<in> grants db \<or> grant (ti_BusinessID i) (ti_Permissions i) \<Longrightarrow>
     change db (db\<lparr>tb_Invitations := tb_Invitations db @ [i]\<rparr>)"
| enroll: "change db (db\<lparr>tb_Principals := ps\<rparr>)"
| admit: "i \<in> set (tb_Invitations db) \<Longrightarrow> seats (ti_BusinessID i) = Some limit \<Longrightarrow>
     int (other_seats db (ti_BusinessID i) p) < limit \<Longrightarrow> accepting = Some p \<Longrightarrow>
     change db (db\<lparr>tb_Members := upsert_membership (ti_BusinessID i) p (ti_Role i) (ti_Permissions i) at (tb_Members db)\<rparr>)"
| alter: "(\<And>m. p m \<Longrightarrow> mb_Role m \<noteq> ''owner'' \<and> mb_Role (f m) \<noteq> ''owner'' \<and> member_key (f m) = member_key m \<and>
        mb_Status (f m) = mb_Status m \<and> (mb_Permissions (f m) = mb_Permissions m \<or> grant (mb_BusinessID m) (mb_Permissions (f m)))) \<Longrightarrow>
     change db (db\<lparr>tb_Members := update_where p f (tb_Members db)\<rparr>)"
| revoke: "(\<And>m. p m \<Longrightarrow> member_key m = k \<and> (mb_Role m \<noteq> ''owner'' \<or> 1 < length (active_owners db (fst k))) \<and>
        member_key (f m) = member_key m \<and> mb_Status (f m) \<noteq> ''active'' \<and> mb_Permissions (f m) = mb_Permissions m) \<Longrightarrow>
     change db (db\<lparr>tb_Members := update_where p f (tb_Members db)\<rparr>)"

text \<open>The keys stay unique and no invitation offers ownership.\<close>

lemma keys_upsert:
  "distinct (map member_key ms) \<Longrightarrow> distinct (map member_key (upsert_membership b p role permissions at ms))"
  unfolding upsert_membership_def
  by (auto simp: map_key_update_where [of _ member_key] member_key_def image_iff)

lemma change_inv: "change db db' \<Longrightarrow> team_inv db \<Longrightarrow> team_inv db'"
proof (induction rule: change.induct)
  case (close db p f)
  have "map ti_ID (update_where p f (tb_Invitations db)) = map ti_ID (tb_Invitations db)"
    "map ti_TokenHash (update_where p f (tb_Invitations db)) = map ti_TokenHash (tb_Invitations db)"
    using close.hyps by (auto simp: update_where_def same_offer_def)
  moreover have "\<forall>i \<in> set (update_where p f (tb_Invitations db)). ti_Role i \<noteq> ''owner''"
    using close by (auto simp: update_where_def same_offer_def team_inv_def)
  ultimately show ?case using close.prems by (simp add: team_inv_def)
next
  case (issue i db)
  then show ?case by (auto simp: team_inv_def)
next
  case (enroll db ps)
  then show ?case by (simp add: team_inv_def)
next
  case (admit i db limit p at)
  then show ?case by (simp add: team_inv_def keys_upsert)
next
  case (alter p f db)
  then have "map member_key (update_where p f (tb_Members db)) = map member_key (tb_Members db)"
    by (simp add: map_key_update_where)
  with alter.prems show ?case by (simp add: team_inv_def)
next
  case (revoke p k db f)
  then have "map member_key (update_where p f (tb_Members db)) = map member_key (tb_Members db)"
    by (simp add: map_key_update_where)
  with revoke.prems show ?case by (simp add: team_inv_def)
qed

text \<open>Every grant was there before or is one the call may make.\<close>

lemma change_grants: "change db db' \<Longrightarrow> grants db' \<subseteq> grants db \<union> {(b, ps). grant b ps}"
proof (induction rule: change.induct)
  case (close db p f)
  then show ?case by (auto simp: grants_def update_where_def same_offer_def)
next
  case (issue i db)
  then show ?case by (auto simp: grants_def)
next
  case (enroll db ps)
  then show ?case by (simp add: grants_def)
next
  case (admit i db limit p at)
  then show ?case by (auto simp: grants_def upsert_membership_def update_where_def)
next
  case (alter p f db)
  then show ?case
    by (force simp: grants_def update_where_def member_key_def)
next
  case (revoke p k db f)
  then show ?case
    by (force simp: grants_def update_where_def member_key_def)
qed

lemma change_wildcard:
  assumes "change db db'" "(b, ps) \<in> grants db'" "permission_all \<in> set ps"
  shows "(b, ps) \<in> grants db"
  using change_grants [OF assms(1)] assms(2,3) no_wildcard by blast

text \<open>Nobody becomes an owner.\<close>

lemma change_owner_keys: "change db db' \<Longrightarrow> team_inv db \<Longrightarrow> owner_keys db' \<subseteq> owner_keys db"
proof (induction rule: change.induct)
  case (admit i db limit p at)
  then have "ti_Role i \<noteq> ''owner''" by (simp add: team_inv_def)
  then show ?case by (auto simp: owner_keys_def upsert_membership_def update_where_def)
next
  case (alter p f db)
  then show ?case by (auto simp: owner_keys_def update_where_def)
next
  case (revoke p k db f)
  then show ?case by (auto simp: owner_keys_def update_where_def)
qed (simp_all add: owner_keys_def)

text \<open>A business keeps an owner, unless an owner accepts an invitation to it.\<close>

lemma kept_owner:
  assumes "m \<in> set (tb_Members db)" "mb_Role m = ''owner''" "mb_Status m = ''active''" "\<not> p m"
  shows "member_key m \<in> owner_keys (db\<lparr>tb_Members := update_where p f (tb_Members db)\<rparr>)"
  using assms unfolding owner_keys_def by (force simp: update_where_def)

lemma kept_owner_upsert:
  assumes "m \<in> set (tb_Members db)" "mb_Role m = ''owner''" "mb_Status m = ''active''" "mb_PrincipalID m \<noteq> p"
  shows "member_key m \<in> owner_keys (db\<lparr>tb_Members := upsert_membership b p role permissions at (tb_Members db)\<rparr>)"
proof (cases "\<exists>x \<in> set (tb_Members db). mb_BusinessID x = b \<and> mb_PrincipalID x = p")
  case True
  with assms show ?thesis by (simp add: upsert_membership_def kept_owner)
next
  case False
  with assms show ?thesis by (auto simp: upsert_membership_def owner_keys_def)
qed

lemma change_owner:
  assumes "change db db'" "team_inv db" "(b, q) \<in> owner_keys db"
  shows "(\<exists>q'. (b, q') \<in> owner_keys db') \<or> (\<exists>p. accepting = Some p \<and> (b, p) \<in> owner_keys db)"
  using assms
proof (induction rule: change.induct)
  case (admit i db limit p at)
  show ?case
  proof (cases "(b, p) \<in> owner_keys db")
    case True
    with admit show ?thesis by blast
  next
    case False
    from admit obtain m where m: "m \<in> set (tb_Members db)" "mb_Role m = ''owner''" "mb_Status m = ''active''"
        "member_key m = (b, q)" by (auto simp: owner_keys_def)
    with False have "q \<noteq> p" by (auto simp: owner_keys_def intro: rev_image_eqI)
    with m(4) have "mb_PrincipalID m \<noteq> p" by (simp add: member_key_def)
    from kept_owner_upsert [OF m(1-3) this] m(4) show ?thesis by metis
  qed
next
  case (alter p f db)
  then obtain m where m: "m \<in> set (tb_Members db)" "mb_Role m = ''owner''" "mb_Status m = ''active''"
      "member_key m = (b, q)" by (auto simp: owner_keys_def)
  with alter.hyps have "\<not> p m" by blast
  with kept_owner [OF m(1-3)] m(4) show ?case by metis
next
  case (revoke p k db f)
  then obtain m where m: "m \<in> set (tb_Members db)" "mb_Role m = ''owner''" "mb_Status m = ''active''"
      "member_key m = (b, q)" by (auto simp: owner_keys_def)
  show ?case
  proof (cases "p m")
    case False
    with kept_owner [OF m(1-3)] m(4) show ?thesis by metis
  next
    case True
    with revoke.hyps m have k: "k = (b, q)" "1 < length (active_owners db b)" by auto
    have "distinct (map member_key (active_owners db b))"
      using revoke.prems by (simp add: team_inv_def active_owners_def distinct_map_filter)
    from another_key [OF k(2) this] obtain x where x: "x \<in> set (active_owners db b)" "member_key x \<noteq> k" by metis
    with revoke.hyps have "\<not> p x" by blast
    with x kept_owner [of x db p f] have "member_key x \<in> owner_keys (db\<lparr>tb_Members := update_where p f (tb_Members db)\<rparr>)"
      by (simp add: active_owners_def)
    moreover have "fst (member_key x) = b" using x(1) by (simp add: active_owners_def member_key_def)
    ultimately show ?thesis by (metis prod.collapse)
  qed
qed (auto simp: owner_keys_def)

text \<open>A business has more active members only as long as there are seats.\<close>

lemma other_seats_upsert:
  "other_seats (db\<lparr>tb_Members := upsert_membership b p role permissions at (tb_Members db)\<rparr>) b p = other_seats db b p"
  unfolding other_seats_def upsert_membership_def by (simp, intro impI filter_update_where) auto

lemma active_seats_upsert_other:
  "b' \<noteq> b \<Longrightarrow> active_seats (db\<lparr>tb_Members := upsert_membership b p role permissions at (tb_Members db)\<rparr>) b' = active_seats db b'"
  unfolding active_seats_def upsert_membership_def by (simp, intro impI filter_update_where) auto

lemma change_seats:
  assumes "change db db'" "team_inv db"
  shows "active_seats db' b \<le> active_seats db b \<or> (\<exists>limit. seats b = Some limit \<and> int (active_seats db' b) \<le> limit)"
  using assms
proof (induction rule: change.induct)
  case (admit i db limit p at)
  let ?db = "db\<lparr>tb_Members := upsert_membership (ti_BusinessID i) p (ti_Role i) (ti_Permissions i) at (tb_Members db)\<rparr>"
  show ?case
  proof (cases "b = ti_BusinessID i")
    case True
    have "distinct (map member_key (tb_Members ?db))" using admit.prems by (simp add: team_inv_def keys_upsert)
    from active_seats_others [OF this, of b p] have "active_seats ?db b \<le> other_seats db b p + 1"
      using True by (simp add: other_seats_upsert)
    with admit True show ?thesis by force
  next
    case False
    then show ?thesis by (simp add: active_seats_upsert_other)
  qed
next
  case (alter p f db)
  then have "active_seats (db\<lparr>tb_Members := update_where p f (tb_Members db)\<rparr>) b \<le> active_seats db b"
    unfolding active_seats_def by simp (rule filter_update_where_le, auto simp: member_key_def)
  then show ?case ..
next
  case (revoke p k db f)
  then have "active_seats (db\<lparr>tb_Members := update_where p f (tb_Members db)\<rparr>) b \<le> active_seats db b"
    unfolding active_seats_def by simp (rule filter_update_where_le, auto)
  then show ?case ..
qed (simp_all add: active_seats_def)

section \<open>Sequences of changes\<close>

lemma changes_inv: "change\<^sup>*\<^sup>* db db' \<Longrightarrow> team_inv db \<Longrightarrow> team_inv db'"
  by (induction rule: rtranclp_induct) (auto intro: change_inv)

lemma changes_grants: "change\<^sup>*\<^sup>* db db' \<Longrightarrow> grants db' \<subseteq> grants db \<union> {(b, ps). grant b ps}"
  by (induction rule: rtranclp_induct) (use change_grants in blast)+

lemma changes_owner_keys: "change\<^sup>*\<^sup>* db db' \<Longrightarrow> team_inv db \<Longrightarrow> owner_keys db' \<subseteq> owner_keys db"
  by (induction rule: rtranclp_induct) (use change_owner_keys changes_inv in blast)+

lemma changes_owner:
  "change\<^sup>*\<^sup>* db db' \<Longrightarrow> team_inv db \<Longrightarrow> (b, q) \<in> owner_keys db \<Longrightarrow>
    (\<exists>q'. (b, q') \<in> owner_keys db') \<or> (\<exists>p. accepting = Some p \<and> (b, p) \<in> owner_keys db)"
proof (induction rule: rtranclp_induct)
  case (step d d')
  have inv: "team_inv d" and keys: "owner_keys d \<subseteq> owner_keys db"
    using step.hyps(1) step.prems(1) changes_inv changes_owner_keys by simp_all
  from step.IH [OF step.prems] show ?case
  proof
    assume "\<exists>q'. (b, q') \<in> owner_keys d"
    then obtain q' where "(b, q') \<in> owner_keys d" ..
    from change_owner [OF step.hyps(2) inv this] keys show ?thesis by auto
  qed simp
qed auto

lemma changes_seats:
  "change\<^sup>*\<^sup>* db db' \<Longrightarrow> team_inv db \<Longrightarrow>
    active_seats db' b \<le> active_seats db b \<or> (\<exists>limit. seats b = Some limit \<and> int (active_seats db' b) \<le> limit)"
proof (induction rule: rtranclp_induct)
  case (step d d')
  then have "team_inv d" using changes_inv by blast
  from change_seats [OF step.hyps(2) this, of b] step show ?case by force
qed simp

section \<open>Runs\<close>

end

sublocale team_policy \<subseteq> state_changes change .

context team_policy
begin

lemma reaches_store_read [simp]: "reaches (store_read env n q) db"
  by (simp add: store_read_def)

lemma reaches_seat [simp]: "reaches (ensure_seat_available env n b p now) db"
  by (simp add: reaches_def)

lemma reaches_scan [simp]:
  "reaches (scan_team_invitation m) db = reaches m db" "reaches (scan_team_member m) db = reaches m db"
  by (simp_all add: scan_team_invitation_def scan_team_member_def)

lemma reaches_store_write:
  "(\<And>x db'. stmt db = Inr (x, db') \<Longrightarrow> change\<^sup>*\<^sup>* db db') \<Longrightarrow> reaches (store_write env n stmt) db"
  unfolding store_write_def by (rule reaches_write)

lemma reaches_wired: "reaches m db \<Longrightarrow> reaches (wired env m) db"
  by (simp add: reaches_def wired_def)

lemmas reaches_frame = reaches_wired reaches_within reaches_executor

section \<open>The operations\<close>

lemma expire_changes: "expire_due env p now db = Inr (u, db') \<Longrightarrow> change\<^sup>*\<^sup>* db db'"
  by (elim expire_due_Inr) (auto intro!: r_into_rtranclp close)

lemma update_invitation_changes:
  "update_invitation env p f db = Inr (x, db') \<Longrightarrow> (\<And>i. same_offer (f i) i) \<Longrightarrow> change\<^sup>*\<^sup>* db db'"
  by (drule update_invitation_Inr) (auto intro!: r_into_rtranclp close)

lemma insert_invitation_changes:
  assumes "insert_invitation env i db = Inr (x, db')"
    and "(ti_BusinessID i, ti_Permissions i) \<in> grants db \<or> grant (ti_BusinessID i) (ti_Permissions i)"
  shows "change\<^sup>*\<^sup>* db db'"
  using insert_invitation_Inr [OF assms(1)] assms(2) by (auto simp: invitation_checks_def intro!: r_into_rtranclp issue)

lemma reaches_list_members: "reaches (list_members env b limit cursor) db"
  unfolding list_members_def Let_def by (auto split: sum.splits intro!: reaches_frame reaches_bind)

lemma reaches_list_invitations: "reaches (list_invitations env b limit cursor now) db"
  unfolding list_invitations_def Let_def
  by (auto simp: with_uuid_Inr split: sum.splits intro!: reaches_frame reaches_bind reaches_store_write elim!: expire_changes)

lemma reaches_inspect: "reaches (inspect_invitation env hash now) db"
  unfolding inspect_invitation_def
  by (auto intro!: reaches_frame reaches_bind reaches_store_write elim!: expire_changes)

lemma reaches_create:
  assumes "\<And>b. pg_uuid (te_Pg env) (nc_BusinessID c) = Some b \<Longrightarrow> grant b (nc_Permissions c)"
  shows "reaches (create_invitation env c) db"
  unfolding create_invitation_def
  by (auto simp: with_uuid_Inr new_invitation_def assms split: if_splits intro!: reaches_frame reaches_bind reaches_store_write
      elim!: expire_changes insert_invitation_changes)

lemma reaches_revoke_invitation: "reaches (revoke_invitation env v) db"
  unfolding revoke_invitation_def
  by (auto simp: with_uuid_Inr intro!: reaches_frame reaches_bind reaches_store_write elim!: expire_changes update_invitation_changes)

lemma close_old_grants:
  assumes "close_old env v b i previous db = (Inr u, db')"
  shows "grants db' = grants db"
proof -
  have "grants (db\<lparr>tb_Invitations := update_where p f (tb_Invitations db)\<rparr>) = grants db" if "\<And>i. same_offer (f i) i" for p f
  proof -
    have "(\<lambda>i. (ti_BusinessID i, ti_Permissions i)) ` set (update_where p f (tb_Invitations db)) =
        (\<lambda>i. (ti_BusinessID i, ti_Permissions i)) ` set (tb_Invitations db)"
      unfolding update_where_def set_map image_image using that by (intro image_cong) (auto simp: same_offer_def)
    then show ?thesis by (simp add: grants_def)
  qed
  with assms show ?thesis
    by (auto simp: close_old_def Let_def run_rules team_call_rules split: if_splits dest!: update_invitation_Inr)
qed

lemma find_invitation_Inr:
  assumes "find_invitation env v db = Inr (b, i, previous)"
  shows "(b, ti_Permissions previous) \<in> grants db"
proof -
  from assms have "find (\<lambda>x. ti_BusinessID x = b \<and> ti_ID x = i) (tb_Invitations db) = Some previous"
    by (auto simp: find_invitation_def with_uuid_Inr split: option.splits)
  from find_SomeD [OF this] show ?thesis by (auto simp: grants_def)
qed

lemma reaches_resend: "reaches (resend_invitation env v) db"
proof -
  have old: "reaches (close_old env v b i previous) db" for b i previous db
    unfolding close_old_def Let_def
    by (auto intro!: reaches_bind reaches_store_write elim!: update_invitation_changes)
  have issued: "change\<^sup>*\<^sup>* db1 db2"
    if "insert_invitation env (new_invitation env new b email name role ps hash inviter expires created) db1 = Inr (x, db2)"
      "(b, ps) \<in> grants db1"
    for b ps db1 db2 new email name role hash inviter expires created x
    by (rule insert_invitation_changes [OF that(1)]) (simp add: that(2) new_invitation_def)
  show ?thesis
    unfolding resend_invitation_def
    by (auto simp: team_call_rules with_uuid_Inr split: if_splits intro!: reaches_frame reaches_bind reaches_store_write old
        dest!: close_old_grants find_invitation_Inr elim!: issued)
qed

text \<open>Admission: the seat was checked in the state in which the membership is written.\<close>

lemma accept_stmt_changes:
  assumes inv: "team_inv db" and stmt: "accept_stmt env a db = Inr (x, db')"
    and first: "select_one (\<lambda>i. ti_TokenHash i = na_TokenHash a \<and> ti_Status i = ''pending'' \<and> stamp env (na_AcceptedAt a) < ti_ExpiresAt i)
      (tb_Invitations db) = Inr i"
    and p: "pg_uuid (te_Pg env) (na_PrincipalID a) = Some p" "accepting = Some p"
    and seat: "seats (ti_BusinessID i) = Some limit" "int (other_seats db (ti_BusinessID i) p) < limit"
  shows "change\<^sup>*\<^sup>* db db'"
proof -
  let ?at = "stamp env (na_AcceptedAt a)" and ?may = "may_accept env (na_TokenHash a) p (stamp env (na_AcceptedAt a)) db"
  from stmt p obtain j where j: "find ?may (tb_Invitations db) = Some j"
    and db': "db' = db\<lparr>tb_Invitations := update_where ?may (set_joined p ?at) (tb_Invitations db)\<rparr>
        \<lparr>tb_Members := upsert_membership (ti_BusinessID j) p (ti_Role j) (ti_Permissions j) ?at (tb_Members db)\<rparr>"
    by (auto simp: accept_stmt_def Let_def split: option.splits if_splits)
  have i: "i \<in> set (tb_Invitations db)" "ti_TokenHash i = na_TokenHash a"
    using first by (auto simp: select_one_def split: option.splits dest: find_SomeD)
  have jm: "j \<in> set (tb_Invitations db)" "ti_TokenHash j = na_TokenHash a" "?may j"
    using find_SomeD [OF j] by (auto simp: may_accept_def)
  with i inv have "j = i" unfolding team_inv_def distinct_map by (metis inj_onD)
  let ?db1 = "db\<lparr>tb_Invitations := update_where ?may (set_joined p ?at) (tb_Invitations db)\<rparr>"
  have "change db ?db1" by (rule close) simp
  moreover have "set_joined p ?at i \<in> set (tb_Invitations ?db1)"
    using jm \<open>j = i\<close> by (simp add: in_update_where_hit)
  then have "change ?db1 (?db1\<lparr>tb_Members := upsert_membership (ti_BusinessID (set_joined p ?at i)) p
      (ti_Role (set_joined p ?at i)) (ti_Permissions (set_joined p ?at i)) ?at (tb_Members ?db1)\<rparr>)"
    by (rule admit) (use seat p in \<open>simp_all add: set_joined_def other_seats_def\<close>)
  ultimately show ?thesis
    using \<open>j = i\<close> unfolding db' by (simp add: set_joined_def)
qed

lemma reaches_accept:
  assumes inv: "team_inv db"
    and self: "\<And>p. pg_uuid (te_Pg env) (na_PrincipalID a) = Some p \<Longrightarrow> accepting = Some p"
    and limits: "\<And>b. seats b = te_SeatLimit env b (stamp env (na_AcceptedAt a))"
  shows "reaches (accept_invitation env a) db"
proof -
  have kept: "team_inv db1" if "expire_due env p now db = Inr (u, db1)" for p now u db1
    using changes_inv [OF expire_changes [OF that] inv] .
  show ?thesis
    unfolding accept_invitation_def
    by (intro reaches_wired reaches_within reaches_executor reaches_bind)
      (auto simp: team_call_rules limits intro!: reaches_store_write kept accept_stmt_changes self elim!: expire_changes
        dest!: ensure_seat_available_Inr)
qed

lemma enroll_changes:
  assumes run: "enroll env a i db = (Inr x, db')" and i: "i \<in> set (tb_Invitations db)"
    and p: "pg_uuid (te_Pg env) (na_PrincipalID a) = Some p" "accepting = Some p"
    and seat: "seats (ti_BusinessID i) = Some limit" "int (other_seats db (ti_BusinessID i) p) < limit"
  shows "change\<^sup>*\<^sup>* db db'"
proof -
  let ?at = "stamp env (na_AcceptedAt a)"
  from run p(1) obtain u1 db1 u2 db2 where steps: "insert_principal env (ti_Email i) a db = Inr (u1, db1)"
      "insert_membership env i (na_PrincipalID a) (na_AcceptedAt a) db1 = Inr (u2, db2)"
      "accept_row env (ti_ID i) (na_PrincipalID a) (na_AcceptedAt a) db2 = Inr (x, db')"
    by (auto simp: enroll_def run_rules team_call_rules split: if_splits)
  from steps(1) p(1) obtain ps where db1: "db1 = db\<lparr>tb_Principals := ps\<rparr>"
    by (auto simp: insert_principal_def Let_def split: option.splits)
  from steps(2) p(1) have db2: "db2 = db1\<lparr>tb_Members := upsert_membership (ti_BusinessID i) p (ti_Role i) (ti_Permissions i) ?at (tb_Members db1)\<rparr>"
    by (auto simp: insert_membership_def membership_violated_def upsert_membership_def Let_def split: option.splits if_splits)
  have "change db db1" unfolding db1 by (rule enroll)
  moreover have "change db1 db2" unfolding db2
    by (rule admit) (use i p seat in \<open>simp_all add: db1 other_seats_def\<close>)
  moreover have "change\<^sup>*\<^sup>* db2 db'"
    using steps(3) p(1) by (auto simp: accept_row_def elim!: update_invitation_changes)
  ultimately show ?thesis by (meson converse_rtranclp_into_rtranclp)
qed

lemma reaches_accept_new:
  assumes self: "\<And>p. pg_uuid (te_Pg env) (na_PrincipalID a) = Some p \<Longrightarrow> accepting = Some p"
    and limits: "\<And>b. seats b = te_SeatLimit env b (stamp env (na_AcceptedAt a))"
  shows "reaches (accept_invitation_new_account env a) db"
proof -
  let ?callback = "\<lambda>i. run_bind (on_error (\<lambda>_. RepositoryError ''team.accept_new'' RepositoryConflict (PlainError ''business is not active''))
                (store_read env 2 (\<lambda>db. if business_active db (ti_BusinessID i) then Inr () else Inl ErrNoRows)))
              (\<lambda>_. run_bind (ensure_seat_available env 3 (ti_BusinessID i) (na_PrincipalID a) (na_AcceptedAt a))
              (\<lambda>_. enroll env a i))"
  have admitted: "reaches (within tx (on_executor pg (run_bind (scan_team_invitation (store_read env 1 (\<lambda>db.
        select_one (\<lambda>i. ti_TokenHash i = na_TokenHash a) (tb_Invitations db))))
      (\<lambda>i. if ti_Status i \<noteq> ''pending'' \<or> \<not> na_AcceptedAt a < ti_ExpiresAt i then run_fail e else ?callback i)))) db" for tx pg e db
  proof (rule within_changes)
    fix x db' assume "on_executor pg (run_bind (scan_team_invitation (store_read env 1 (\<lambda>db.
        select_one (\<lambda>i. ti_TokenHash i = na_TokenHash a) (tb_Invitations db))))
      (\<lambda>i. if ti_Status i \<noteq> ''pending'' \<or> \<not> na_AcceptedAt a < ti_ExpiresAt i then run_fail e else ?callback i)) db = (Inr x, db')"
    then obtain i where i: "select_one (\<lambda>i. ti_TokenHash i = na_TokenHash a) (tb_Invitations db) = Inr i"
      and seat: "ensure_seat_available env 3 (ti_BusinessID i) (na_PrincipalID a) (na_AcceptedAt a) db = (Inr (), db)"
      and run: "enroll env a i db = (Inr x, db')"
      by (auto simp: on_executor_Inr run_rules team_call_rules split: if_splits dest: ensure_seat_available_Inr)
    from i have "i \<in> set (tb_Invitations db)" by (auto simp: select_one_def split: option.splits dest: find_SomeD)
    with run ensure_seat_available_Inr [OF seat] show "change\<^sup>*\<^sup>* db db'"
      by (auto simp: limits intro: enroll_changes self)
  qed
  show ?thesis
    unfolding accept_invitation_new_account_def
    by (intro reaches_wired reaches_executor reaches_bind admitted) (auto intro!: reaches_store_write elim!: expire_changes)
qed

lemma reaches_update_member:
  assumes "\<And>b q. pg_uuid (te_Pg env) businessID = Some b \<Longrightarrow>
    change db (db\<lparr>tb_Members := update_where
      (\<lambda>m. mb_BusinessID m = b \<and> mb_PrincipalID m = q \<and> mb_Status m = ''active'' \<and> p db m) f (tb_Members db)\<rparr>)"
  shows "reaches (update_member env businessID principalID p f) db"
  unfolding update_member_def reaches_scan
proof (intro reaches_bind reaches_store_write, goal_cases)
  case (1 x db')
  then obtain b q m ms where "pg_uuid (te_Pg env) businessID = Some b"
    and upd: "update_returning (\<lambda>m. mb_BusinessID m = b \<and> mb_PrincipalID m = q \<and> mb_Status m = ''active'' \<and> p db m) f
        (\<lambda>m. if mb_Role m \<in> set team_roles \<and> mb_Status m \<in> {''active'', ''revoked''} then None else Some check_violation)
        (tb_Members db) = Inr (m, ms)"
    and "db' = db\<lparr>tb_Members := ms\<rparr>"
    unfolding Let_def with_uuid_Inr by (fastforce split: sum.splits prod.splits)
  with assms [of b q] show ?case by (auto simp: update_returning_Inr)
next
  case (2 x db1)
  show ?case by (simp add: reaches_def)
qed

lemma reaches_update_role:
  "mc_Role c \<noteq> ''owner'' \<Longrightarrow> reaches (update_member_role env c) db"
  unfolding update_member_role_def
  by (intro reaches_frame reaches_update_member alter) (simp add: member_key_def)

lemma reaches_update_access:
  assumes "mc_Role c \<noteq> ''owner''" "\<And>b. pg_uuid (te_Pg env) (mc_BusinessID c) = Some b \<Longrightarrow> grant b (mc_Permissions c)"
  shows "reaches (update_member_access env c) db"
  unfolding update_member_access_def
  by (intro reaches_frame reaches_update_member alter) (auto simp: member_key_def assms)

lemma reaches_revoke_member: "reaches (revoke_member env v) db"
  unfolding revoke_member_def
proof (intro reaches_frame, simp only: reaches_on_error, intro reaches_update_member)
  fix b q
  show "change db (db\<lparr>tb_Members := update_where (\<lambda>m. mb_BusinessID m = b \<and> mb_PrincipalID m = q \<and> mb_Status m = ''active'' \<and>
       (mb_Role m \<noteq> ''owner'' \<or> 1 < length (active_owners db (mb_BusinessID m))))
     (\<lambda>m. m\<lparr>mb_Status := ''revoked'', mb_UpdatedAt := stamp env (mv_RevokedAt v)\<rparr>) (tb_Members db)\<rparr>)"
    by (rule revoke [where k = "(b, q)"]) (auto simp: member_key_def)
qed

end

end
