(* ===== verification/Team_Services.thy ===== *)
theory Team_Services
  imports Team_Laws
begin

text \<open>
  The team services of \<^verbatim>\<open>services/team_services.go\<close> on the store of \<^verbatim>\<open>Team_Store\<close>: who may invite, resend, revoke,
  change and accept, with every early return. What the package takes from elsewhere (the clock, new identifiers and
  tokens, SHA-256, bcrypt, the test of a UUID and the lower case of Unicode texts) is a field of \<open>team_service\<close>.
\<close>

section \<open>Data\<close>

record team_service =
  tv_Wired :: bool
  tv_Now :: time
  tv_NewID :: string
  tv_NewToken :: "string result"
  tv_TokenHash :: "string \<Rightarrow> string"
  tv_HashPassword :: "string \<Rightarrow> string result"
  tv_ValidUUID :: "string \<Rightarrow> bool"
  tv_ToLower :: "string \<Rightarrow> string"

record team_member_view =
  vm_PrincipalID :: string
  vm_Email :: string
  vm_DisplayName :: string
  vm_Role :: string
  vm_Permissions :: "string list"
  vm_Status :: string

record team_invitation_view =
  vi_ID :: string
  vi_BusinessID :: string
  vi_BusinessName :: string
  vi_Email :: string
  vi_DisplayName :: string
  vi_Role :: string
  vi_Permissions :: "string list"
  vi_Status :: string
  vi_InvitedBy :: string
  vi_AcceptedBy :: "string option"
  vi_ExpiresAt :: time
  vi_AcceptedAt :: "time option"
  vi_RevokedAt :: "time option"
  vi_CreatedAt :: time
  vi_UpdatedAt :: time
  vi_AccountState :: string

record team_invitation_result =
  vr_Invitation :: team_invitation_view
  vr_AcceptanceToken :: string

record invite_command =
  iv_Actor :: actor_context
  iv_Email :: string
  iv_DisplayName :: string
  iv_Role :: string
  iv_Permissions :: "string list"
  iv_ExpiresIn :: duration

record normalized_invitation_input =
  ni_email :: string
  ni_displayName :: string
  ni_role :: string
  ni_permissions :: "string list"
  ni_lifetime :: duration

section \<open>Helpers\<close>

definition default_invitation_lifetime :: duration where "default_invitation_lifetime = hours (7 * 24)"
definition maximum_invitation_lifetime :: duration where "maximum_invitation_lifetime = hours (30 * 24)"

definition member_view :: "team_member_record \<Rightarrow> team_member_view" where
  "member_view r =
     \<lparr>vm_PrincipalID = mb_PrincipalID r, vm_Email = mb_Email r, vm_DisplayName = mb_DisplayName r, vm_Role = mb_Role r,
      vm_Permissions = mb_Permissions r, vm_Status = mb_Status r\<rparr>"

definition team_member_list :: "team_member_record page \<Rightarrow> team_member_view page" where
  "team_member_list p =
     \<lparr>pp_Items = map member_view (pp_Items p), pp_NextCursor = pp_NextCursor p, pp_HasMore = pp_HasMore p\<rparr>"

definition invitation_view :: "team_invitation_record \<Rightarrow> team_invitation_view" where
  "invitation_view r =
     \<lparr>vi_ID = ti_ID r, vi_BusinessID = ti_BusinessID r, vi_BusinessName = ti_BusinessName r, vi_Email = ti_Email r,
      vi_DisplayName = ti_DisplayName r, vi_Role = ti_Role r, vi_Permissions = ti_Permissions r, vi_Status = ti_Status r,
      vi_InvitedBy = ti_InvitedBy r, vi_AcceptedBy = ti_AcceptedBy r, vi_ExpiresAt = ti_ExpiresAt r,
      vi_AcceptedAt = ti_AcceptedAt r, vi_RevokedAt = ti_RevokedAt r, vi_CreatedAt = ti_CreatedAt r,
      vi_UpdatedAt = ti_UpdatedAt r, vi_AccountState = ti_AccountState r\<rparr>"

text \<open>A row read without the name of the business and the state of the account.\<close>

definition row_view :: "team_invitation \<Rightarrow> team_invitation_view" where
  "row_view i = invitation_view (team_invitation.extend i (team_invitation_record.fields '''' ''''))"

definition map_team_repository_error :: "go_error \<Rightarrow> go_error" where
  "map_team_repository_error e =
     (case repository_kind e of
        Some RepositoryNotFound \<Rightarrow> app_error CodeNotFound ''team member or invitation was not found''
      | Some RepositoryConflict \<Rightarrow> app_error CodeInvalidState ''team operation is not allowed in its current state''
      | Some RepositoryInvalid \<Rightarrow> app_error CodeValidation ''team persistence rejected the request''
      | _ \<Rightarrow> e)"

definition can_read_team :: "actor_context \<Rightarrow> bool" where
  "can_read_team actor = has_permission actor team_read"

definition manages_team :: "actor_context \<Rightarrow> bool" where
  "manages_team actor = (can_manage_team (ac_Role actor) \<and> has_permission actor team_manage)"

definition require_team_manager :: "team_service \<Rightarrow> actor_context \<Rightarrow> unit team_run" where
  "require_team_manager S actor =
     (if \<not> tv_Wired S then run_fail not_implemented
      else if \<not> can_manage_team (ac_Role actor) \<or> \<not> has_permission actor team_manage
      then run_fail (app_error CodeForbidden ''only owner or admin can manage team members'')
      else run_return ())"

definition valid_invitation_email :: "string \<Rightarrow> bool" where
  "valid_invitation_email value =
     (case index_of (CHR ''@'') value of
        None \<Rightarrow> False
      | Some at \<Rightarrow> 0 < at \<and> int at < int (length value) - 1 \<and>
          \<not> (\<exists>c \<in> set value. byte_of c \<in> {32, 9, 10}))"

definition invitation_lifetime :: "duration \<Rightarrow> duration" where
  "invitation_lifetime requested = (if requested \<le> 0 then default_invitation_lifetime else requested)"

definition normalize_invitation_input :: "team_service \<Rightarrow> invite_command \<Rightarrow> normalized_invitation_input result" where
  "normalize_invitation_input S c =
     (let email = tv_ToLower S (trim_space (iv_Email c));
          displayName = trim_space (iv_DisplayName c);
          role = normalize_team_role (iv_Role c);
          lifetime = invitation_lifetime (iv_ExpiresIn c)
      in case normalize_permissions (iv_Permissions c) of
           Some permissions \<Rightarrow>
             if \<not> valid_invitation_email email \<or> displayName = '''' \<or> \<not> valid_team_role role \<or> role = ''owner'' \<or> permissions = []
             then Inl (app_error CodeValidation ''valid employee identity, non-owner role, and known permissions are required'')
             else if lifetime > maximum_invitation_lifetime
             then Inl (app_error CodeValidation ''invitation expiry cannot exceed 30 days'')
             else Inr \<lparr>ni_email = email, ni_displayName = displayName, ni_role = role, ni_permissions = permissions, ni_lifetime = lifetime\<rparr>
         | None \<Rightarrow> Inl (app_error CodeValidation ''valid employee identity, non-owner role, and known permissions are required''))"

definition invitation_create_of :: "team_service \<Rightarrow> invite_command \<Rightarrow> normalized_invitation_input \<Rightarrow> string \<Rightarrow> invitation_create" where
  "invitation_create_of S c input token =
     \<lparr>nc_ID = tv_NewID S, nc_BusinessID = ac_BusinessID (iv_Actor c), nc_Email = ni_email input,
      nc_DisplayName = ni_displayName input, nc_Role = ni_role input, nc_Permissions = ni_permissions input,
      nc_TokenHash = tv_TokenHash S token, nc_InvitedBy = ac_PrincipalID (iv_Actor c),
      nc_ExpiresAt = tv_Now S + ni_lifetime input, nc_CreatedAt = tv_Now S, nc_UpdatedAt = tv_Now S\<rparr>"

definition pure_result :: "'a result \<Rightarrow> ('s, 'a) run" where
  "pure_result r s = (r, s)"

definition repository_call :: "('s, 'a) run \<Rightarrow> ('a \<Rightarrow> 'b) \<Rightarrow> ('s, 'b) run" where
  "repository_call m view = run_bind (on_error map_team_repository_error m) (\<lambda>x. run_return (view x))"

section \<open>Queries\<close>

definition list_team_members :: "team_service \<Rightarrow> team_env \<Rightarrow> actor_context \<Rightarrow> int \<Rightarrow> string \<Rightarrow> team_member_view page team_run" where
  "list_team_members S env actor limit cursor =
     (if \<not> tv_Wired S then run_fail not_implemented
      else if \<not> can_read_team actor then run_fail (app_error CodeForbidden ''team read permission is required'')
      else repository_call (list_members env (ac_BusinessID actor) limit cursor) team_member_list)"

definition list_team_invitations :: "team_service \<Rightarrow> team_env \<Rightarrow> actor_context \<Rightarrow> int \<Rightarrow> string \<Rightarrow> team_invitation_view page team_run" where
  "list_team_invitations S env actor limit cursor =
     (if \<not> tv_Wired S then run_fail not_implemented
      else if \<not> can_read_team actor then run_fail (app_error CodeForbidden ''team read permission is required'')
      else repository_call (list_invitations env (ac_BusinessID actor) limit cursor (tv_Now S))
             (\<lambda>p. \<lparr>pp_Items = map row_view (pp_Items p), pp_NextCursor = pp_NextCursor p, pp_HasMore = pp_HasMore p\<rparr>))"

definition inspect_team_invitation :: "team_service \<Rightarrow> team_env \<Rightarrow> string \<Rightarrow> time \<Rightarrow> team_invitation_view team_run" where
  "inspect_team_invitation S env acceptanceToken now0 =
     (if \<not> tv_Wired S then run_fail not_implemented
      else let token = trim_space acceptanceToken in
        if token = '''' then run_fail (app_error CodeValidation ''invitation acceptance token is required'')
        else repository_call (inspect_invitation env (tv_TokenHash S token) (if is_zero now0 then tv_Now S else now0))
               invitation_view)"

definition eligible_conversation_assignee :: "team_member_record \<Rightarrow> bool" where
  "eligible_conversation_assignee m =
     (let actor = \<lparr>ac_PrincipalID = '''', ac_BusinessID = '''', ac_Role = '''', ac_Permissions = mb_Permissions m\<rparr> in
      mb_Status m = ''active'' \<and> can_receive_conversation_assignment (mb_Role m) \<and>
      has_permission actor conversations_read \<and> has_permission actor conversations_reply)"

definition list_conversation_assignees ::
  "team_service \<Rightarrow> team_env \<Rightarrow> actor_context \<Rightarrow> int \<Rightarrow> string \<Rightarrow> team_member_view page team_run" where
  "list_conversation_assignees S env actor limit cursor =
     (if \<not> tv_Wired S then run_fail not_implemented
      else if \<not> can_assign_conversations (ac_Role actor) \<or> \<not> has_permission actor conversations_assign
      then run_fail (app_error CodeForbidden ''conversation assignment permission is required'')
      else repository_call (list_members env (ac_BusinessID actor) limit cursor)
             (\<lambda>p. team_member_list (p\<lparr>pp_Items := filter eligible_conversation_assignee (pp_Items p)\<rparr>)))"

section \<open>Commands\<close>

definition invite :: "team_service \<Rightarrow> team_env \<Rightarrow> invite_command \<Rightarrow> bool \<Rightarrow> team_invitation_result team_run" where
  "invite S env c enforceGrantBoundary =
     (if \<not> tv_Wired S then run_fail not_implemented
      else run_bind (pure_result (normalize_invitation_input S c)) (\<lambda>input.
        if enforceGrantBoundary \<and> \<not> can_grant (iv_Actor c) (ni_permissions input)
        then run_fail (app_error CodeForbidden ''cannot grant a permission the actor does not hold'')
        else run_bind (on_error (\<lambda>_. app_error CodeExternalDependency ''failed to generate invitation token'')
                 (pure_result (tv_NewToken S))) (\<lambda>token.
          repository_call (create_invitation env (invitation_create_of S c input token))
            (\<lambda>i. \<lparr>vr_Invitation = row_view i, vr_AcceptanceToken = token\<rparr>))))"

definition invite_team_member :: "team_service \<Rightarrow> team_env \<Rightarrow> invite_command \<Rightarrow> team_invitation_result team_run" where
  "invite_team_member S env c =
     (if \<not> can_manage_team (ac_Role (iv_Actor c)) \<or> \<not> has_permission (iv_Actor c) team_manage
      then run_fail (app_error CodeForbidden ''only owner or admin can invite team members'')
      else invite S env c True)"

definition platform_invite_team_member :: "team_service \<Rightarrow> team_env \<Rightarrow> invite_command \<Rightarrow> team_invitation_result team_run" where
  "platform_invite_team_member S env c = invite S env c False"

definition accept_team_invitation :: "team_service \<Rightarrow> team_env \<Rightarrow> actor_context \<Rightarrow> string \<Rightarrow> team_invitation_view team_run" where
  "accept_team_invitation S env actor acceptanceToken =
     (if \<not> tv_Wired S then run_fail not_implemented
      else let token = trim_space acceptanceToken in
        if token = '''' \<or> ac_PrincipalID actor = ''''
        then run_fail (app_error CodeValidation ''invitation token and authenticated principal are required'')
        else repository_call
               (accept_invitation env \<lparr>na_TokenHash = tv_TokenHash S token, na_PrincipalID = ac_PrincipalID actor, na_AcceptedAt = tv_Now S\<rparr>)
               row_view)"

definition accept_new_team_invitation :: "team_service \<Rightarrow> team_env \<Rightarrow> string \<Rightarrow> string \<Rightarrow> string \<Rightarrow> team_invitation_view team_run" where
  "accept_new_team_invitation S env acceptanceToken displayName0 password =
     (if \<not> tv_Wired S then run_fail not_implemented
      else let token = trim_space acceptanceToken; displayName = trim_space displayName0 in
        if token = '''' \<or> displayName = '''' \<or> length password < 12 \<or> length password > 72
        then run_fail (app_error CodeValidation
               ''valid invitation token, display name, and password between 12 and 72 bytes are required'')
        else run_bind (on_error (\<lambda>_. app_error CodeExternalDependency ''failed to prepare employee credentials'')
               (pure_result (tv_HashPassword S password))) (\<lambda>passwordHash.
          repository_call
            (accept_invitation_new_account env
               \<lparr>na_TokenHash = tv_TokenHash S token, na_PrincipalID = tv_NewID S, na_AcceptedAt = tv_Now S,
                na_DisplayName = displayName, na_PasswordHash = passwordHash\<rparr>)
            row_view))"

definition revoke_team_invitation :: "team_service \<Rightarrow> team_env \<Rightarrow> actor_context \<Rightarrow> string \<Rightarrow> team_invitation_view team_run" where
  "revoke_team_invitation S env actor invitationID =
     run_bind (require_team_manager S actor) (\<lambda>_.
       if \<not> tv_ValidUUID S invitationID then run_fail (app_error CodeValidation ''valid invitation id is required'')
       else repository_call
              (revoke_invitation env \<lparr>nr_BusinessID = ac_BusinessID actor, nr_InvitationID = invitationID, nr_RevokedAt = tv_Now S\<rparr>)
              row_view)"

definition resend_team_invitation ::
  "team_service \<Rightarrow> team_env \<Rightarrow> actor_context \<Rightarrow> string \<Rightarrow> duration \<Rightarrow> team_invitation_result team_run" where
  "resend_team_invitation S env actor invitationID expiresIn =
     run_bind (require_team_manager S actor) (\<lambda>_.
       if \<not> tv_ValidUUID S invitationID then run_fail (app_error CodeValidation ''valid invitation id is required'')
       else let lifetime = invitation_lifetime expiresIn in
         if lifetime > maximum_invitation_lifetime
         then run_fail (app_error CodeValidation ''invitation expiry cannot exceed 30 days'')
         else run_bind (on_error (\<lambda>_. app_error CodeExternalDependency ''failed to generate invitation token'')
                (pure_result (tv_NewToken S))) (\<lambda>token.
           repository_call
             (resend_invitation env
                \<lparr>ns_BusinessID = ac_BusinessID actor, ns_InvitationID = invitationID, ns_NewInvitationID = tv_NewID S,
                 ns_TokenHash = tv_TokenHash S token, ns_InvitedBy = ac_PrincipalID actor,
                 ns_ExpiresAt = tv_Now S + lifetime, ns_CreatedAt = tv_Now S\<rparr>)
             (\<lambda>i. \<lparr>vr_Invitation = row_view i, vr_AcceptanceToken = token\<rparr>)))"

definition update_team_member_role :: "team_service \<Rightarrow> team_env \<Rightarrow> actor_context \<Rightarrow> string \<Rightarrow> string \<Rightarrow> team_member_view team_run" where
  "update_team_member_role S env actor principalID role0 =
     run_bind (require_team_manager S actor) (\<lambda>_.
       let role = normalize_team_role role0 in
       if \<not> valid_team_role role \<or> role = ''owner'' \<or> \<not> tv_ValidUUID S principalID
       then run_fail (app_error CodeValidation ''valid principal and non-owner team role are required'')
       else repository_call
              (update_member_role env \<lparr>mc_BusinessID = ac_BusinessID actor, mc_PrincipalID = principalID, mc_Role = role, mc_UpdatedAt = tv_Now S\<rparr>)
              member_view)"

definition update_team_member_access ::
  "team_service \<Rightarrow> team_env \<Rightarrow> actor_context \<Rightarrow> string \<Rightarrow> string \<Rightarrow> string list \<Rightarrow> team_member_view team_run" where
  "update_team_member_access S env actor principalID role0 permissions0 =
     run_bind (require_team_manager S actor) (\<lambda>_.
       let role = normalize_team_role role0 in
       case normalize_permissions permissions0 of
         Some permissions \<Rightarrow>
           if \<not> valid_team_role role \<or> role = ''owner'' \<or> \<not> tv_ValidUUID S principalID \<or> permissions = []
           then run_fail (app_error CodeValidation ''valid principal, non-owner role, and known permissions are required'')
           else if \<not> can_grant actor permissions
           then run_fail (app_error CodeForbidden ''cannot grant a permission the actor does not hold'')
           else repository_call
                  (update_member_access env
                     \<lparr>mc_BusinessID = ac_BusinessID actor, mc_PrincipalID = principalID, mc_Role = role, mc_UpdatedAt = tv_Now S,
                      mc_Permissions = permissions\<rparr>)
                  member_view
       | None \<Rightarrow> run_fail (app_error CodeValidation ''valid principal, non-owner role, and known permissions are required''))"

definition revoke_team_member :: "team_service \<Rightarrow> team_env \<Rightarrow> actor_context \<Rightarrow> string \<Rightarrow> team_member_view team_run" where
  "revoke_team_member S env actor principalID =
     run_bind (require_team_manager S actor) (\<lambda>_.
       if \<not> tv_ValidUUID S principalID \<or> principalID = ac_PrincipalID actor
       then run_fail (app_error CodeValidation ''valid different team principal id is required'')
       else repository_call
              (revoke_member env \<lparr>mv_BusinessID = ac_BusinessID actor, mv_PrincipalID = principalID, mv_RevokedAt = tv_Now S\<rparr>)
              member_view)"

section \<open>One command\<close>

datatype team_command =
    List_Members actor_context int string
  | List_Invitations actor_context int string
  | List_Assignees actor_context int string
  | Inspect string time
  | Invite invite_command
  | Platform_Invite invite_command
  | Accept actor_context string
  | Accept_New string string string
  | Revoke_Invitation actor_context string
  | Resend actor_context string duration
  | Update_Role actor_context string string
  | Update_Access actor_context string string "string list"
  | Revoke_Member actor_context string

fun team_exec :: "team_service \<Rightarrow> team_env \<Rightarrow> team_command \<Rightarrow> team_db \<Rightarrow> team_db" where
  "team_exec S env (List_Members actor limit cursor) db = snd (list_team_members S env actor limit cursor db)"
| "team_exec S env (List_Invitations actor limit cursor) db = snd (list_team_invitations S env actor limit cursor db)"
| "team_exec S env (List_Assignees actor limit cursor) db = snd (list_conversation_assignees S env actor limit cursor db)"
| "team_exec S env (Inspect token now) db = snd (inspect_team_invitation S env token now db)"
| "team_exec S env (Invite c) db = snd (invite_team_member S env c db)"
| "team_exec S env (Platform_Invite c) db = snd (platform_invite_team_member S env c db)"
| "team_exec S env (Accept actor token) db = snd (accept_team_invitation S env actor token db)"
| "team_exec S env (Accept_New token name password) db = snd (accept_new_team_invitation S env token name password db)"
| "team_exec S env (Revoke_Invitation actor i) db = snd (revoke_team_invitation S env actor i db)"
| "team_exec S env (Resend actor i expiresIn) db = snd (resend_team_invitation S env actor i expiresIn db)"
| "team_exec S env (Update_Role actor p role) db = snd (update_team_member_role S env actor p role db)"
| "team_exec S env (Update_Access actor p role permissions) db = snd (update_team_member_access S env actor p role permissions db)"
| "team_exec S env (Revoke_Member actor p) db = snd (revoke_team_member S env actor p db)"

definition team_history :: "(team_service \<times> team_env \<times> team_command) list \<Rightarrow> team_db \<Rightarrow> team_db" where
  "team_history cs db = fold (\<lambda>(S, env, c). team_exec S env c) cs db"

text \<open>The principal who joins a business, as the database reads the identifier.\<close>

fun accepting_of :: "team_service \<Rightarrow> team_env \<Rightarrow> team_command \<Rightarrow> string option" where
  "accepting_of S env (Accept actor token) = pg_uuid (te_Pg env) (ac_PrincipalID actor)"
| "accepting_of S env (Accept_New token name password) = pg_uuid (te_Pg env) (tv_NewID S)"
| "accepting_of S env c = None"

text \<open>
  The grants a command may make: of known permissions, in the actor's business, and (unless the platform's
  administration invites) by somebody who manages the team and holds each of them.
\<close>

definition grant_known :: "team_env \<Rightarrow> actor_context \<Rightarrow> string \<Rightarrow> string list \<Rightarrow> bool" where
  "grant_known env actor b ps \<longleftrightarrow>
     pg_uuid (te_Pg env) (ac_BusinessID actor) = Some b \<and> ps \<noteq> [] \<and> set ps \<subseteq> set known_permissions"

definition grant_held :: "team_env \<Rightarrow> actor_context \<Rightarrow> string \<Rightarrow> string list \<Rightarrow> bool" where
  "grant_held env actor b ps \<longleftrightarrow>
     grant_known env actor b ps \<and> manages_team actor \<and> (\<forall>p \<in> set ps. has_permission actor p)"

fun allowed_grant :: "team_env \<Rightarrow> team_command \<Rightarrow> string \<Rightarrow> string list \<Rightarrow> bool" where
  "allowed_grant env (Invite c) b ps = grant_held env (iv_Actor c) b ps"
| "allowed_grant env (Platform_Invite c) b ps = grant_known env (iv_Actor c) b ps"
| "allowed_grant env (Update_Access actor p role permissions) b ps = grant_held env actor b ps"
| "allowed_grant env c b ps = False"

lemma allowed_grant_known:
  "allowed_grant env c b ps \<Longrightarrow> set ps \<subseteq> set known_permissions"
  by (cases c) (auto simp: grant_held_def grant_known_def)

lemma wildcard_unknown: "permission_all \<notin> set known_permissions"
  by code_simp

interpretation team: team_policy "allowed_grant env c" "\<lambda>b. te_SeatLimit env b (stamp env (tv_Now S))" "accepting_of S env c"
  for S env c
  using allowed_grant_known wildcard_unknown by unfold_locales blast

section \<open>What a command does to the team\<close>

lemma normalize_permissions_known: "normalize_permissions vs = Some ps \<Longrightarrow> set ps \<subseteq> set known_permissions"
proof -
  have "collect_permissions vs seen = Some ps \<Longrightarrow> set ps \<subseteq> set seen \<union> set known_permissions" for seen ps
    by (induction vs arbitrary: seen) (fastforce simp: Let_def split: if_splits)+
  moreover assume "normalize_permissions vs = Some ps"
  ultimately show ?thesis by (fastforce simp: normalize_permissions_def)
qed

lemma normalize_invitation_input_Inr:
  "normalize_invitation_input S c = Inr input \<Longrightarrow> ni_permissions input \<noteq> [] \<and> set (ni_permissions input) \<subseteq> set known_permissions"
  by (auto simp: normalize_invitation_input_def Let_def split: option.splits if_splits dest!: normalize_permissions_known)

abbreviation team_reaches :: "team_service \<Rightarrow> team_env \<Rightarrow> team_command \<Rightarrow> 'a team_run \<Rightarrow> team_db \<Rightarrow> bool" where
  "team_reaches S env c \<equiv>
     state_changes.reaches
       (team_policy.change (allowed_grant env c) (\<lambda>b. te_SeatLimit env b (stamp env (tv_Now S))) (accepting_of S env c))"

lemma reaches_pure [simp]: "team_reaches S env c (pure_result r) db"
  by (simp add: team.reaches_def pure_result_def)

lemma reaches_call: "team_reaches S env c m db \<Longrightarrow> team_reaches S env c (repository_call m view) db"
  unfolding repository_call_def by (rule team.reaches_bind) simp_all

lemma require_team_manager_Inr:
  "require_team_manager S actor db = (Inr u, db') \<longleftrightarrow> tv_Wired S \<and> manages_team actor \<and> db' = db"
  by (auto simp: require_team_manager_def manages_team_def run_rules)

lemma reaches_manager:
  assumes "manages_team actor \<Longrightarrow> team_reaches S env c m db"
  shows "team_reaches S env c (run_bind (require_team_manager S actor) (\<lambda>_. m)) db"
proof (rule team.reaches_bind)
  show "team_reaches S env c (require_team_manager S actor) db" by (simp add: require_team_manager_def)
qed (use assms in \<open>simp add: require_team_manager_Inr\<close>)

lemma reaches_invite:
  assumes "\<And>ps b. pg_uuid (te_Pg env) (ac_BusinessID (iv_Actor d)) = Some b \<Longrightarrow> ps \<noteq> [] \<Longrightarrow> set ps \<subseteq> set known_permissions \<Longrightarrow>
    (enforce \<Longrightarrow> can_grant (iv_Actor d) ps) \<Longrightarrow> allowed_grant env c b ps"
  shows "team_reaches S env c (invite S env d enforce) db"
  unfolding invite_def
  by (auto simp: pure_result_def invitation_create_of_def dest!: normalize_invitation_input_Inr
      intro!: team.reaches_bind reaches_call team.reaches_create assms) blast+

lemma reaches_exec:
  assumes "team_reaches S env c m db" "team_exec S env c db = snd (m db)"
  shows "(team_policy.change (allowed_grant env c) (\<lambda>b. te_SeatLimit env b (stamp env (tv_Now S))) (accepting_of S env c))\<^sup>*\<^sup>*
    db (team_exec S env c db)"
  using assms by (simp add: team.reaches_def)

lemma team_exec_changes:
  assumes inv: "team_inv db"
  shows "(team_policy.change (allowed_grant env c) (\<lambda>b. te_SeatLimit env b (stamp env (tv_Now S))) (accepting_of S env c))\<^sup>*\<^sup>*
    db (team_exec S env c db)"
proof (cases c)
  case (List_Members actor limit cursor)
  have "team_reaches S env c (list_team_members S env actor limit cursor) db"
    unfolding list_team_members_def by (simp add: reaches_call team.reaches_list_members)
  then show ?thesis by (rule reaches_exec) (simp add: List_Members)
next
  case (List_Invitations actor limit cursor)
  have "team_reaches S env c (list_team_invitations S env actor limit cursor) db"
    unfolding list_team_invitations_def by (simp add: reaches_call team.reaches_list_invitations)
  then show ?thesis by (rule reaches_exec) (simp add: List_Invitations)
next
  case (List_Assignees actor limit cursor)
  have "team_reaches S env c (list_conversation_assignees S env actor limit cursor) db"
    unfolding list_conversation_assignees_def by (simp add: reaches_call team.reaches_list_members)
  then show ?thesis by (rule reaches_exec) (simp add: List_Assignees)
next
  case (Inspect token now)
  have "team_reaches S env c (inspect_team_invitation S env token now) db"
    unfolding inspect_team_invitation_def by (simp add: Let_def reaches_call team.reaches_inspect)
  then show ?thesis by (rule reaches_exec) (simp add: Inspect)
next
  case (Invite d)
  have "allowed_grant env c b ps" if "grant_known env (iv_Actor d) b ps" "manages_team (iv_Actor d)" "can_grant (iv_Actor d) ps" for b ps
    using that by (simp add: Invite grant_held_def can_grant_iff)
  then have "team_reaches S env c (invite_team_member S env d) db"
    unfolding invite_team_member_def grant_known_def manages_team_def by (simp add: reaches_invite)
  then show ?thesis by (rule reaches_exec) (simp add: Invite)
next
  case (Platform_Invite d)
  then have "allowed_grant env c b ps" if "grant_known env (iv_Actor d) b ps" for b ps
    using that by simp
  then have "team_reaches S env c (platform_invite_team_member S env d) db"
    unfolding platform_invite_team_member_def grant_known_def by (simp add: reaches_invite)
  then show ?thesis by (rule reaches_exec) (simp add: Platform_Invite)
next
  case (Accept actor token)
  then have self: "pg_uuid (te_Pg env) (ac_PrincipalID actor) = Some p \<Longrightarrow> accepting_of S env c = Some p" for p by simp
  have "team_reaches S env c (accept_team_invitation S env actor token) db"
    unfolding accept_team_invitation_def
    by (auto simp: Let_def inv intro!: reaches_call team.reaches_accept self)
  then show ?thesis by (rule reaches_exec) (simp add: Accept)
next
  case (Accept_New token name password)
  then have self: "pg_uuid (te_Pg env) (tv_NewID S) = Some p \<Longrightarrow> accepting_of S env c = Some p" for p by simp
  have "team_reaches S env c (accept_new_team_invitation S env token name password) db"
    unfolding accept_new_team_invitation_def
    by (auto simp: Let_def intro!: team.reaches_bind reaches_call team.reaches_accept_new self)
  then show ?thesis by (rule reaches_exec) (simp add: Accept_New)
next
  case (Revoke_Invitation actor i)
  have "team_reaches S env c (revoke_team_invitation S env actor i) db"
    unfolding revoke_team_invitation_def by (auto intro!: reaches_manager reaches_call team.reaches_revoke_invitation)
  then show ?thesis by (rule reaches_exec) (simp add: Revoke_Invitation)
next
  case (Resend actor i expiresIn)
  have "team_reaches S env c (resend_team_invitation S env actor i expiresIn) db"
    unfolding resend_team_invitation_def Let_def
    by (auto intro!: reaches_manager team.reaches_bind reaches_call team.reaches_resend)
  then show ?thesis by (rule reaches_exec) (simp add: Resend)
next
  case (Update_Role actor p role)
  have "team_reaches S env c (update_team_member_role S env actor p role) db"
    unfolding update_team_member_role_def Let_def by (auto intro!: reaches_manager reaches_call team.reaches_update_role)
  then show ?thesis by (rule reaches_exec) (simp add: Update_Role)
next
  case (Update_Access actor p role permissions)
  have held: "allowed_grant env c b ps"
    if "pg_uuid (te_Pg env) (ac_BusinessID actor) = Some b" "normalize_permissions permissions = Some ps" "ps \<noteq> []"
      "can_grant actor ps" "manages_team actor" for b ps
    using that normalize_permissions_known [OF that(2)]
    by (simp add: Update_Access grant_held_def grant_known_def can_grant_iff)
  have "team_reaches S env c (update_team_member_access S env actor p role permissions) db"
    unfolding update_team_member_access_def Let_def
    by (auto split: option.splits intro!: reaches_manager reaches_call team.reaches_update_access held)
  then show ?thesis by (rule reaches_exec) (simp add: Update_Access)
next
  case (Revoke_Member actor p)
  have "team_reaches S env c (revoke_team_member S env actor p) db"
    unfolding revoke_team_member_def by (auto intro!: reaches_manager reaches_call team.reaches_revoke_member)
  then show ?thesis by (rule reaches_exec) (simp add: Revoke_Member)
qed

section \<open>Properties\<close>


text \<open>
  C34: A business keeps an active owner through every sequence of commands, as long as none of its active owners accepts
  an invitation to a business.
\<close>

theorem team_keeps_owner:
  assumes "team_inv db" and "(b, q) \<in> owner_keys db"
    and "\<forall>(S, env, c) \<in> set cs. \<forall>p. accepting_of S env c = Some p \<longrightarrow> (b, p) \<notin> owner_keys db"
  shows "\<exists>q'. (b, q') \<in> owner_keys (team_history cs db)"
  using assms
proof (induction cs arbitrary: db q)
  case (Cons x cs)
  obtain S env c where x: "x = (S, env, c)" by (cases x)
  let ?db = "team_exec S env c db"
  note steps = team_exec_changes [OF Cons.prems(1), where S = S and env = env and c = c]
  have inv: "team_inv ?db" and keys: "owner_keys ?db \<subseteq> owner_keys db"
    using team.changes_inv [OF steps] team.changes_owner_keys [OF steps] Cons.prems(1) by simp_all
  obtain q' where q': "(b, q') \<in> owner_keys ?db"
    using team.changes_owner [OF steps Cons.prems(1,2)] Cons.prems(3) x by auto
  have "\<forall>(S, env, c) \<in> set cs. \<forall>p. accepting_of S env c = Some p \<longrightarrow> (b, p) \<notin> owner_keys ?db"
    using Cons.prems(3) keys by (clarsimp simp: split_beta) force
  from Cons.IH [OF inv q' this] show ?case by (simp add: team_history_def x)
qed (auto simp: team_history_def)


section \<open>Examples\<close>

definition sample_pg :: pg_env where
  "sample_pg = \<lparr>pg_now = 0, go_now = 0, pg_uuid = Some, pg_ts = id, pg_executor = None, pg_write_fault = None, pg_read_fault = None\<rparr>"

definition team_sample_env :: "int \<Rightarrow> team_env" where
  "team_sample_env seats =
     \<lparr>te_Pg = sample_pg,
      te_Tx = \<lparr>tx_ctx_err = None, tx_closed = False, tx_nested = False, tx_begin_err = None, tx_rollback_err = None, tx_commit_err = None\<rparr>,
      te_Unset = False, te_Fault = (\<lambda>_. None), te_Lower = id, te_EmailFormat = (\<lambda>_. True), te_TextLess = (\<lambda>_ _. True),
      te_SeatLimit = (\<lambda>_ _. Some seats)\<rparr>"

definition team_sample_service :: "string \<Rightarrow> team_service" where
  "team_sample_service new =
     \<lparr>tv_Wired = True, tv_Now = 5, tv_NewID = new, tv_NewToken = Inr (''token-'' @ new), tv_TokenHash = id, tv_HashPassword = Inr,
      tv_ValidUUID = (\<lambda>_. True), tv_ToLower = to_lower\<rparr>"

definition owner_row :: membership where
  "owner_row = \<lparr>mb_BusinessID = ''b'', mb_PrincipalID = ''o'', mb_Role = ''owner'', mb_Permissions = [''*''], mb_Status = ''active'',
     mb_CreatedAt = 0, mb_UpdatedAt = 0\<rparr>"

definition sample_team :: team_db where
  "sample_team =
     \<lparr>tb_Members = [owner_row], tb_Invitations = [],
      tb_Principals = [\<lparr>pr_ID = ''o'', pr_Email = ''o@x.y'', pr_DisplayName = ''O'', pr_PasswordHash = ''h'', pr_Status = ''active'',
                        pr_CreatedAt = 0, pr_UpdatedAt = 0\<rparr>],
      tb_Businesses = [\<lparr>bz_ID = ''b'', bz_Name = ''B'', bz_Status = ''active''\<rparr>]\<rparr>"

definition owner_actor :: actor_context where
  "owner_actor = \<lparr>ac_PrincipalID = ''o'', ac_BusinessID = ''b'', ac_Role = ''owner'', ac_Permissions = [''*'']\<rparr>"

definition sample_invite :: "string \<Rightarrow> team_command" where
  "sample_invite email = Invite \<lparr>iv_Actor = owner_actor, iv_Email = email, iv_DisplayName = ''N'', iv_Role = ''admin'',
     iv_Permissions = [''sales:read''], iv_ExpiresIn = 0\<rparr>"

lemma sample_team_inv: "team_inv sample_team"
  by (simp add: team_inv_def sample_team_def)




definition sample_run :: "(team_service \<times> team_env \<times> team_command) list" where
  "sample_run = [(team_sample_service ''i'', team_sample_env 2, sample_invite ''n@x.y''),
     (team_sample_service ''n'', team_sample_env 2, Accept_New ''token-i'' ''N'' ''long enough password'')]"

lemma owner_keys_sample: "owner_keys sample_team = {(''b'', ''o'')}"
  by (auto simp: owner_keys_def sample_team_def owner_row_def member_key_def)

theorem team_keeps_owner_witness:
  "map mb_PrincipalID (tb_Members (team_history sample_run sample_team)) = [''o'', ''n''] \<and>
   (\<exists>q'. (''b'', q') \<in> owner_keys (team_history sample_run sample_team))"
proof
  show "map mb_PrincipalID (tb_Members (team_history sample_run sample_team)) = [''o'', ''n'']" by code_simp
  have "\<forall>(S, env, c) \<in> set sample_run. \<forall>p. accepting_of S env c = Some p \<longrightarrow> (''b'', p) \<notin> owner_keys sample_team"
    by (simp add: sample_run_def sample_invite_def owner_keys_sample team_sample_env_def sample_pg_def team_sample_service_def)
  from team_keeps_owner [OF sample_team_inv _ this, of "''o''"]
  show "\<exists>q'. (''b'', q') \<in> owner_keys (team_history sample_run sample_team)" by (simp add: owner_keys_sample)
qed

definition invited_team :: team_db where
  "invited_team = team_exec (team_sample_service ''i'') (team_sample_env 2) (sample_invite ''n@x.y'') sample_team"


text \<open>
  An owner who accepts an invitation to the own business, sent to the own address, gives up the ownership: the upsert
  overwrites the role. If it was the last owner, the business has none left, and no command makes one.
\<close>

lemma last_owner_demoted:
  "owner_keys sample_team = {(''b'', ''o'')} \<and>
   owner_keys (team_history [(team_sample_service ''i'', team_sample_env 2, sample_invite ''o@x.y''), (team_sample_service ''j'', team_sample_env 2, Accept owner_actor ''token-i'')] sample_team) = {}"
proof
  have "map mb_Role (tb_Members (team_history [(team_sample_service ''i'', team_sample_env 2, sample_invite ''o@x.y''),
      (team_sample_service ''j'', team_sample_env 2, Accept owner_actor ''token-i'')] sample_team)) = [''admin'']"
    by code_simp
  then show "owner_keys (team_history [(team_sample_service ''i'', team_sample_env 2, sample_invite ''o@x.y''),
      (team_sample_service ''j'', team_sample_env 2, Accept owner_actor ''token-i'')] sample_team) = {}"
    by (auto simp: owner_keys_def)
qed (rule owner_keys_sample)

text \<open>
  Resending checks no grant: somebody who manages the team without holding a permission brings back a revoked
  invitation that gives it.
\<close>

definition revoked_offer :: team_db where
  "revoked_offer = team_exec (team_sample_service ''r'') (team_sample_env 2) (Revoke_Invitation owner_actor ''i'') invited_team"

definition limited_admin :: actor_context where
  "limited_admin = \<lparr>ac_PrincipalID = ''o'', ac_BusinessID = ''b'', ac_Role = ''admin'', ac_Permissions = [''team:manage'']\<rparr>"

lemma resend_ignores_grants:
  "\<not> has_permission limited_admin ''sales:read'' \<and>
   map (\<lambda>i. (ti_Status i, ti_Permissions i)) (tb_Invitations (team_exec (team_sample_service ''k'') (team_sample_env 2) (Resend limited_admin ''i'' 0) revoked_offer)) =
     [(''revoked'', [''sales:read'']), (''pending'', [''sales:read''])]"
proof
  show "\<not> has_permission limited_admin ''sales:read''" by code_simp
  show "map (\<lambda>i. (ti_Status i, ti_Permissions i)) (tb_Invitations (team_exec (team_sample_service ''k'') (team_sample_env 2) (Resend limited_admin ''i'' 0) revoked_offer)) =
     [(''revoked'', [''sales:read'']), (''pending'', [''sales:read''])]"
    by code_simp
qed

text \<open>
  A second invitation to an address with a pending one violates a unique key, which the scanner reports as invalid
  input: the classification as a conflict is never reached.
\<close>

lemma duplicate_invitation_is_invalid:
  "fst (platform_invite_team_member (team_sample_service ''k'') (team_sample_env 2)
     \<lparr>iv_Actor = owner_actor, iv_Email = ''n@x.y'', iv_DisplayName = ''N'', iv_Role = ''admin'', iv_Permissions = [''sales:read''], iv_ExpiresIn = 0\<rparr> invited_team) =
   Inl (app_error CodeValidation ''team persistence rejected the request'')"
  by code_simp

end
