(* ===== verification/Check_Then_Act.thy ===== *)
theory Check_Then_Act
  imports Go_Prelude
begin

text \<open>
  Operations that check a state and write to it in two separate statements, carried out by any number of goroutines.
  A state is paired with the multiset of the writes that were admitted and are still to come. Between the check of an
  operation and its write the state may be changed by the writes of others. The locale gives the invariants that
  survive every interleaving: those for which what a check has established cannot be undone.
\<close>

section \<open>Interleavings\<close>

text \<open>\<open>admits\<close> is the check, \<open>act\<close> the write of an admitted operation, \<open>other\<close> a change by a single statement.\<close>

inductive interleaved ::
  "('s \<Rightarrow> 'w \<Rightarrow> bool) \<Rightarrow> ('w \<Rightarrow> 's \<Rightarrow> 's) \<Rightarrow> ('s \<Rightarrow> 's \<Rightarrow> bool) \<Rightarrow> 's \<times> 'w multiset \<Rightarrow> 's \<times> 'w multiset \<Rightarrow> bool"
  for admits act other where
  admitted: "admits s w \<Longrightarrow> interleaved admits act other (s, ws) (s, add_mset w ws)"
| written: "w \<in># ws \<Longrightarrow> interleaved admits act other (s, ws) (act w s, ws - {#w#})"
| changed: "other s s' \<Longrightarrow> interleaved admits act other (s, ws) (s', ws)"

inductive_cases interleavedE: "interleaved admits act other (s, ws) c"

section \<open>Invariants of interleavings\<close>

locale check_then_act =
  fixes inv :: "'s \<Rightarrow> bool"
    and checked :: "'s \<Rightarrow> 'w \<Rightarrow> bool"
    and admits :: "'s \<Rightarrow> 'w \<Rightarrow> bool"
    and act :: "'w \<Rightarrow> 's \<Rightarrow> 's"
    and other :: "'s \<Rightarrow> 's \<Rightarrow> bool"
  assumes admits_checked: "inv s \<Longrightarrow> admits s w \<Longrightarrow> checked s w"
    and act_inv: "inv s \<Longrightarrow> checked s w \<Longrightarrow> inv (act w s)"
    and act_checked: "inv s \<Longrightarrow> checked s w \<Longrightarrow> checked s v \<Longrightarrow> checked (act w s) v"
    and other_inv: "inv s \<Longrightarrow> other s s' \<Longrightarrow> inv s'"
    and other_checked: "inv s \<Longrightarrow> checked s v \<Longrightarrow> other s s' \<Longrightarrow> checked s' v"
begin

definition settled :: "'s \<times> 'w multiset \<Rightarrow> bool" where
  "settled c \<longleftrightarrow> inv (fst c) \<and> (\<forall>w \<in># snd c. checked (fst c) w)"

lemma settled_step: "interleaved admits act other c c' \<Longrightarrow> settled c \<Longrightarrow> settled c'"
proof (induction rule: interleaved.induct)
  case (admitted s w ws)
  then show ?case by (auto simp: settled_def intro: admits_checked)
next
  case (written w ws s)
  then have "inv s" "checked s w" and all: "\<And>v. v \<in># ws \<Longrightarrow> checked s v" by (auto simp: settled_def)
  then show ?case by (auto simp: settled_def dest: in_diffD intro: act_inv act_checked)
next
  case (changed s s' ws)
  then show ?case by (auto simp: settled_def intro: other_inv other_checked)
qed

lemma settled_steps: "(interleaved admits act other)\<^sup>*\<^sup>* c c' \<Longrightarrow> settled c \<Longrightarrow> settled c'"
  by (induction rule: rtranclp_induct) (auto intro: settled_step)

lemma interleaved_inv:
  assumes "(interleaved admits act other)\<^sup>*\<^sup>* (s, {#}) (s', ws)" and "inv s"
  shows "inv s'"
  using settled_steps [OF assms(1)] assms(2) by (simp add: settled_def)

end

end
