(* ===== verification/AI_Run_Lifecycle.thy ===== *)
theory AI_Run_Lifecycle
  imports Postgres Observed_Runs Check_Then_Act
begin

text \<open>
  The operational life of an AI run: \<^verbatim>\<open>services/ai_run_lifecycle.go\<close> on the table \<^verbatim>\<open>ai_runs\<close> (migrations 55, 60 and 81)
  and its methods of \<^verbatim>\<open>postgres/ai_run_trace_repository.go\<close>, with the records of \<^verbatim>\<open>ports/ai_run_trace.go\<close>. A transition
  reads the status of the run and writes the new one in a second statement, so that besides the calls made one after
  another the interleavings of such checks and writes are modelled.
\<close>

section \<open>Data\<close>

text \<open>A row of the table; a nullable column is an option.\<close>

record ai_run =
  ru_ID :: string
  ru_BusinessID :: string
  ru_ConversationID :: "string option"
  ru_MessageID :: "string option"
  ru_SourceEventID :: "string option"
  ru_IdempotencyKey :: string
  ru_AgentRole :: string
  ru_Status :: string
  ru_FailureStage :: "string option"
  ru_FailureCategory :: "string option"
  ru_FailureReason :: "string option"
  ru_GeminiInteractionID :: "string option"
  ru_PreviousInteractionID :: "string option"
  ru_StartedAt :: time
  ru_ContextBuiltAt :: "time option"
  ru_RunningStartedAt :: "time option"
  ru_WaitingToolAt :: "time option"
  ru_ValidatingAt :: "time option"
  ru_AuthorizedAt :: "time option"
  ru_ExecutingAt :: "time option"
  ru_CompletedAt :: "time option"
  ru_FailedAt :: "time option"
  ru_CancelledAt :: "time option"
  ru_CreatedAt :: time
  ru_UpdatedAt :: time

text \<open>\<^verbatim>\<open>AIRunRecord\<close>: the same with empty strings for missing texts.\<close>

record ai_run_record =
  ar_ID :: string
  ar_BusinessID :: string
  ar_ConversationID :: string
  ar_MessageID :: string
  ar_SourceEventID :: string
  ar_IdempotencyKey :: string
  ar_AgentRole :: string
  ar_Status :: string
  ar_FailureStage :: string
  ar_FailureCategory :: string
  ar_FailureReason :: string
  ar_GeminiInteractionID :: string
  ar_PreviousInteractionID :: string
  ar_StartedAt :: time
  ar_ContextBuiltAt :: "time option"
  ar_RunningStartedAt :: "time option"
  ar_WaitingToolAt :: "time option"
  ar_ValidatingAt :: "time option"
  ar_AuthorizedAt :: "time option"
  ar_ExecutingAt :: "time option"
  ar_CompletedAt :: "time option"
  ar_FailedAt :: "time option"
  ar_CancelledAt :: "time option"
  ar_CreatedAt :: time
  ar_UpdatedAt :: time

record ai_run_status_patch =
  rp_Status :: string
  rp_FailureStage :: "string option"
  rp_FailureCategory :: "string option"
  rp_FailureReason :: "string option"
  rp_GeminiInteractionID :: "string option"
  rp_PreviousInteractionID :: "string option"
  rp_ContextBuiltAt :: "time option"
  rp_RunningStartedAt :: "time option"
  rp_WaitingToolAt :: "time option"
  rp_ValidatingAt :: "time option"
  rp_AuthorizedAt :: "time option"
  rp_ExecutingAt :: "time option"
  rp_CompletedAt :: "time option"
  rp_FailedAt :: "time option"
  rp_CancelledAt :: "time option"

record start_run_input =
  si_BusinessID :: string
  si_ConversationID :: string
  si_MessageID :: string
  si_SourceEventID :: string
  si_IdempotencyKey :: string
  si_AgentRole :: string
  si_NewRunID :: string

text \<open>Of the businesses only the keys are referenced.\<close>

record ai_run_db =
  rd_Runs :: "ai_run list"
  rd_Businesses :: "string list"

text \<open>
  What a call meets: the database's environment, that the repository or its adapter is missing, a failure of its
  \<open>n\<close>-th statement, the row a \<^verbatim>\<open>LIMIT 1\<close> without an order picks, the text of an error and the quoted form \<^verbatim>\<open>%q\<close> of a string.
\<close>

record run_env =
  re_Pg :: pg_env
  re_NoRepo :: bool
  re_Unset :: bool
  re_Fault :: "nat \<Rightarrow> db_fault option"
  re_Pick :: nat
  re_ErrorText :: "go_error \<Rightarrow> string"
  re_Quote :: "string \<Rightarrow> string"

type_synonym 'a trace_run = "(ai_run_db, 'a) run"

section \<open>Statuses\<close>

definition ai_run_statuses :: "string list" where
  "ai_run_statuses = [''received'', ''context_built'', ''running'', ''waiting_tool'', ''validating'', ''authorized'',
     ''executing'', ''completed'', ''failed'', ''cancelled'']"

definition ai_run_agent_roles :: "string list" where
  "ai_run_agent_roles = [''customer_sales'', ''merchant_catalog_authoring'']"

definition is_terminal_run_status :: "string \<Rightarrow> bool" where
  "is_terminal_run_status status \<longleftrightarrow> status \<in> set [''completed'', ''failed'', ''cancelled'']"

definition failure_stages :: "string list" where
  "failure_stages = [''context_build'', ''gemini_request'', ''tool_call'', ''validation'', ''policy'', ''authorization'',
     ''execution'', ''unclassified'']"

definition failure_categories :: "string list" where
  "failure_categories = [''provider_temporary'', ''provider_permanent'', ''network'', ''timeout'', ''rate_limit'',
     ''invalid_ai_output'', ''invalid_tool_arguments'', ''tenant_violation'', ''invalid_reference'', ''policy_denial'',
     ''authorization_denial'', ''unsupported_action'', ''execution_failure'', ''infrastructure'',
     ''application_internal'', ''catalog_budget_exceeded'', ''catalog_data_error'', ''unclassified'', ''cancelled'']"

definition is_valid_failure_stage :: "string \<Rightarrow> bool" where
  "is_valid_failure_stage stage \<longleftrightarrow> stage \<in> set (failure_stages @ [''''])"

definition is_valid_failure_category :: "string \<Rightarrow> bool" where
  "is_valid_failure_category category \<longleftrightarrow> category \<in> set (failure_categories @ [''''])"

section \<open>The table\<close>

text \<open>The checks of the table, and the index that admits one unfinished run for a key.\<close>

definition run_checks :: "ai_run \<Rightarrow> bool" where
  "run_checks r \<longleftrightarrow>
     ru_Status r \<in> set ai_run_statuses \<and> ru_AgentRole r \<in> set ai_run_agent_roles \<and>
     (case ru_FailureStage r of None \<Rightarrow> True | Some s \<Rightarrow> s \<in> set failure_stages) \<and>
     (case ru_FailureCategory r of None \<Rightarrow> True | Some c \<Rightarrow> c \<in> set failure_categories)"

definition same_run_key :: "ai_run \<Rightarrow> ai_run \<Rightarrow> bool" where
  "same_run_key x r \<longleftrightarrow>
     ru_BusinessID x = ru_BusinessID r \<and> ru_IdempotencyKey x = ru_IdempotencyKey r \<and>
     \<not> is_terminal_run_status (ru_Status x) \<and> \<not> is_terminal_run_status (ru_Status r)"

definition run_insert_violated :: "ai_run_db \<Rightarrow> ai_run \<Rightarrow> string option" where
  "run_insert_violated db r =
     (if \<not> run_checks r then Some check_violation
      else if \<exists>x \<in> set (rd_Runs db). ru_ID x = ru_ID r \<or> same_run_key x r then Some unique_violation
      else if ru_BusinessID r \<notin> set (rd_Businesses db) then Some foreign_key_violation else None)"

definition run_update_violated :: "ai_run_db \<Rightarrow> ai_run \<Rightarrow> string option" where
  "run_update_violated db r =
     (if \<not> run_checks r then Some check_violation
      else if \<exists>x \<in> set (rd_Runs db). ru_ID x \<noteq> ru_ID r \<and> same_run_key x r then Some unique_violation
      else None)"

definition run_read :: "run_env \<Rightarrow> nat \<Rightarrow> (ai_run_db \<Rightarrow> 'a result) \<Rightarrow> 'a trace_run" where
  "run_read env n query db = (pg_read ((re_Pg env)\<lparr>pg_read_fault := re_Fault env n\<rparr>) query db, db)"

definition run_write :: "run_env \<Rightarrow> nat \<Rightarrow> (ai_run_db \<Rightarrow> ('a \<times> ai_run_db) result) \<Rightarrow> 'a trace_run" where
  "run_write env n stmt = pg_write ((re_Pg env)\<lparr>pg_write_fault := re_Fault env n\<rparr>) stmt"

text \<open>The opening of every method: an adapter, and an executor for the context.\<close>

definition run_method :: "run_env \<Rightarrow> 'a trace_run \<Rightarrow> 'a trace_run" where
  "run_method env body =
     (if re_Unset env then run_fail (PlainError ''postgres adapter is not configured'') else on_executor (re_Pg env) body)"

text \<open>\<^verbatim>\<open>COALESCE($n, '')\<close>, \<^verbatim>\<open>NULLIF($n, '')\<close> and \<^verbatim>\<open>COALESCE($n, column)\<close>.\<close>

definition text_or_empty :: "string option \<Rightarrow> string" where
  "text_or_empty t = (case t of None \<Rightarrow> '''' | Some s \<Rightarrow> s)"

definition null_if_empty :: "string \<Rightarrow> string option" where
  "null_if_empty s = (if s = '''' then None else Some s)"

definition coalesce :: "'a option \<Rightarrow> 'a option \<Rightarrow> 'a option" where
  "coalesce new old = (case new of None \<Rightarrow> old | Some x \<Rightarrow> Some x)"

definition scan_run :: "ai_run \<Rightarrow> ai_run_record" where
  "scan_run r =
     \<lparr>ar_ID = ru_ID r, ar_BusinessID = ru_BusinessID r, ar_ConversationID = text_or_empty (ru_ConversationID r),
      ar_MessageID = text_or_empty (ru_MessageID r), ar_SourceEventID = text_or_empty (ru_SourceEventID r),
      ar_IdempotencyKey = ru_IdempotencyKey r, ar_AgentRole = ru_AgentRole r, ar_Status = ru_Status r,
      ar_FailureStage = text_or_empty (ru_FailureStage r), ar_FailureCategory = text_or_empty (ru_FailureCategory r),
      ar_FailureReason = text_or_empty (ru_FailureReason r),
      ar_GeminiInteractionID = text_or_empty (ru_GeminiInteractionID r),
      ar_PreviousInteractionID = text_or_empty (ru_PreviousInteractionID r),
      ar_StartedAt = ru_StartedAt r, ar_ContextBuiltAt = ru_ContextBuiltAt r,
      ar_RunningStartedAt = ru_RunningStartedAt r, ar_WaitingToolAt = ru_WaitingToolAt r,
      ar_ValidatingAt = ru_ValidatingAt r, ar_AuthorizedAt = ru_AuthorizedAt r, ar_ExecutingAt = ru_ExecutingAt r,
      ar_CompletedAt = ru_CompletedAt r, ar_FailedAt = ru_FailedAt r, ar_CancelledAt = ru_CancelledAt r,
      ar_CreatedAt = ru_CreatedAt r, ar_UpdatedAt = ru_UpdatedAt r\<rparr>"

abbreviation is_run :: "string \<Rightarrow> string \<Rightarrow> ai_run \<Rightarrow> bool" where
  "is_run b i r \<equiv> ru_BusinessID r = b \<and> ru_ID r = i"

definition no_rows_or_wrapped :: "string \<Rightarrow> go_error \<Rightarrow> go_error" where
  "no_rows_or_wrapped text e = (if is_no_rows e then ErrNoRows else Wrapped text e)"

definition get_run :: "run_env \<Rightarrow> nat \<Rightarrow> string \<Rightarrow> string \<Rightarrow> ai_run_record trace_run" where
  "get_run env n businessID runID =
     run_method env (on_error (no_rows_or_wrapped ''scan ai_run'')
       (run_read env n (\<lambda>db. with_uuid (re_Pg env) businessID (\<lambda>b.
          case select_one (is_run b runID) (rd_Runs db) of Inl e \<Rightarrow> Inl e | Inr r \<Rightarrow> Inr (scan_run r)))))"

definition get_by_idempotency_key :: "run_env \<Rightarrow> nat \<Rightarrow> string \<Rightarrow> string \<Rightarrow> ai_run_record trace_run" where
  "get_by_idempotency_key env n businessID key =
     run_method env (run_bind (on_error (no_rows_or_wrapped ''get by idempotency'')
       (run_read env n (\<lambda>db. with_uuid (re_Pg env) businessID (\<lambda>b.
          let found = filter (\<lambda>r. ru_BusinessID r = b \<and> ru_IdempotencyKey r = key) (rd_Runs db) in
          if found = [] then Inl ErrNoRows else Inr (ru_ID (found ! (re_Pick env mod length found)))))))
       (\<lambda>i. get_run env (n + 1) businessID i))"

text \<open>\<^verbatim>\<open>contains\<close> of the file, a search in the text of the error, and the test for a duplicate that is built on it.\<close>

fun index_of_sub :: "string \<Rightarrow> string \<Rightarrow> int" where
  "index_of_sub [] sub = (if sub = [] then 0 else -1)"
| "index_of_sub (c # s) sub =
     (if take (length sub) (c # s) = sub then 0
      else let k = index_of_sub s sub in if k < 0 then -1 else k + 1)"

definition contains_sub :: "string \<Rightarrow> string \<Rightarrow> bool" where
  "contains_sub s sub \<longleftrightarrow> length sub > 0 \<and> length s \<ge> length sub \<and> index_of_sub s sub \<ge> 0"

definition is_postgres_unique_violation :: "run_env \<Rightarrow> go_error \<Rightarrow> bool" where
  "is_postgres_unique_violation env e \<longleftrightarrow>
     contains_sub (re_ErrorText env e) ''23505'' \<or> contains_sub (re_ErrorText env e) ''unique constraint''"

definition err_idempotency_violation :: go_error where
  "err_idempotency_violation =
     PlainError (''idempotency violation: AI Run already exists for this source event per contract '' @
       map char_of [226, 145, 168 :: nat] @ '' '' @ map char_of [194, 167 :: nat] @ ''16'')"

text \<open>A text cast to \<^verbatim>\<open>uuid\<close> where an empty one is \<^verbatim>\<open>NULL\<close>.\<close>

definition with_optional_uuid :: "pg_env \<Rightarrow> string \<Rightarrow> (string option \<Rightarrow> 'a result) \<Rightarrow> 'a result" where
  "with_optional_uuid env s k = (if s = '''' then k None else with_uuid env s (\<lambda>u. k (Some u)))"

definition run_row :: "run_env \<Rightarrow> ai_run_record \<Rightarrow> string \<Rightarrow> string \<Rightarrow> string option \<Rightarrow> string option \<Rightarrow> ai_run" where
  "run_row env run i b conversation source =
     \<lparr>ru_ID = i, ru_BusinessID = b, ru_ConversationID = conversation, ru_MessageID = null_if_empty (ar_MessageID run),
      ru_SourceEventID = source, ru_IdempotencyKey = ar_IdempotencyKey run, ru_AgentRole = ar_AgentRole run,
      ru_Status = ar_Status run, ru_FailureStage = None, ru_FailureCategory = None, ru_FailureReason = None,
      ru_GeminiInteractionID = None, ru_PreviousInteractionID = None,
      ru_StartedAt = pg_ts (re_Pg env) (ar_StartedAt run), ru_ContextBuiltAt = None, ru_RunningStartedAt = None,
      ru_WaitingToolAt = None, ru_ValidatingAt = None, ru_AuthorizedAt = None, ru_ExecutingAt = None,
      ru_CompletedAt = None, ru_FailedAt = None, ru_CancelledAt = None,
      ru_CreatedAt = pg_ts (re_Pg env) (ar_CreatedAt run), ru_UpdatedAt = pg_ts (re_Pg env) (ar_UpdatedAt run)\<rparr>"

definition insert_run :: "run_env \<Rightarrow> ai_run_record \<Rightarrow> ai_run_db \<Rightarrow> (unit \<times> ai_run_db) result" where
  "insert_run env run db =
     with_uuid (re_Pg env) (ar_ID run) (\<lambda>i. with_uuid (re_Pg env) (ar_BusinessID run) (\<lambda>b.
       with_optional_uuid (re_Pg env) (ar_ConversationID run) (\<lambda>conversation.
       with_optional_uuid (re_Pg env) (ar_SourceEventID run) (\<lambda>source.
         let row = run_row env run i b conversation source in
         case run_insert_violated db row of
           Some code \<Rightarrow> Inl (PgError code)
         | None \<Rightarrow> Inr ((), db\<lparr>rd_Runs := rd_Runs db @ [row]\<rparr>)))))"

definition create_run :: "run_env \<Rightarrow> nat \<Rightarrow> ai_run_record \<Rightarrow> ai_run_record trace_run" where
  "create_run env n run =
     run_method env
       (if ar_ID run = '''' \<or> ar_BusinessID run = '''' \<or> ar_IdempotencyKey run = '''' \<or> ar_AgentRole run = '''' \<or>
           ar_Status run = ''''
        then run_fail (invalid_repository_input ''ai_runs.create''
               ''id, business_id, idempotency_key, agent_role, status are required'')
        else run_bind
          (on_error (\<lambda>e. if is_postgres_unique_violation env e then err_idempotency_violation
                         else Wrapped ''insert ai_run'' e)
             (run_write env n (insert_run env run)))
          (\<lambda>_. get_run env (n + 1) (ar_BusinessID run) (ar_ID run)))"

definition patch_run :: "run_env \<Rightarrow> ai_run_status_patch \<Rightarrow> ai_run \<Rightarrow> ai_run" where
  "patch_run env p r =
     (let at = (\<lambda>t old. coalesce (map_option (pg_ts (re_Pg env)) t) old) in
      r\<lparr>ru_Status := rp_Status p,
        ru_FailureStage := coalesce (rp_FailureStage p) (ru_FailureStage r),
        ru_FailureCategory := coalesce (rp_FailureCategory p) (ru_FailureCategory r),
        ru_FailureReason := coalesce (rp_FailureReason p) (ru_FailureReason r),
        ru_GeminiInteractionID := coalesce (rp_GeminiInteractionID p) (ru_GeminiInteractionID r),
        ru_PreviousInteractionID := coalesce (rp_PreviousInteractionID p) (ru_PreviousInteractionID r),
        ru_ContextBuiltAt := at (rp_ContextBuiltAt p) (ru_ContextBuiltAt r),
        ru_RunningStartedAt := at (rp_RunningStartedAt p) (ru_RunningStartedAt r),
        ru_WaitingToolAt := at (rp_WaitingToolAt p) (ru_WaitingToolAt r),
        ru_ValidatingAt := at (rp_ValidatingAt p) (ru_ValidatingAt r),
        ru_AuthorizedAt := at (rp_AuthorizedAt p) (ru_AuthorizedAt r),
        ru_ExecutingAt := at (rp_ExecutingAt p) (ru_ExecutingAt r),
        ru_CompletedAt := at (rp_CompletedAt p) (ru_CompletedAt r),
        ru_FailedAt := at (rp_FailedAt p) (ru_FailedAt r),
        ru_CancelledAt := at (rp_CancelledAt p) (ru_CancelledAt r),
        ru_UpdatedAt := pg_now (re_Pg env)\<rparr>)"

text \<open>The statement returns the number of rows it changed.\<close>

definition update_run :: "run_env \<Rightarrow> string \<Rightarrow> string \<Rightarrow> ai_run_status_patch \<Rightarrow> ai_run_db \<Rightarrow> (nat \<times> ai_run_db) result" where
  "update_run env businessID runID p db =
     with_uuid (re_Pg env) businessID (\<lambda>b.
       case find (is_run b runID) (rd_Runs db) of
         None \<Rightarrow> Inr (0, db)
       | Some r \<Rightarrow>
           (case run_update_violated db (patch_run env p r) of
              Some code \<Rightarrow> Inl (PgError code)
            | None \<Rightarrow> Inr (1, db\<lparr>rd_Runs := update_where (is_run b runID) (patch_run env p) (rd_Runs db)\<rparr>)))"

definition update_run_status :: "run_env \<Rightarrow> nat \<Rightarrow> string \<Rightarrow> string \<Rightarrow> ai_run_status_patch \<Rightarrow> ai_run_record trace_run" where
  "update_run_status env n businessID runID p =
     run_method env
       (if rp_Status p = '''' then run_fail (invalid_repository_input ''ai_runs.update'' ''status is required'')
        else run_bind (on_error (Wrapped ''update ai_run'') (run_write env n (update_run env businessID runID p)))
          (\<lambda>affected. if affected = 0 then run_fail ErrNoRows else get_run env (n + 1) businessID runID))"

section \<open>The service\<close>

definition no_patch :: "string \<Rightarrow> ai_run_status_patch" where
  "no_patch status =
     \<lparr>rp_Status = status, rp_FailureStage = None, rp_FailureCategory = None, rp_FailureReason = None,
      rp_GeminiInteractionID = None, rp_PreviousInteractionID = None, rp_ContextBuiltAt = None,
      rp_RunningStartedAt = None, rp_WaitingToolAt = None, rp_ValidatingAt = None, rp_AuthorizedAt = None,
      rp_ExecutingAt = None, rp_CompletedAt = None, rp_FailedAt = None, rp_CancelledAt = None\<rparr>"

definition received_run :: "run_env \<Rightarrow> start_run_input \<Rightarrow> ai_run_record" where
  "received_run env input =
     (let now = go_now (re_Pg env) in
      \<lparr>ar_ID = si_NewRunID input, ar_BusinessID = si_BusinessID input, ar_ConversationID = si_ConversationID input,
       ar_MessageID = si_MessageID input, ar_SourceEventID = si_SourceEventID input,
       ar_IdempotencyKey = si_IdempotencyKey input, ar_AgentRole = si_AgentRole input, ar_Status = ''received'',
       ar_FailureStage = '''', ar_FailureCategory = '''', ar_FailureReason = '''', ar_GeminiInteractionID = '''',
       ar_PreviousInteractionID = '''', ar_StartedAt = now, ar_ContextBuiltAt = None, ar_RunningStartedAt = None,
       ar_WaitingToolAt = None, ar_ValidatingAt = None, ar_AuthorizedAt = None, ar_ExecutingAt = None,
       ar_CompletedAt = None, ar_FailedAt = None, ar_CancelledAt = None, ar_CreatedAt = now, ar_UpdatedAt = now\<rparr>)"

definition start_run :: "run_env \<Rightarrow> start_run_input \<Rightarrow> ai_run_record trace_run" where
  "start_run env input db =
     (if blank (si_BusinessID input) \<or> blank (si_IdempotencyKey input)
      then run_fail (PlainError ''business_id and idempotency_key are required to start an AI Run'') db
      else if si_AgentRole input \<noteq> ''customer_sales'' \<and> si_AgentRole input \<noteq> ''merchant_catalog_authoring''
      then run_fail (PlainError (''unsupported agent_role '' @ re_Quote env (si_AgentRole input) @ '' per contract 11'')) db
      else if re_NoRepo env then run_fail (PlainError ''AI Run repository is not configured'') db
      else (case get_by_idempotency_key env 0 (si_BusinessID input) (si_IdempotencyKey input) db of
              (Inr existing, db') \<Rightarrow>
                if ar_ID existing \<noteq> '''' \<and> \<not> is_terminal_run_status (ar_Status existing)
                then (Inr existing, db') else create_run env 2 (received_run env input) db'
            | (Inl _, db') \<Rightarrow> create_run env 2 (received_run env input) db'))"

definition illegal_transition :: "string \<Rightarrow> string \<Rightarrow> string list \<Rightarrow> go_error" where
  "illegal_transition status target allowed =
     PlainError (''illegal AI Run transition: '' @ status @ '' '' @ map char_of [226, 134, 146 :: nat] @ '' '' @ target @
       '' (allowed from ['' @ concat (case allowed of [] \<Rightarrow> [] | a # as \<Rightarrow> a # map (\<lambda>s. '' '' @ s) as) @
       '']) per contract '' @ map char_of [226, 145, 168 :: nat] @ '' '' @ map char_of [194, 167 :: nat] @ ''26'')"

text \<open>The part of \<^verbatim>\<open>transition\<close> that comes before its write.\<close>

definition transition_check ::
  "run_env \<Rightarrow> string \<Rightarrow> string \<Rightarrow> ai_run_status_patch \<Rightarrow> string list \<Rightarrow> unit trace_run" where
  "transition_check env businessID runID p allowed =
     (if re_NoRepo env then run_fail (PlainError ''AI Run repository is not configured'')
      else run_bind (get_run env 0 businessID runID)
        (\<lambda>run. if ar_Status run \<in> set allowed then run_return ()
               else run_fail (illegal_transition (ar_Status run) (rp_Status p) allowed)))"

definition transition ::
  "run_env \<Rightarrow> string \<Rightarrow> string \<Rightarrow> ai_run_status_patch \<Rightarrow> string list \<Rightarrow> ai_run_record trace_run" where
  "transition env businessID runID p allowed =
     run_bind (transition_check env businessID runID p allowed) (\<lambda>_. update_run_status env 1 businessID runID p)"

abbreviation now_of :: "run_env \<Rightarrow> time" where
  "now_of env \<equiv> go_now (re_Pg env)"

definition mark_context_built :: "run_env \<Rightarrow> string \<Rightarrow> string \<Rightarrow> ai_run_record trace_run" where
  "mark_context_built env businessID runID =
     transition env businessID runID ((no_patch ''context_built'')\<lparr>rp_ContextBuiltAt := Some (now_of env)\<rparr>) [''received'']"

definition mark_running :: "run_env \<Rightarrow> string \<Rightarrow> string \<Rightarrow> ai_run_record trace_run" where
  "mark_running env businessID runID =
     transition env businessID runID ((no_patch ''running'')\<lparr>rp_RunningStartedAt := Some (now_of env)\<rparr>)
       [''context_built'', ''waiting_tool'']"

definition mark_validating :: "run_env \<Rightarrow> string \<Rightarrow> string \<Rightarrow> ai_run_record trace_run" where
  "mark_validating env businessID runID =
     transition env businessID runID ((no_patch ''validating'')\<lparr>rp_ValidatingAt := Some (now_of env)\<rparr>) [''running'']"

definition mark_authorized :: "run_env \<Rightarrow> string \<Rightarrow> string \<Rightarrow> ai_run_record trace_run" where
  "mark_authorized env businessID runID =
     transition env businessID runID ((no_patch ''authorized'')\<lparr>rp_AuthorizedAt := Some (now_of env)\<rparr>) [''validating'']"

definition mark_executing :: "run_env \<Rightarrow> string \<Rightarrow> string \<Rightarrow> ai_run_record trace_run" where
  "mark_executing env businessID runID =
     transition env businessID runID ((no_patch ''executing'')\<lparr>rp_ExecutingAt := Some (now_of env)\<rparr>) [''authorized'']"

definition mark_completed_run :: "run_env \<Rightarrow> string \<Rightarrow> string \<Rightarrow> ai_run_record trace_run" where
  "mark_completed_run env businessID runID =
     transition env businessID runID ((no_patch ''completed'')\<lparr>rp_CompletedAt := Some (now_of env)\<rparr>)
       [''executing'', ''validating'', ''authorized'']"

definition cancel_before_model :: "run_env \<Rightarrow> string \<Rightarrow> string \<Rightarrow> ai_run_record trace_run" where
  "cancel_before_model env businessID runID =
     transition env businessID runID ((no_patch ''cancelled'')\<lparr>rp_CancelledAt := Some (now_of env)\<rparr>)
       [''received'', ''context_built'']"

definition unfinished_statuses :: "string list" where
  "unfinished_statuses =
     [''received'', ''context_built'', ''running'', ''waiting_tool'', ''validating'', ''authorized'', ''executing'']"

definition mark_failed_run ::
  "run_env \<Rightarrow> string \<Rightarrow> string \<Rightarrow> string \<Rightarrow> string \<Rightarrow> string \<Rightarrow> ai_run_record trace_run" where
  "mark_failed_run env businessID runID stage category reason =
     (if \<not> is_valid_failure_stage stage then run_fail (PlainError (''invalid failure_stage '' @ re_Quote env stage))
      else if \<not> is_valid_failure_category category
      then run_fail (PlainError (''invalid failure_category '' @ re_Quote env category))
      else transition env businessID runID
             ((no_patch ''failed'')\<lparr>rp_FailureStage := Some stage, rp_FailureCategory := Some category,
                rp_FailureReason := Some reason, rp_FailedAt := Some (now_of env)\<rparr>)
             unfinished_statuses)"

text \<open>The calls on the service, and their execution one after another.\<close>

datatype lifecycle_call =
    MarkContextBuilt string string
  | MarkRunning string string
  | MarkValidating string string
  | MarkAuthorized string string
  | MarkExecuting string string
  | MarkCompleted string string
  | CancelBeforeModel string string
  | MarkFailed string string string string string

datatype lifecycle_op = StartRun start_run_input | Move lifecycle_call

primrec exec_call :: "run_env \<Rightarrow> lifecycle_call \<Rightarrow> ai_run_record trace_run" where
  "exec_call env (MarkContextBuilt b i) = mark_context_built env b i"
| "exec_call env (MarkRunning b i) = mark_running env b i"
| "exec_call env (MarkValidating b i) = mark_validating env b i"
| "exec_call env (MarkAuthorized b i) = mark_authorized env b i"
| "exec_call env (MarkExecuting b i) = mark_executing env b i"
| "exec_call env (MarkCompleted b i) = mark_completed_run env b i"
| "exec_call env (CancelBeforeModel b i) = cancel_before_model env b i"
| "exec_call env (MarkFailed b i stage category reason) = mark_failed_run env b i stage category reason"

primrec exec_op :: "run_env \<Rightarrow> lifecycle_op \<Rightarrow> ai_run_record trace_run" where
  "exec_op env (StartRun input) = start_run env input"
| "exec_op env (Move call) = exec_call env call"

fun exec_ops :: "(run_env \<times> lifecycle_op) list \<Rightarrow> ai_run_db \<Rightarrow> ai_run_db" where
  "exec_ops [] db = db"
| "exec_ops ((env, op) # ops) db = exec_ops ops (snd (exec_op env op db))"

text \<open>The same call as a check and a write, between which other calls may come.\<close>

primrec call_run :: "lifecycle_call \<Rightarrow> string \<times> string" where
  "call_run (MarkContextBuilt b i) = (b, i)"
| "call_run (MarkRunning b i) = (b, i)"
| "call_run (MarkValidating b i) = (b, i)"
| "call_run (MarkAuthorized b i) = (b, i)"
| "call_run (MarkExecuting b i) = (b, i)"
| "call_run (MarkCompleted b i) = (b, i)"
| "call_run (CancelBeforeModel b i) = (b, i)"
| "call_run (MarkFailed b i stage category reason) = (b, i)"

primrec call_patch :: "time \<Rightarrow> lifecycle_call \<Rightarrow> ai_run_status_patch" where
  "call_patch now (MarkContextBuilt b i) = (no_patch ''context_built'')\<lparr>rp_ContextBuiltAt := Some now\<rparr>"
| "call_patch now (MarkRunning b i) = (no_patch ''running'')\<lparr>rp_RunningStartedAt := Some now\<rparr>"
| "call_patch now (MarkValidating b i) = (no_patch ''validating'')\<lparr>rp_ValidatingAt := Some now\<rparr>"
| "call_patch now (MarkAuthorized b i) = (no_patch ''authorized'')\<lparr>rp_AuthorizedAt := Some now\<rparr>"
| "call_patch now (MarkExecuting b i) = (no_patch ''executing'')\<lparr>rp_ExecutingAt := Some now\<rparr>"
| "call_patch now (MarkCompleted b i) = (no_patch ''completed'')\<lparr>rp_CompletedAt := Some now\<rparr>"
| "call_patch now (CancelBeforeModel b i) = (no_patch ''cancelled'')\<lparr>rp_CancelledAt := Some now\<rparr>"
| "call_patch now (MarkFailed b i stage category reason) =
     (no_patch ''failed'')\<lparr>rp_FailureStage := Some stage, rp_FailureCategory := Some category,
        rp_FailureReason := Some reason, rp_FailedAt := Some now\<rparr>"

primrec call_from :: "lifecycle_call \<Rightarrow> string list" where
  "call_from (MarkContextBuilt b i) = [''received'']"
| "call_from (MarkRunning b i) = [''context_built'', ''waiting_tool'']"
| "call_from (MarkValidating b i) = [''running'']"
| "call_from (MarkAuthorized b i) = [''validating'']"
| "call_from (MarkExecuting b i) = [''authorized'']"
| "call_from (MarkCompleted b i) = [''executing'', ''validating'', ''authorized'']"
| "call_from (CancelBeforeModel b i) = [''received'', ''context_built'']"
| "call_from (MarkFailed b i stage category reason) = unfinished_statuses"

primrec call_failure :: "run_env \<Rightarrow> lifecycle_call \<Rightarrow> go_error option" where
  "call_failure env (MarkContextBuilt b i) = None"
| "call_failure env (MarkRunning b i) = None"
| "call_failure env (MarkValidating b i) = None"
| "call_failure env (MarkAuthorized b i) = None"
| "call_failure env (MarkExecuting b i) = None"
| "call_failure env (MarkCompleted b i) = None"
| "call_failure env (CancelBeforeModel b i) = None"
| "call_failure env (MarkFailed b i stage category reason) =
     (if \<not> is_valid_failure_stage stage then Some (PlainError (''invalid failure_stage '' @ re_Quote env stage))
      else if \<not> is_valid_failure_category category
      then Some (PlainError (''invalid failure_category '' @ re_Quote env category)) else None)"

definition check_call :: "run_env \<Rightarrow> lifecycle_call \<Rightarrow> unit trace_run" where
  "check_call env call =
     (case call_failure env call of
        Some e \<Rightarrow> run_fail e
      | None \<Rightarrow> transition_check env (fst (call_run call)) (snd (call_run call)) (call_patch (now_of env) call) (call_from call))"

definition write_call :: "run_env \<Rightarrow> lifecycle_call \<Rightarrow> ai_run_record trace_run" where
  "write_call env call =
     update_run_status env 1 (fst (call_run call)) (snd (call_run call)) (call_patch (now_of env) call)"

definition call_admitted :: "ai_run_db \<Rightarrow> run_env \<times> lifecycle_call \<Rightarrow> bool" where
  "call_admitted db w = (fst (check_call (fst w) (snd w) db) = Inr ())"

definition call_written :: "run_env \<times> lifecycle_call \<Rightarrow> ai_run_db \<Rightarrow> ai_run_db" where
  "call_written w db = snd (write_call (fst w) (snd w) db)"

definition run_inserted :: "ai_run_db \<Rightarrow> ai_run_db \<Rightarrow> bool" where
  "run_inserted db db' \<longleftrightarrow> (\<exists>env input. db' = snd (create_run env 2 (received_run env input) db))"

abbreviation lifecycle_step ::
  "ai_run_db \<times> (run_env \<times> lifecycle_call) multiset \<Rightarrow> ai_run_db \<times> (run_env \<times> lifecycle_call) multiset \<Rightarrow> bool" where
  "lifecycle_step \<equiv> interleaved call_admitted call_written run_inserted"

section \<open>Specification\<close>

text \<open>The transitions of the contract, and the machine that makes them on the statuses of the runs.\<close>

inductive run_edge :: "string \<Rightarrow> string \<Rightarrow> bool" where
  build: "run_edge ''received'' ''context_built''"
| run: "run_edge ''context_built'' ''running''"
| tool_return: "run_edge ''waiting_tool'' ''running''"
| validate: "run_edge ''running'' ''validating''"
| authorize: "run_edge ''validating'' ''authorized''"
| execute: "run_edge ''authorized'' ''executing''"
| complete: "a \<in> {''executing'', ''validating'', ''authorized''} \<Longrightarrow> run_edge a ''completed''"
| cancel: "a \<in> {''received'', ''context_built''} \<Longrightarrow> run_edge a ''cancelled''"
| fail: "a \<in> set unfinished_statuses \<Longrightarrow> run_edge a ''failed''"

inductive_simps run_edge_iff: "run_edge a b"

inductive run_machine :: "(string \<rightharpoonup> string) \<Rightarrow> (string \<rightharpoonup> string) \<Rightarrow> bool" where
  start: "m i = None \<Longrightarrow> run_machine m (m(i \<mapsto> ''received''))"
| move: "m i = Some a \<Longrightarrow> run_edge a b \<Longrightarrow> run_machine m (m(i \<mapsto> b))"

definition run_statuses :: "ai_run_db \<Rightarrow> string \<Rightarrow> string option" where
  "run_statuses db i = map_option ru_Status (find (\<lambda>r. ru_ID r = i) (rd_Runs db))"

text \<open>A stage is stamped only after the stages before it.\<close>

definition stamps_in_order :: "ai_run \<Rightarrow> bool" where
  "stamps_in_order r \<longleftrightarrow>
     (ru_RunningStartedAt r = None \<or> ru_ContextBuiltAt r \<noteq> None) \<and>
     (ru_ValidatingAt r = None \<or> ru_RunningStartedAt r \<noteq> None) \<and>
     (ru_AuthorizedAt r = None \<or> ru_ValidatingAt r \<noteq> None) \<and>
     (ru_ExecutingAt r = None \<or> ru_AuthorizedAt r \<noteq> None)"

definition status_stamped :: "ai_run \<Rightarrow> bool" where
  "status_stamped r \<longleftrightarrow>
     (if ru_Status r = ''context_built'' then ru_ContextBuiltAt r \<noteq> None
      else if ru_Status r = ''running'' \<or> ru_Status r = ''waiting_tool'' then ru_RunningStartedAt r \<noteq> None
      else if ru_Status r = ''validating'' then ru_ValidatingAt r \<noteq> None
      else if ru_Status r = ''authorized'' then ru_AuthorizedAt r \<noteq> None
      else if ru_Status r = ''executing'' then ru_ExecutingAt r \<noteq> None
      else if ru_Status r = ''completed'' then ru_ValidatingAt r \<noteq> None \<and> ru_CompletedAt r \<noteq> None
      else if ru_Status r = ''failed''
      then ru_FailedAt r \<noteq> None \<and> ru_FailureReason r \<noteq> None \<and>
           ru_FailureStage r \<in> set (map Some failure_stages) \<and> ru_FailureCategory r \<in> set (map Some failure_categories)
      else if ru_Status r = ''cancelled'' then ru_CancelledAt r \<noteq> None
      else ru_Status r = ''received'')"

abbreviation run_ok :: "ai_run \<Rightarrow> bool" where
  "run_ok r \<equiv> stamps_in_order r \<and> status_stamped r"

definition runs_ok :: "ai_run_db \<Rightarrow> bool" where
  "runs_ok db \<longleftrightarrow>
     distinct (map ru_ID (rd_Runs db)) \<and> (\<forall>r \<in> set (rd_Runs db). run_ok r) \<and>
     (\<forall>r \<in> set (rd_Runs db). \<forall>x \<in> set (rd_Runs db). same_run_key x r \<longrightarrow> x = r)"

section \<open>Effects of the statements\<close>

lemma snd_run_read [simp]: "snd (run_read env n q db) = db"
  by (simp add: run_read_def)

lemma run_read_Inr: "run_read env n q db = (Inr x, db') \<longleftrightarrow> re_Fault env n = None \<and> q db = Inr x \<and> db' = db"
  by (auto simp: run_read_def pg_read_def split: option.splits)

lemma snd_run_method: "snd (run_method env body db) = db \<or> run_method env body db = body db"
  by (simp add: run_method_def run_fail_def on_executor_def split: option.splits)

lemma snd_get_run [simp]: "snd (get_run env n b i db) = db"
  by (simp add: get_run_def run_method_def run_fail_def on_executor_def split: option.splits)

lemma get_run_Inr:
  "get_run env n b i db = (Inr rec, db') \<Longrightarrow>
     \<exists>u r. pg_uuid (re_Pg env) b = Some u \<and> find (is_run u i) (rd_Runs db) = Some r \<and> rec = scan_run r \<and> db' = db"
  by (auto simp: get_run_def run_method_def run_fail_def on_executor_def on_error_Inr run_read_Inr with_uuid_Inr
      select_one_def split: option.splits if_splits)

lemma snd_get_by_idempotency_key [simp]: "snd (get_by_idempotency_key env n b k db) = db"
  by (simp add: get_by_idempotency_key_def run_method_def run_fail_def on_executor_def snd_run_bind_reader
      split: option.splits)

lemma run_write_effect: "snd (run_write env n stmt db) = db \<or> (\<exists>x. stmt db = Inr (x, snd (run_write env n stmt db)))"
  unfolding run_write_def by (metis pg_write_cases prod.collapse)

lemma create_run_effect:
  "snd (create_run env n run db) = db \<or> insert_run env run db = Inr ((), snd (create_run env n run db))"
proof -
  let ?w = "on_error (\<lambda>e. if is_postgres_unique_violation env e then err_idempotency_violation
                         else Wrapped ''insert ai_run'' e) (run_write env n (insert_run env run)) db"
  have "snd (create_run env n run db) = db \<or> snd (create_run env n run db) = snd ?w"
    by (simp add: create_run_def run_method_def run_fail_def on_executor_def snd_run_bind_reader split: option.splits)
  then show ?thesis using run_write_effect [of env n "insert_run env run" db] by auto
qed

lemma update_run_status_effect:
  "snd (update_run_status env n b i p db) = db \<or>
   (\<exists>k. update_run env b i p db = Inr (k, snd (update_run_status env n b i p db)))"
proof -
  let ?w = "on_error (Wrapped ''update ai_run'') (run_write env n (update_run env b i p)) db"
  have "snd (update_run_status env n b i p db) = db \<or> snd (update_run_status env n b i p db) = snd ?w"
    by (simp add: update_run_status_def run_method_def run_fail_def on_executor_def snd_run_bind_reader split: option.splits)
  then show ?thesis using run_write_effect [of env n "update_run env b i p" db] by auto
qed

lemma insert_run_Inr:
  "insert_run env run db = Inr ((), db') \<Longrightarrow>
     \<exists>i b c s. run_insert_violated db (run_row env run i b c s) = None \<and>
               db' = db\<lparr>rd_Runs := rd_Runs db @ [run_row env run i b c s]\<rparr>"
  by (auto simp: insert_run_def with_optional_uuid_def with_uuid_Inr Let_def split: option.splits if_splits)

lemma update_run_Inr:
  "update_run env b i p db = Inr (k, db') \<Longrightarrow>
     db' = db \<or>
     (\<exists>u r. pg_uuid (re_Pg env) b = Some u \<and> find (is_run u i) (rd_Runs db) = Some r \<and>
            run_update_violated db (patch_run env p r) = None \<and>
            db' = db\<lparr>rd_Runs := update_where (is_run u i) (patch_run env p) (rd_Runs db)\<rparr>)"
  by (auto simp: update_run_def with_uuid_Inr split: option.splits)

lemma exec_call_split: "exec_call env call = run_bind (check_call env call) (\<lambda>_. write_call env call)"
  by (cases call)
     (simp_all add: check_call_def write_call_def transition_def mark_context_built_def mark_running_def
       mark_validating_def mark_authorized_def mark_executing_def mark_completed_run_def cancel_before_model_def
       mark_failed_run_def fun_eq_iff run_bind_def run_fail_def)

section \<open>Checks and writes\<close>

text \<open>What a check finds, and what of it no other call can undo.\<close>

primrec stage_before :: "lifecycle_call \<Rightarrow> ai_run \<Rightarrow> bool" where
  "stage_before (MarkContextBuilt b i) r = True"
| "stage_before (MarkRunning b i) r = (ru_ContextBuiltAt r \<noteq> None)"
| "stage_before (MarkValidating b i) r = (ru_RunningStartedAt r \<noteq> None)"
| "stage_before (MarkAuthorized b i) r = (ru_ValidatingAt r \<noteq> None)"
| "stage_before (MarkExecuting b i) r = (ru_AuthorizedAt r \<noteq> None)"
| "stage_before (MarkCompleted b i) r = (ru_ValidatingAt r \<noteq> None)"
| "stage_before (CancelBeforeModel b i) r = True"
| "stage_before (MarkFailed b i stage category reason) r = True"

definition target_of :: "run_env \<Rightarrow> lifecycle_call \<Rightarrow> ai_run \<Rightarrow> bool" where
  "target_of env call r \<longleftrightarrow> pg_uuid (re_Pg env) (fst (call_run call)) = Some (ru_BusinessID r) \<and> ru_ID r = snd (call_run call)"

definition call_checked :: "ai_run_db \<Rightarrow> run_env \<times> lifecycle_call \<Rightarrow> bool" where
  "call_checked db w \<longleftrightarrow> (\<exists>r \<in> set (rd_Runs db). target_of (fst w) (snd w) r \<and> stage_before (snd w) r)"

lemma check_call_Inr:
  assumes "fst (check_call env call db) = Inr ()"
  shows "\<exists>r \<in> set (rd_Runs db). target_of env call r \<and> ru_Status r \<in> set (call_from call)"
proof -
  obtain rec db' where "get_run env 0 (fst (call_run call)) (snd (call_run call)) db = (Inr rec, db')"
      and st: "ar_Status rec \<in> set (call_from call)"
    using assms
    by (auto simp: check_call_def transition_check_def run_bind_def run_fail_def run_return_def
        split: option.splits prod.splits sum.splits if_splits)
  then obtain u r where "pg_uuid (re_Pg env) (fst (call_run call)) = Some u"
      and f: "find (is_run u (snd (call_run call))) (rd_Runs db) = Some r" and "rec = scan_run r"
    using get_run_Inr by blast
  with st show ?thesis by (auto simp: target_of_def scan_run_def find_Some_iff intro!: bexI [of _ r])
qed

lemma snd_check_call [simp]: "snd (check_call env call db) = db"
  by (simp add: check_call_def transition_check_def run_fail_def run_return_def snd_run_bind_reader split: option.splits)

lemma stage_before_status:
  "run_ok r \<Longrightarrow> ru_Status r \<in> set (call_from call) \<Longrightarrow> stage_before call r"
  by (cases call) (auto simp: stamps_in_order_def status_stamped_def split: if_splits)

lemma coalesce_simps [simp]: "coalesce (Some x) old = Some x" "coalesce None old = old"
  by (simp_all add: coalesce_def)

lemma coalesce_None [simp]: "coalesce new old = None \<longleftrightarrow> new = None \<and> old = None"
  by (simp add: coalesce_def split: option.splits)

lemma patch_run_key [simp]:
  "ru_ID (patch_run env p r) = ru_ID r" "ru_BusinessID (patch_run env p r) = ru_BusinessID r"
  "ru_IdempotencyKey (patch_run env p r) = ru_IdempotencyKey r" "ru_Status (patch_run env p r) = rp_Status p"
  by (simp_all add: patch_run_def Let_def)

lemma stage_before_patch: "stage_before call r \<Longrightarrow> stage_before call (patch_run env p r)"
  by (cases call) (auto simp: patch_run_def Let_def)

lemma target_of_patch [simp]: "target_of env call (patch_run e p r) = target_of env call r"
  by (simp add: target_of_def)

lemma patch_run_ok:
  assumes "run_ok r" and "stage_before call r" and "run_checks (patch_run env (call_patch (now_of env) call) r)"
  shows "run_ok (patch_run env (call_patch (now_of env) call) r)"
proof
  show "stamps_in_order (patch_run env (call_patch (now_of env) call) r)"
    using assms(1,2) by (cases call) (auto simp: patch_run_def no_patch_def stamps_in_order_def)
  show "status_stamped (patch_run env (call_patch (now_of env) call) r)"
    using assms(2,3) by (cases call) (simp_all add: patch_run_def no_patch_def status_stamped_def run_checks_def)
qed

lemma write_call_effect:
  assumes "call_written (env, call) db \<noteq> db"
  shows "\<exists>u r. pg_uuid (re_Pg env) (fst (call_run call)) = Some u \<and>
     find (is_run u (snd (call_run call))) (rd_Runs db) = Some r \<and>
     run_update_violated db (patch_run env (call_patch (now_of env) call) r) = None \<and>
     call_written (env, call) db = db\<lparr>rd_Runs := update_where (is_run u (snd (call_run call)))
       (patch_run env (call_patch (now_of env) call)) (rd_Runs db)\<rparr>"
proof -
  let ?b = "fst (call_run call)" and ?i = "snd (call_run call)" and ?p = "call_patch (now_of env) call"
  obtain k where "update_run env ?b ?i ?p db = Inr (k, call_written (env, call) db)"
    using update_run_status_effect [of env 1 ?b ?i ?p db] assms by (auto simp: call_written_def write_call_def)
  from update_run_Inr [OF this] assms show ?thesis by blast
qed

section \<open>The invariant\<close>

lemma same_run_key_sym: "same_run_key x r \<longleftrightarrow> same_run_key r x"
  by (auto simp: same_run_key_def)

text \<open>Both changes of the table, an inserted row and a patched one, keep the keys.\<close>

lemma runs_ok_insert:
  assumes "runs_ok db" and "run_insert_violated db r = None" and "run_ok r"
  shows "runs_ok (db\<lparr>rd_Runs := rd_Runs db @ [r]\<rparr>)"
proof -
  from assms(2) have "ru_ID r \<notin> ru_ID ` set (rd_Runs db)" and free: "\<forall>x \<in> set (rd_Runs db). \<not> same_run_key x r"
    by (auto simp: run_insert_violated_def split: if_splits)
  moreover from free have "\<forall>x \<in> set (rd_Runs db). \<not> same_run_key r x" using same_run_key_sym by blast
  ultimately show ?thesis using assms(1,3) unfolding runs_ok_def by simp
qed

lemma runs_ok_patch:
  assumes ok: "runs_ok db" and f: "find (is_run u i) (rd_Runs db) = Some r"
    and nv: "run_update_violated db (patch_run env p r) = None" and new: "run_ok (patch_run env p r)"
  shows "runs_ok (db\<lparr>rd_Runs := update_where (is_run u i) (patch_run env p) (rd_Runs db)\<rparr>)"
proof -
  from f have r: "r \<in> set (rd_Runs db)" "is_run u i r" by (auto simp: find_Some_iff)
  have only: "x = r" if "x \<in> set (rd_Runs db)" "ru_ID x = ru_ID r" for x
    using ok that r(1) by (auto simp: runs_ok_def distinct_map inj_on_def)
  have row: "x = patch_run env p r \<or> (x \<in> set (rd_Runs db) \<and> ru_ID x \<noteq> ru_ID r)"
    if "x \<in> set (update_where (is_run u i) (patch_run env p) (rd_Runs db))" for x
  proof -
    from that obtain y where y: "y \<in> set (rd_Runs db)" "x = (if is_run u i y then patch_run env p y else y)"
      by (rule in_update_whereE)
    show ?thesis
    proof (cases "ru_ID y = ru_ID r")
      case True
      with only y(1) have "y = r" by blast
      with y(2) r(2) show ?thesis by simp
    next
      case False
      with r(2) have "\<not> is_run u i y" by metis
      with False y show ?thesis by simp
    qed
  qed
  have free: "\<not> same_run_key x (patch_run env p r)" if "x \<in> set (rd_Runs db)" "ru_ID x \<noteq> ru_ID r" for x
    using nv that by (auto simp: run_update_violated_def split: if_splits)
  then have free': "\<not> same_run_key (patch_run env p r) x" if "x \<in> set (rd_Runs db)" "ru_ID x \<noteq> ru_ID r" for x
    using that same_run_key_sym by blast
  from ok have keyed: "x = y" if "x \<in> set (rd_Runs db)" "y \<in> set (rd_Runs db)" "same_run_key x y" for x y
    using that by (simp add: runs_ok_def)
  have "distinct (map ru_ID (update_where (is_run u i) (patch_run env p) (rd_Runs db)))"
    using ok by (simp add: map_key_update_where runs_ok_def)
  moreover have "run_ok x" if "x \<in> set (update_where (is_run u i) (patch_run env p) (rd_Runs db))" for x
    using row [OF that] ok new by (auto simp: runs_ok_def)
  moreover have "x = y" if "x \<in> set (update_where (is_run u i) (patch_run env p) (rd_Runs db))"
      "y \<in> set (update_where (is_run u i) (patch_run env p) (rd_Runs db))" "same_run_key x y" for x y
    using row [OF that(1)] row [OF that(2)] that(3) free free' keyed by blast
  ultimately show ?thesis unfolding runs_ok_def by simp
qed

lemma received_row_ok: "run_ok (run_row env (received_run env' input) i b c s)"
  by (simp add: run_row_def received_run_def Let_def stamps_in_order_def status_stamped_def)

lemma run_inserted_cases:
  assumes "run_inserted db db'" and "db' \<noteq> db"
  obtains env input i b c s where
    "run_insert_violated db (run_row env (received_run env input) i b c s) = None"
    "db' = db\<lparr>rd_Runs := rd_Runs db @ [run_row env (received_run env input) i b c s]\<rparr>"
  using assms create_run_effect insert_run_Inr unfolding run_inserted_def by metis

lemma runs_ok_inserted: "runs_ok db \<Longrightarrow> run_inserted db db' \<Longrightarrow> runs_ok db'"
  by (cases "db' = db") (auto elim!: run_inserted_cases simp: runs_ok_insert received_row_ok)

lemma call_checked_inserted: "call_checked db v \<Longrightarrow> run_inserted db db' \<Longrightarrow> call_checked db' v"
  by (cases "db' = db") (auto elim!: run_inserted_cases simp: call_checked_def)

lemma call_admitted_checked: "runs_ok db \<Longrightarrow> call_admitted db w \<Longrightarrow> call_checked db w"
  using check_call_Inr stage_before_status unfolding call_admitted_def call_checked_def runs_ok_def by blast

text \<open>In a table with unique identifiers the row that is written is the row that was checked.\<close>

lemma call_target:
  assumes "runs_ok db" and "x \<in> set (rd_Runs db)" and "target_of env call x"
    and "pg_uuid (re_Pg env) (fst (call_run call)) = Some u" and "find (is_run u (snd (call_run call))) (rd_Runs db) = Some r"
  shows "r = x"
proof -
  from assms(5) have "r \<in> set (rd_Runs db)" "ru_ID r = snd (call_run call)" by (auto simp: find_Some_iff)
  with assms(1-3) show ?thesis by (simp add: runs_ok_def target_of_def distinct_map inj_on_def)
qed

lemma runs_ok_written:
  assumes ok: "runs_ok db" and checked: "call_checked db (env, call)"
  shows "runs_ok (call_written (env, call) db)"
proof (cases "call_written (env, call) db = db")
  case False
  from write_call_effect [OF this] obtain u r where
    u: "pg_uuid (re_Pg env) (fst (call_run call)) = Some u" and f: "find (is_run u (snd (call_run call))) (rd_Runs db) = Some r"
    and nv: "run_update_violated db (patch_run env (call_patch (now_of env) call) r) = None"
    and db': "call_written (env, call) db = db\<lparr>rd_Runs := update_where (is_run u (snd (call_run call)))
       (patch_run env (call_patch (now_of env) call)) (rd_Runs db)\<rparr>" by blast
  from checked obtain x where "x \<in> set (rd_Runs db)" "target_of env call x" and before: "stage_before call x"
    by (auto simp: call_checked_def)
  with call_target [OF ok _ _ u f] ok have "stage_before call r" "run_ok r" by (auto simp: runs_ok_def)
  moreover from nv have "run_checks (patch_run env (call_patch (now_of env) call) r)"
    by (simp add: run_update_violated_def split: if_splits)
  ultimately have "run_ok (patch_run env (call_patch (now_of env) call) r)" by (simp add: patch_run_ok)
  from runs_ok_patch [OF ok f nv this] show ?thesis by (simp add: db')
qed (simp add: ok)

lemma call_checked_written:
  assumes "call_checked db v"
  shows "call_checked (call_written (env, call) db) v"
proof (cases "call_written (env, call) db = db")
  case False
  from write_call_effect [OF this] obtain u where
    db': "rd_Runs (call_written (env, call) db) = update_where (is_run u (snd (call_run call)))
       (patch_run env (call_patch (now_of env) call)) (rd_Runs db)" by auto
  from assms obtain x where x: "x \<in> set (rd_Runs db)" "target_of (fst v) (snd v) x" "stage_before (snd v) x"
    by (auto simp: call_checked_def)
  show ?thesis
  proof (cases "is_run u (snd (call_run call)) x")
    case True
    from in_update_where_hit [where p = "is_run u (snd (call_run call))", OF x(1) this] stage_before_patch [OF x(3)] x(2) show ?thesis
      unfolding call_checked_def db' using target_of_patch by blast
  next
    case False
    from in_update_where_other [where p = "is_run u (snd (call_run call))", OF x(1) this] x(2,3) show ?thesis unfolding call_checked_def db' by blast
  qed
qed (simp add: assms)

interpretation lifecycle: check_then_act runs_ok call_checked call_admitted call_written run_inserted
proof
  fix db w v
  show "runs_ok db \<Longrightarrow> call_admitted db w \<Longrightarrow> call_checked db w" by (rule call_admitted_checked)
  show "runs_ok db \<Longrightarrow> call_checked db w \<Longrightarrow> runs_ok (call_written w db)" by (cases w) (simp add: runs_ok_written)
  show "call_checked db v \<Longrightarrow> call_checked (call_written w db) v" by (cases w) (simp add: call_checked_written)
qed (auto intro: runs_ok_inserted call_checked_inserted)

section \<open>Refinement of the machine\<close>

lemma run_statuses_insert:
  "ru_ID r \<notin> ru_ID ` set (rd_Runs db) \<Longrightarrow>
     run_statuses (db\<lparr>rd_Runs := rd_Runs db @ [r]\<rparr>) = (run_statuses db)(ru_ID r \<mapsto> ru_Status r)"
proof
  fix j
  assume fresh: "ru_ID r \<notin> ru_ID ` set (rd_Runs db)"
  have app: "find (\<lambda>x. ru_ID x = j) (xs @ [r]) = (case find (\<lambda>x. ru_ID x = j) xs of
      Some x \<Rightarrow> Some x | None \<Rightarrow> if ru_ID r = j then Some r else None)" for xs by (induction xs) auto
  from fresh have "find (\<lambda>x. ru_ID x = ru_ID r) (rd_Runs db) = None" unfolding find_None_iff by (metis imageI)
  then show "run_statuses (db\<lparr>rd_Runs := rd_Runs db @ [r]\<rparr>) j = ((run_statuses db)(ru_ID r \<mapsto> ru_Status r)) j"
    by (auto simp: run_statuses_def app split: option.splits)
qed

lemma run_statuses_row: "runs_ok db \<Longrightarrow> r \<in> set (rd_Runs db) \<Longrightarrow> run_statuses db (ru_ID r) = Some (ru_Status r)"
  by (simp add: run_statuses_def runs_ok_def find_key_iff [THEN iffD2])

lemma run_statuses_patch:
  assumes "runs_ok db" and "find (is_run u i) (rd_Runs db) = Some r"
  shows "run_statuses (db\<lparr>rd_Runs := update_where (is_run u i) (patch_run env p) (rd_Runs db)\<rparr>) =
    (run_statuses db)(ru_ID r \<mapsto> rp_Status p)"
proof
  fix j
  from assms have r: "r \<in> set (rd_Runs db)" "ru_ID r = i" "is_run u i r" and d: "distinct (map ru_ID (rd_Runs db))"
    by (auto simp: find_Some_iff runs_ok_def)
  show "run_statuses (db\<lparr>rd_Runs := update_where (is_run u i) (patch_run env p) (rd_Runs db)\<rparr>) j =
      ((run_statuses db)(ru_ID r \<mapsto> rp_Status p)) j"
  proof (cases "j = i")
    case True
    have "find (\<lambda>x. ru_ID x = ru_ID r) (update_where (is_run u i) (patch_run env p) (rd_Runs db)) = Some (patch_run env p r)"
      by (rule find_update_where_hit [OF d r(1)]) (use r in auto)
    with True r(2) show ?thesis by (simp add: run_statuses_def)
  next
    case False
    have "find (\<lambda>x. ru_ID x = j) (update_where (is_run u i) (patch_run env p) (rd_Runs db)) = find (\<lambda>x. ru_ID x = j) (rd_Runs db)"
      by (rule find_update_where_other) (use False in auto)
    with False r(2) show ?thesis by (simp add: run_statuses_def)
  qed
qed

lemma call_edge: "a \<in> set (call_from call) \<Longrightarrow> run_edge a (rp_Status (call_patch now call))"
  by (cases call) (auto simp: no_patch_def run_edge_iff)

lemma edge_source_unfinished: "run_edge a b \<Longrightarrow> \<not> is_terminal_run_status a"
  by (auto simp: run_edge_iff is_terminal_run_status_def unfinished_statuses_def)

text \<open>One call that is not interrupted: a step of the machine at most, and no finished run is touched.\<close>

definition one_step :: "ai_run_db \<Rightarrow> ai_run_db \<Rightarrow> bool" where
  "one_step db db' \<longleftrightarrow> run_machine\<^sup>=\<^sup>= (run_statuses db) (run_statuses db') \<and>
     (\<forall>r \<in> set (rd_Runs db). is_terminal_run_status (ru_Status r) \<longrightarrow> r \<in> set (rd_Runs db'))"

lemma one_step_refl: "one_step db db"
  by (simp add: one_step_def)

lemma one_step_inserted: "run_inserted db db' \<Longrightarrow> one_step db db'"
proof (cases "db' = db")
  case False
  assume "run_inserted db db'"
  from run_inserted_cases [OF this False] obtain env input i b c s where
    nv: "run_insert_violated db (run_row env (received_run env input) i b c s) = None" and
    db': "db' = db\<lparr>rd_Runs := rd_Runs db @ [run_row env (received_run env input) i b c s]\<rparr>" by blast
  let ?r = "run_row env (received_run env input) i b c s"
  have r: "ru_ID ?r = i" "ru_Status ?r = ''received''" by (simp_all add: run_row_def received_run_def Let_def)
  from nv have fresh: "i \<notin> ru_ID ` set (rd_Runs db)" by (auto simp: run_insert_violated_def r split: if_splits)
  then have "run_statuses db i = None" by (auto simp: run_statuses_def find_None_iff)
  from run_machine.start [of "run_statuses db" i, OF this] run_statuses_insert [of ?r db] fresh
  show ?thesis by (simp add: one_step_def db' r)
qed (simp add: one_step_refl)

lemma one_step_call:
  assumes ok: "runs_ok db" and admitted: "call_admitted db (env, call)"
  shows "one_step db (call_written (env, call) db)"
proof (cases "call_written (env, call) db = db")
  case False
  from write_call_effect [OF this] obtain u r where
    u: "pg_uuid (re_Pg env) (fst (call_run call)) = Some u" and f: "find (is_run u (snd (call_run call))) (rd_Runs db) = Some r"
    and db': "call_written (env, call) db = db\<lparr>rd_Runs := update_where (is_run u (snd (call_run call)))
       (patch_run env (call_patch (now_of env) call)) (rd_Runs db)\<rparr>" by blast
  from check_call_Inr admitted obtain x where x: "x \<in> set (rd_Runs db)" "target_of env call x"
    "ru_Status x \<in> set (call_from call)" unfolding call_admitted_def by fastforce
  from call_target [OF ok x(1,2) u f] x have r: "r \<in> set (rd_Runs db)" "ru_Status r \<in> set (call_from call)" by auto
  from call_edge [OF r(2)] have edge: "run_edge (ru_Status r) (rp_Status (call_patch (now_of env) call))" .
  from run_machine.move [of "run_statuses db" "ru_ID r", OF run_statuses_row [OF ok r(1)] edge] run_statuses_patch [OF ok f]
  have "run_machine\<^sup>=\<^sup>= (run_statuses db) (run_statuses (call_written (env, call) db))" by (simp add: db')
  moreover have "y \<in> set (rd_Runs (call_written (env, call) db))"
    if "y \<in> set (rd_Runs db)" "is_terminal_run_status (ru_Status y)" for y
  proof -
    from that edge_source_unfinished [OF edge] have "y \<noteq> r" by auto
    with ok that(1) r(1) have "ru_ID y \<noteq> ru_ID r" by (auto simp: runs_ok_def distinct_map inj_on_def)
    with f have "\<not> is_run u (snd (call_run call)) y" by (auto simp: find_Some_iff)
    with in_update_where_other [OF that(1)] show ?thesis by (simp add: db')
  qed
  ultimately show ?thesis by (simp add: one_step_def)
qed (simp add: one_step_refl)

lemma exec_op_cases:
  "snd (exec_op env op db) = db \<or> run_inserted db (snd (exec_op env op db)) \<or>
   (\<exists>call. call_admitted db (env, call) \<and> snd (exec_op env op db) = call_written (env, call) db)"
proof (cases op)
  case (StartRun input)
  have "run_inserted db (snd (create_run env 2 (received_run env input) db))" by (auto simp: run_inserted_def)
  moreover have "snd (start_run env input db) = db \<or>
      snd (start_run env input db) = snd (create_run env 2 (received_run env input) db)"
    using snd_get_by_idempotency_key [of env 0 "si_BusinessID input" "si_IdempotencyKey input" db]
    by (auto simp: start_run_def run_fail_def simp del: snd_get_by_idempotency_key split: prod.splits sum.splits)
  ultimately show ?thesis using StartRun by auto
next
  case (Move call)
  have "snd (exec_call env call db) = db \<or>
      call_admitted db (env, call) \<and> snd (exec_call env call db) = call_written (env, call) db"
    using snd_check_call [of env call db]
    by (auto simp: exec_call_split run_bind_def call_admitted_def call_written_def simp del: snd_check_call
        split: prod.splits sum.splits)
  with Move show ?thesis by auto
qed

lemma exec_op_step: "runs_ok db \<Longrightarrow> one_step db (snd (exec_op env op db)) \<and> runs_ok (snd (exec_op env op db))"
  using exec_op_cases [of env op db] one_step_refl one_step_inserted one_step_call runs_ok_inserted
    runs_ok_written call_admitted_checked by metis

lemma exec_ops_step:
  "runs_ok db \<Longrightarrow> run_machine\<^sup>*\<^sup>* (run_statuses db) (run_statuses (exec_ops ops db)) \<and>
     (\<forall>r \<in> set (rd_Runs db). is_terminal_run_status (ru_Status r) \<longrightarrow> r \<in> set (rd_Runs (exec_ops ops db)))"
proof (induction ops db rule: exec_ops.induct)
  case (2 env op ops db)
  let ?db = "snd (exec_op env op db)"
  from exec_op_step [OF 2(2)] have s: "one_step db ?db" "runs_ok ?db" by auto
  from 2(1) [OF s(2)] have IH: "run_machine\<^sup>*\<^sup>* (run_statuses ?db) (run_statuses (exec_ops ops ?db))"
    "\<forall>r \<in> set (rd_Runs ?db). is_terminal_run_status (ru_Status r) \<longrightarrow> r \<in> set (rd_Runs (exec_ops ops ?db))" by auto
  from s(1) have "run_machine\<^sup>*\<^sup>* (run_statuses db) (run_statuses ?db)" by (auto simp: one_step_def)
  with IH s(1) show ?case by (auto simp: one_step_def)
qed simp

section \<open>Starting a run\<close>



definition optional_uuid :: "pg_env \<Rightarrow> string \<Rightarrow> string option" where
  "optional_uuid env s = (if s = '''' then None else pg_uuid env s)"


definition new_run :: "run_env \<Rightarrow> start_run_input \<Rightarrow> string \<Rightarrow> ai_run" where
  "new_run env input b =
     run_row env (received_run env input) (si_NewRunID input) b (optional_uuid (re_Pg env) (si_ConversationID input))
       (optional_uuid (re_Pg env) (si_SourceEventID input))"






section \<open>Properties\<close>

text \<open>
  C24: However the checks and the writes of the calls on the service are interleaved, a run is executing only after it was
  authorized, authorized only after it was validated, validated only after the model was running on a built context; every
  status carries its stamp, a failed run its stage, category and reason; identifiers are unique, and at most one run of a
  business and key is unfinished.
\<close>

theorem run_milestones:
  assumes "lifecycle_step\<^sup>*\<^sup>* (db, {#}) (db', ws)" and "runs_ok db"
  shows "runs_ok db'"
  using assms by (rule lifecycle.interleaved_inv)

text \<open>
  C25: Calls made one after another, whatever fails in them, move the runs as the machine of the contract does: a run
  starts as received and takes only the listed transitions; a completed, failed or cancelled run is never touched again.
\<close>

theorem run_lifecycle_refines:
  assumes "runs_ok db"
  shows "run_machine\<^sup>*\<^sup>* (run_statuses db) (run_statuses (exec_ops ops db)) \<and>
    (\<forall>r \<in> set (rd_Runs db). is_terminal_run_status (ru_Status r) \<longrightarrow> r \<in> set (rd_Runs (exec_ops ops db)))"
  using assms by (rule exec_ops_step)


section \<open>Examples\<close>

definition sample_run_env :: run_env where
  "sample_run_env =
     \<lparr>re_Pg = \<lparr>pg_now = 9, go_now = 5, pg_uuid = Some, pg_ts = (\<lambda>t. t), pg_executor = None, pg_write_fault = None,
               pg_read_fault = None\<rparr>,
      re_NoRepo = False, re_Unset = False, re_Fault = (\<lambda>_. None), re_Pick = 0,
      re_ErrorText = (\<lambda>e. case e of PgError code \<Rightarrow> ''SQLSTATE '' @ code | _ \<Rightarrow> ''''), re_Quote = (\<lambda>s. s)\<rparr>"

definition sample_start_input :: start_run_input where
  "sample_start_input = \<lparr>si_BusinessID = ''b'', si_ConversationID = '''', si_MessageID = ''m'', si_SourceEventID = '''',
     si_IdempotencyKey = ''k'', si_AgentRole = ''customer_sales'', si_NewRunID = ''r''\<rparr>"

definition sample_row :: ai_run where
  "sample_row = new_run sample_run_env sample_start_input ''b''"

definition sample_runs :: "ai_run list \<Rightarrow> ai_run_db" where
  "sample_runs rows = \<lparr>rd_Runs = rows, rd_Businesses = [''b'']\<rparr>"

definition built_row :: ai_run where
  "built_row = sample_row\<lparr>ru_Status := ''context_built'', ru_ContextBuiltAt := Some 5\<rparr>"

lemmas sample_run_defs = sample_run_env_def sample_start_input_def sample_row_def sample_runs_def built_row_def new_run_def
  run_row_def received_run_def optional_uuid_def null_if_empty_def

lemmas call_defs = call_admitted_def call_written_def check_call_def write_call_def transition_check_def update_run_status_def
  update_run_def run_update_violated_def get_run_def run_method_def on_executor_def on_error_def run_bind_def run_read_def
  run_write_def pg_read_def pg_write_def with_uuid_def select_one_def scan_run_def run_return_def run_fail_def
  run_checks_def ai_run_statuses_def ai_run_agent_roles_def no_patch_def patch_run_def

lemma sample_runs_ok: "runs_ok (sample_runs [sample_row])" "runs_ok (sample_runs [built_row])" "runs_ok (sample_runs [])"
  by (simp_all add: runs_ok_def sample_run_defs stamps_in_order_def status_stamped_def)

lemma sample_admitted:
  "call_admitted (sample_runs [sample_row]) (sample_run_env, MarkContextBuilt ''b'' ''r'')"
  "call_admitted (sample_runs [built_row]) (sample_run_env, MarkRunning ''b'' ''r'')"
  "call_admitted (sample_runs [built_row]) (sample_run_env, CancelBeforeModel ''b'' ''r'')"
  by (simp_all add: call_defs sample_run_defs)

lemma sample_written:
  "run_statuses (call_written (sample_run_env, MarkContextBuilt ''b'' ''r'') (sample_runs [sample_row])) ''r'' =
     Some ''context_built''"
  "call_written (sample_run_env, CancelBeforeModel ''b'' ''r'') (sample_runs [built_row]) =
     sample_runs [built_row\<lparr>ru_Status := ''cancelled'', ru_CancelledAt := Some 5, ru_UpdatedAt := 9\<rparr>]"
  "run_statuses (call_written (sample_run_env, MarkRunning ''b'' ''r'')
     (sample_runs [built_row\<lparr>ru_Status := ''cancelled'', ru_CancelledAt := Some 5, ru_UpdatedAt := 9\<rparr>])) ''r'' =
     Some ''running''"
  by (simp_all add: call_defs sample_run_defs run_statuses_def)

lemma lifecycle_admitted: "call_admitted db w \<Longrightarrow> lifecycle_step (db, ws) (db, add_mset w ws)"
  by (rule interleaved.admitted)

theorem run_milestones_witness:
  "runs_ok (call_written (sample_run_env, MarkContextBuilt ''b'' ''r'') (sample_runs [sample_row])) \<and>
   run_statuses (call_written (sample_run_env, MarkContextBuilt ''b'' ''r'') (sample_runs [sample_row])) ''r'' =
     Some ''context_built''"
proof
  have "lifecycle_step\<^sup>*\<^sup>* (sample_runs [sample_row], {#})
      (call_written (sample_run_env, MarkContextBuilt ''b'' ''r'') (sample_runs [sample_row]),
       {#(sample_run_env, MarkContextBuilt ''b'' ''r'')#} - {#(sample_run_env, MarkContextBuilt ''b'' ''r'')#})"
    using lifecycle_admitted [OF sample_admitted(1), of "{#}"]
    by (rule converse_rtranclp_into_rtranclp [where r = lifecycle_step]) (rule r_into_rtranclp, rule interleaved.written, simp)
  then show "runs_ok (call_written (sample_run_env, MarkContextBuilt ''b'' ''r'') (sample_runs [sample_row]))"
    using sample_runs_ok(1) by (rule run_milestones)
qed (rule sample_written(1))

theorem run_lifecycle_refines_witness:
  "run_machine\<^sup>*\<^sup>* (run_statuses (sample_runs []))
     (run_statuses (exec_ops [(sample_run_env, StartRun sample_start_input), (sample_run_env, Move (MarkContextBuilt ''b'' ''r''))]
        (sample_runs []))) \<and>
   runs_ok (sample_runs [])"
  using run_lifecycle_refines [OF sample_runs_ok(3)] sample_runs_ok(3) by blast



text \<open>
  The check of \<^verbatim>\<open>transition\<close> does not bind its write: a run cancelled because a human took over is set to running again by a
  call that was checked before.
\<close>

lemma cancelled_run_reopened:
  "\<exists>db ws db' ws'. lifecycle_step\<^sup>*\<^sup>* (sample_runs [built_row], {#}) (db, ws) \<and> run_statuses db ''r'' = Some ''cancelled'' \<and>
     lifecycle_step (db, ws) (db', ws') \<and> run_statuses db' ''r'' = Some ''running''"
proof -
  let ?run = "(sample_run_env, MarkRunning ''b'' ''r'')" and ?cancel = "(sample_run_env, CancelBeforeModel ''b'' ''r'')"
  let ?db = "sample_runs [built_row\<lparr>ru_Status := ''cancelled'', ru_CancelledAt := Some 5, ru_UpdatedAt := 9\<rparr>]"
  have "lifecycle_step (sample_runs [built_row], add_mset ?cancel {#?run#}) (?db, add_mset ?cancel {#?run#} - {#?cancel#})"
    unfolding sample_written(2) [symmetric] by (rule interleaved.written) simp
  then have "lifecycle_step\<^sup>*\<^sup>* (sample_runs [built_row], {#}) (?db, {#?run#})"
    using lifecycle_admitted [OF sample_admitted(2), of "{#}"]
      lifecycle_admitted [OF sample_admitted(3), of "{#?run#}"]
    by (simp add: converse_rtranclp_into_rtranclp)
  moreover have "lifecycle_step (?db, {#?run#}) (call_written ?run ?db, {#?run#} - {#?run#})"
    by (rule interleaved.written) simp
  moreover have "run_statuses ?db ''r'' = Some ''cancelled''" by (simp add: run_statuses_def sample_run_defs)
  ultimately show ?thesis using sample_written(3) by blast
qed

text \<open>
  A key with a finished run and an unfinished one: the lookup without an order may find the finished run, and the request
  fails on the index instead of resuming the unfinished run.
\<close>

lemma unfinished_run_not_resumed:
  "fst (start_run sample_run_env (sample_start_input\<lparr>si_NewRunID := ''n''\<rparr>)
     (sample_runs [sample_row\<lparr>ru_Status := ''completed'', ru_ID := ''o''\<rparr>, sample_row])) = Inl err_idempotency_violation"
  by (simp add: start_run_def get_by_idempotency_key_def create_run_def insert_run_def run_insert_violated_def same_run_key_def
      is_terminal_run_status_def is_postgres_unique_violation_def contains_sub_def with_optional_uuid_def call_defs
      sample_run_defs trim_space_def space1_def byte_of_def unique_violation_def)

text \<open>An empty stage passes the service's test and is refused by the table, so that the run is not marked as failed.\<close>

lemma empty_stage_refused:
  "exec_ops [(sample_run_env, Move (MarkFailed ''b'' ''r'' '''' ''timeout'' ''slow''))] (sample_runs [built_row]) =
     sample_runs [built_row] \<and> is_valid_failure_stage ''''"
  by (simp add: exec_call_split is_valid_failure_stage_def is_valid_failure_category_def failure_stages_def
      failure_categories_def call_defs sample_run_defs unfinished_statuses_def)

end
