(* ===== verification/Authentication.thy ===== *)
theory Authentication
  imports Team_Store
begin

text \<open>
  Signing in: \<^verbatim>\<open>services/authentication.go\<close> on \<^verbatim>\<open>postgres/authentication_repository.go\<close> and the table \<^verbatim>\<open>refresh_sessions\<close>, with
  the records of \<^verbatim>\<open>ports/authentication.go\<close>. The principals and memberships are those of the team store. Of a business the
  columns that the team store reads are kept; the others are copied to the view unchanged. The hash of a token has the 64
  characters of its column. Each method of the repository is one statement or one transaction, so that the
  interleavings of service calls are the sequences of repository calls.
\<close>

section \<open>Data\<close>

record principal_record =
  pi_ID :: string
  pi_Email :: string
  pi_DisplayName :: string
  pi_PasswordHash :: string
  pi_Status :: string

record business_membership_record =
  bm_BusinessID :: string
  bm_PrincipalID :: string
  bm_Business :: team_business
  bm_Role :: string
  bm_Permissions :: "string list"
  bm_Status :: string

record refresh_session_record =
  rs_ID :: string
  rs_PrincipalID :: string
  rs_TokenHash :: string
  rs_ExpiresAt :: time
  rs_RevokedAt :: "time option"
  rs_UsedAt :: "time option"

text \<open>A row of the table has the time of its creation as well.\<close>

record refresh_session = refresh_session_record +
  rs_CreatedAt :: time

record auth_db = team_db +
  au_Sessions :: "refresh_session list"

type_synonym 'a auth_run = "(auth_db, 'a) run"

section \<open>Statements\<close>

definition auth_read :: "team_env \<Rightarrow> nat \<Rightarrow> (auth_db \<Rightarrow> 'a result) \<Rightarrow> 'a auth_run" where
  "auth_read env n query db = (pg_read ((te_Pg env)\<lparr>pg_read_fault := te_Fault env n\<rparr>) query db, db)"

definition auth_write :: "team_env \<Rightarrow> nat \<Rightarrow> (auth_db \<Rightarrow> ('a \<times> auth_db) result) \<Rightarrow> 'a auth_run" where
  "auth_write env n stmt = pg_write ((te_Pg env)\<lparr>pg_write_fault := te_Fault env n\<rparr>) stmt"

text \<open>The opening of a method: an adapter, valid arguments, an executor.\<close>

definition auth_method :: "team_env \<Rightarrow> (string \<times> string) option \<Rightarrow> 'a auth_run \<Rightarrow> 'a auth_run" where
  "auth_method env refused body =
     (if te_Unset env then run_fail err_pool_closed
      else (case refused of
              Some (operation, message) \<Rightarrow> run_fail (invalid_repository_input operation message)
            | None \<Rightarrow> on_executor (te_Pg env) body))"

definition scan_principal_row :: "principal \<Rightarrow> principal_record" where
  "scan_principal_row p = \<lparr>pi_ID = pr_ID p, pi_Email = pr_Email p, pi_DisplayName = pr_DisplayName p,
     pi_PasswordHash = pr_PasswordHash p, pi_Status = pr_Status p\<rparr>"

definition scan_principal :: "string \<Rightarrow> 'a auth_run \<Rightarrow> 'a auth_run" where
  "scan_principal operation row = on_error (classify_repository_get_error operation) row"

definition scan_membership :: "'a auth_run \<Rightarrow> 'a auth_run" where
  "scan_membership row = on_error (classify_repository_get_error ''auth.membership'') row"

definition find_principal :: "(principal \<Rightarrow> bool) \<Rightarrow> auth_db \<Rightarrow> principal_record result" where
  "find_principal p db =
     (case find p (tb_Principals db) of None \<Rightarrow> Inl ErrNoRows | Some x \<Rightarrow> Inr (scan_principal_row x))"

definition get_by_email :: "team_env \<Rightarrow> nat \<Rightarrow> string \<Rightarrow> principal_record auth_run" where
  "get_by_email env n email =
     auth_method env (if blank email then Some (''auth.principal_by_email'', ''email is required'') else None)
       (scan_principal ''auth.principal_by_email'' (auth_read env n
          (find_principal (\<lambda>p. te_Lower env (pr_Email p) = te_Lower env email))))"

definition get_by_id :: "team_env \<Rightarrow> nat \<Rightarrow> string \<Rightarrow> principal_record auth_run" where
  "get_by_id env n principalID =
     auth_method env (if principalID = '''' then Some (''auth.principal_by_id'', ''principal id is required'') else None)
       (scan_principal ''auth.principal_by_id'' (auth_read env n (\<lambda>db.
          with_uuid (te_Pg env) principalID (\<lambda>u. find_principal (\<lambda>p. pr_ID p = u) db))))"

definition membership_row :: "auth_db \<Rightarrow> membership \<Rightarrow> business_membership_record option" where
  "membership_row db m =
     map_option (\<lambda>b. \<lparr>bm_BusinessID = mb_BusinessID m, bm_PrincipalID = mb_PrincipalID m, bm_Business = b,
         bm_Role = mb_Role m, bm_Permissions = mb_Permissions m, bm_Status = mb_Status m\<rparr>)
       (find (\<lambda>b. bz_ID b = mb_BusinessID m) (tb_Businesses db))"

definition decode_membership_cursor :: "(string \<Rightarrow> bool) \<Rightarrow> string \<Rightarrow> string result" where
  "decode_membership_cursor validUUID cursor =
     (if blank cursor then Inr ''''
      else (case b64_decode cursor of
              Inl _ \<Rightarrow> Inl (invalid_repository_input ''auth.list_memberships'' ''invalid membership cursor'')
            | Inr v \<Rightarrow> if validUUID v then Inr v
                       else Inl (invalid_repository_input ''auth.list_memberships'' ''invalid membership cursor'')))"

definition membership_limit :: "int \<Rightarrow> int" where
  "membership_limit limit = (if limit \<le> 0 \<or> limit > 10000 then 50 else limit)"

definition list_active_memberships ::
  "team_env \<Rightarrow> (string \<Rightarrow> bool) \<Rightarrow> string \<Rightarrow> int \<Rightarrow> string \<Rightarrow> business_membership_record page auth_run" where
  "list_active_memberships env validUUID principalID limit0 cursor =
     (if te_Unset env then run_fail err_pool_closed
      else if principalID = '''' then run_fail (invalid_repository_input ''auth.list_memberships'' ''principal id is required'')
      else (case decode_membership_cursor validUUID cursor of
              Inl e \<Rightarrow> run_fail e
            | Inr after \<Rightarrow> on_executor (te_Pg env)
                (let limit = membership_limit limit0 in
                 run_bind (on_error (RepositoryError ''auth.list_memberships'' RepositoryInvalid)
                     (auth_read env 0 (\<lambda>db. with_uuid (te_Pg env) principalID (\<lambda>p.
                        Inr (take (nat (limit + 1)) (List.map_filter (membership_row db)
                          (sort_key mb_BusinessID (filter (\<lambda>m. mb_PrincipalID m = p \<and> mb_Status m = ''active'' \<and>
                             te_TextLess env after (mb_BusinessID m)) (tb_Members db)))))))))
                   (\<lambda>items. run_return (page_of limit bm_BusinessID items)))))"

definition resolve_active_membership :: "team_env \<Rightarrow> string \<Rightarrow> string \<Rightarrow> business_membership_record auth_run" where
  "resolve_active_membership env principalID businessID =
     auth_method env (if principalID = '''' \<or> businessID = ''''
         then Some (''auth.resolve_membership'', ''principal and business ids are required'') else None)
       (scan_membership (auth_read env 0 (\<lambda>db. with_uuid (te_Pg env) principalID (\<lambda>p. with_uuid (te_Pg env) businessID (\<lambda>b.
          case find (\<lambda>m. mb_PrincipalID m = p \<and> mb_BusinessID m = b \<and> mb_Status m = ''active'') (tb_Members db) of
            None \<Rightarrow> Inl ErrNoRows
          | Some m \<Rightarrow> (case membership_row db m of None \<Rightarrow> Inl ErrNoRows | Some r \<Rightarrow> Inr r))))))"

section \<open>Bootstrap of an account\<close>

definition principal_checks :: "team_env \<Rightarrow> principal \<Rightarrow> bool" where
  "principal_checks env x \<longleftrightarrow>
     sql_nonblank (pr_DisplayName x) \<and> te_EmailFormat env (pr_Email x) \<and> sql_nonblank (pr_Email x) \<and>
     sql_nonblank (pr_PasswordHash x) \<and> pr_Status x \<in> {''active'', ''suspended''}"

definition upsert_principal :: "team_env \<Rightarrow> principal_record \<Rightarrow> time \<Rightarrow> auth_db \<Rightarrow> (principal_record \<times> auth_db) result" where
  "upsert_principal env q now db =
     with_uuid (te_Pg env) (pi_ID q) (\<lambda>u.
       let at = stamp env now;
           x = \<lparr>pr_ID = u, pr_Email = te_Lower env (pi_Email q), pr_DisplayName = pi_DisplayName q,
                pr_PasswordHash = pi_PasswordHash q, pr_Status = pi_Status q, pr_CreatedAt = at, pr_UpdatedAt = at\<rparr>;
           same = (\<lambda>y. te_Lower env (pr_Email y) = te_Lower env (pr_Email x));
           overwrite = (\<lambda>y. y\<lparr>pr_DisplayName := pr_DisplayName x, pr_PasswordHash := pr_PasswordHash x,
                         pr_Status := pr_Status x, pr_UpdatedAt := at\<rparr>)
       in if \<not> principal_checks env x then Inl (PgError check_violation)
          else (case find same (tb_Principals db) of
                  Some y \<Rightarrow> Inr (scan_principal_row (overwrite y), db\<lparr>tb_Principals := update_where same overwrite (tb_Principals db)\<rparr>)
                | None \<Rightarrow>
                    if u \<in> pr_ID ` set (tb_Principals db) then Inl (PgError unique_violation)
                    else Inr (scan_principal_row x, db\<lparr>tb_Principals := tb_Principals db @ [x]\<rparr>)))"

definition upsert_member :: "team_env \<Rightarrow> string \<Rightarrow> string \<Rightarrow> string \<Rightarrow> string list \<Rightarrow> time \<Rightarrow> auth_db \<Rightarrow> (unit \<times> auth_db) result" where
  "upsert_member env businessID principalID role permissions now db =
     with_uuid (te_Pg env) businessID (\<lambda>b. with_uuid (te_Pg env) principalID (\<lambda>p.
       if role \<notin> set team_roles then Inl (PgError check_violation)
       else if \<not> (\<exists>m \<in> set (tb_Members db). mb_BusinessID m = b \<and> mb_PrincipalID m = p) \<and>
               \<not> (b \<in> bz_ID ` set (tb_Businesses db) \<and> p \<in> pr_ID ` set (tb_Principals db))
       then Inl (PgError foreign_key_violation)
       else Inr ((), db\<lparr>tb_Members := upsert_membership b p role permissions (stamp env now) (tb_Members db)\<rparr>)))"

definition ensure_work ::
  "team_env \<Rightarrow> principal_record \<Rightarrow> string \<Rightarrow> string \<Rightarrow> string list \<Rightarrow> time \<Rightarrow> principal_record auth_run" where
  "ensure_work env who businessID role permissions now =
     on_executor (te_Pg env)
       (run_bind (scan_principal ''auth.bootstrap'' (auth_write env 0 (upsert_principal env who now)))
         (\<lambda>output. run_bind (auth_write env 1 (upsert_member env businessID (pi_ID output) role permissions now))
           (\<lambda>_. run_return output)))"

definition ensure_principal_and_membership ::
  "team_env \<Rightarrow> string \<Rightarrow> principal_record \<Rightarrow> string \<Rightarrow> string \<Rightarrow> string list \<Rightarrow> time \<Rightarrow> principal_record auth_run" where
  "ensure_principal_and_membership env newID who businessID role permissions now =
     (if te_Unset env then run_fail err_pool_closed
      else if blank (pi_Email who) \<or> blank (pi_DisplayName who) \<or> blank (pi_PasswordHash who) \<or> businessID = ''''
      then run_fail (invalid_repository_input ''auth.bootstrap''
             ''principal identity, password hash, and business id are required'')
      else let who = who\<lparr>pi_ID := if pi_ID who = '''' then newID else pi_ID who,
                                     pi_Status := if pi_Status who = '''' then ''active'' else pi_Status who\<rparr>;
               work = ensure_work env who businessID role permissions now
           in if tx_nested (te_Tx env) then work else within (te_Tx env) work)"

section \<open>Refresh sessions\<close>

definition insert_session :: "team_env \<Rightarrow> refresh_session_record \<Rightarrow> time \<Rightarrow> auth_db \<Rightarrow> (unit \<times> auth_db) result" where
  "insert_session env s now db =
     with_uuid (te_Pg env) (rs_ID s) (\<lambda>i. with_uuid (te_Pg env) (rs_PrincipalID s) (\<lambda>p.
       let row = \<lparr>rs_ID = i, rs_PrincipalID = p, rs_TokenHash = rs_TokenHash s, rs_ExpiresAt = stamp env (rs_ExpiresAt s),
                  rs_RevokedAt = None, rs_UsedAt = None, rs_CreatedAt = stamp env now\<rparr>
       in if \<not> rs_CreatedAt row < rs_ExpiresAt row then Inl (PgError check_violation)
          else if \<exists>x \<in> set (au_Sessions db). rs_ID x = i \<or> rs_TokenHash x = rs_TokenHash s then Inl (PgError unique_violation)
          else if p \<notin> pr_ID ` set (tb_Principals db) then Inl (PgError foreign_key_violation)
          else Inr ((), db\<lparr>au_Sessions := au_Sessions db @ [row]\<rparr>)))"

definition create_session :: "team_env \<Rightarrow> nat \<Rightarrow> refresh_session_record \<Rightarrow> time \<Rightarrow> unit auth_run" where
  "create_session env n s now =
     auth_method env (if rs_ID s = '''' \<or> rs_PrincipalID s = '''' \<or> rs_TokenHash s = '''' \<or> \<not> now < rs_ExpiresAt s
         then Some (''auth.create_refresh'', ''invalid refresh session'') else None)
       (on_error (RepositoryError ''auth.create_refresh'' RepositoryConflict) (auth_write env n (insert_session env s now)))"

text \<open>The condition under which a token is consumed, and what is left of its session.\<close>

definition consumable :: "team_env \<Rightarrow> string \<Rightarrow> time \<Rightarrow> refresh_session \<Rightarrow> bool" where
  "consumable env hash now s \<longleftrightarrow>
     rs_TokenHash s = hash \<and> rs_RevokedAt s = None \<and> rs_UsedAt s = None \<and> stamp env now < rs_ExpiresAt s"

definition consumed :: "team_env \<Rightarrow> time \<Rightarrow> refresh_session \<Rightarrow> refresh_session" where
  "consumed env now s = s\<lparr>rs_UsedAt := Some (stamp env now), rs_RevokedAt := Some (stamp env now)\<rparr>"

definition consume_stmt :: "team_env \<Rightarrow> string \<Rightarrow> time \<Rightarrow> auth_db \<Rightarrow> (refresh_session_record \<times> auth_db) result" where
  "consume_stmt env hash now db =
     (case update_returning (consumable env hash now) (consumed env now) (\<lambda>_. None) (au_Sessions db) of
        Inl e \<Rightarrow> Inl e
      | Inr (s, rows) \<Rightarrow> Inr (refresh_session_record.truncate s, db\<lparr>au_Sessions := rows\<rparr>))"

definition consume_session :: "team_env \<Rightarrow> nat \<Rightarrow> string \<Rightarrow> time \<Rightarrow> refresh_session_record auth_run" where
  "consume_session env n hash now =
     auth_method env (if hash = '''' then Some (''auth.consume_refresh'', ''token hash is required'') else None)
       (on_error (classify_repository_get_error ''auth.consume_refresh'') (auth_write env n (consume_stmt env hash now)))"

definition revoke_stmt :: "team_env \<Rightarrow> string \<Rightarrow> string \<Rightarrow> time \<Rightarrow> auth_db \<Rightarrow> (nat \<times> auth_db) result" where
  "revoke_stmt env principalID sessionID now db =
     with_uuid (te_Pg env) sessionID (\<lambda>i. with_uuid (te_Pg env) principalID (\<lambda>p.
       let hit = (\<lambda>s. rs_ID s = i \<and> rs_PrincipalID s = p \<and> rs_RevokedAt s = None) in
       Inr (length (filter hit (au_Sessions db)),
            db\<lparr>au_Sessions := update_where hit (\<lambda>s. s\<lparr>rs_RevokedAt := Some (stamp env now)\<rparr>) (au_Sessions db)\<rparr>)))"

definition revoke_session :: "team_env \<Rightarrow> nat \<Rightarrow> string \<Rightarrow> string \<Rightarrow> time \<Rightarrow> unit auth_run" where
  "revoke_session env n principalID sessionID now =
     auth_method env (if principalID = '''' \<or> sessionID = ''''
         then Some (''auth.revoke_refresh'', ''principal and session id are required'') else None)
       (run_bind (on_error (RepositoryError ''auth.revoke_refresh'' RepositoryInvalid)
            (auth_write env n (revoke_stmt env principalID sessionID now)))
         (\<lambda>affected. if affected = 0 then run_fail (RepositoryError ''auth.revoke_refresh'' RepositoryNotFound ErrNoRows)
                     else run_return ()))"

section \<open>The service\<close>

text \<open>
  What the service takes from elsewhere: the comparison of bcrypt, the digest of SHA-256 (a byte string), a new session
  identifier, 32 random bytes, the reading of a UUID, the issuer of access tokens and the format of a time.
  \<open>as_Wired\<close> is that sessions and tokens are configured.
\<close>

record auth_service =
  as_Wired :: bool
  as_Now :: time
  as_RefreshTTL :: duration
  as_Bcrypt :: "string \<Rightarrow> string \<Rightarrow> bool"
  as_Sha256 :: "string \<Rightarrow> string"
  as_NewID :: string
  as_Random :: "string result"
  as_ParseUUID :: "string \<Rightarrow> go_error option"
  as_IssueAccessToken :: "string \<Rightarrow> time \<Rightarrow> (string \<times> time) result"
  as_FormatRFC3339 :: "time \<Rightarrow> string"

record principal_auth_view =
  pv_ID :: string
  pv_DisplayName :: string
  pv_Email :: string

record auth_result =
  ax_AccessToken :: string
  ax_RefreshToken :: string
  ax_ExpiresAt :: string
  ax_RefreshExpiresAt :: time
  ax_Principal :: principal_auth_view

definition hex_alphabet :: string where
  "hex_alphabet = ''0123456789abcdef''"

definition hex_digit :: "nat \<Rightarrow> char" where
  "hex_digit n = hex_alphabet ! n"

definition hex_encode :: "string \<Rightarrow> string" where
  "hex_encode s = concat (map (\<lambda>c. [hex_digit (byte_of c div 16), hex_digit (byte_of c mod 16)]) s)"

definition token_hash :: "auth_service \<Rightarrow> string \<Rightarrow> string" where
  "token_hash S value = hex_encode (as_Sha256 S value)"

definition unauthenticated_repository_error :: "go_error \<Rightarrow> go_error" where
  "unauthenticated_repository_error e = app_error CodeUnauthenticated ''invalid email or password''"

definition map_auth_repository_error :: "go_error \<Rightarrow> go_error" where
  "map_auth_repository_error e =
     (if repository_kind e = Some RepositoryNotFound
      then app_error CodeNotFound ''authentication resource was not found'' else e)"

definition new_refresh_token :: "auth_service \<Rightarrow> string \<Rightarrow> string result" where
  "new_refresh_token S sessionID =
     (case as_ParseUUID S sessionID of
        Some e \<Rightarrow> Inl e
      | None \<Rightarrow> (case as_Random S of Inl e \<Rightarrow> Inl e | Inr bytes \<Rightarrow> Inr (sessionID @ ''.'' @ hex_encode bytes)))"

text \<open>\<^verbatim>\<open>strings.Split(s, ".")\<close>.\<close>

fun split_dots :: "string \<Rightarrow> string list" where
  "split_dots [] = [[]]"
| "split_dots (c # s) =
     (if c = CHR ''.'' then [] # split_dots s
      else (case split_dots s of [] \<Rightarrow> [[c]] | p # ps \<Rightarrow> (c # p) # ps))"

definition refresh_session_id :: "auth_service \<Rightarrow> string \<Rightarrow> string result" where
  "refresh_session_id S token =
     (let parts = split_dots (trim_space token) in
      if length parts \<noteq> 2 \<or> parts ! 1 = '''' then Inl (app_error CodeUnauthenticated ''invalid refresh token'')
      else if as_ParseUUID S (parts ! 0) \<noteq> None then Inl (app_error CodeUnauthenticated ''invalid refresh token'')
      else Inr (parts ! 0))"

definition refresh_ttl :: "auth_service \<Rightarrow> duration" where
  "refresh_ttl S = (if as_RefreshTTL S \<le> 0 then 30 * 24 * hours 1 else as_RefreshTTL S)"

definition lift_result :: "'a result \<Rightarrow> 'a auth_run" where
  "lift_result r db = (r, db)"

definition issue_session :: "auth_service \<Rightarrow> team_env \<Rightarrow> nat \<Rightarrow> principal_record \<Rightarrow> auth_result auth_run" where
  "issue_session S env n who =
     (if \<not> as_Wired S then run_fail not_implemented
      else let now = as_Now S in
        run_bind (lift_result (as_IssueAccessToken S (pi_ID who) now)) (\<lambda>(accessToken, expiresAt).
        run_bind (lift_result (new_refresh_token S (as_NewID S))) (\<lambda>refreshToken.
          let session = \<lparr>rs_ID = as_NewID S, rs_PrincipalID = pi_ID who, rs_TokenHash = token_hash S refreshToken,
                         rs_ExpiresAt = now + refresh_ttl S, rs_RevokedAt = None, rs_UsedAt = None\<rparr> in
          run_bind (on_error map_auth_repository_error (create_session env n session now)) (\<lambda>_.
            run_return \<lparr>ax_AccessToken = accessToken, ax_RefreshToken = refreshToken,
              ax_ExpiresAt = as_FormatRFC3339 S expiresAt, ax_RefreshExpiresAt = rs_ExpiresAt session,
              ax_Principal = \<lparr>pv_ID = pi_ID who, pv_DisplayName = pi_DisplayName who,
                              pv_Email = pi_Email who\<rparr>\<rparr>))))"

definition authenticate :: "auth_service \<Rightarrow> team_env \<Rightarrow> string \<Rightarrow> string \<Rightarrow> auth_result auth_run" where
  "authenticate S env email password =
     (if blank email \<or> password = '''' then run_fail (app_error CodeValidation ''email and password are required'')
      else run_bind (on_error unauthenticated_repository_error (get_by_email env 0 email)) (\<lambda>who.
        if pi_Status who \<noteq> ''active'' \<or> \<not> as_Bcrypt S (pi_PasswordHash who) password
        then run_fail (app_error CodeUnauthenticated ''invalid email or password'')
        else issue_session S env 1 who))"

definition rotate_session :: "auth_service \<Rightarrow> team_env \<Rightarrow> string \<Rightarrow> auth_result auth_run" where
  "rotate_session S env refreshToken =
     (if blank refreshToken then run_fail (app_error CodeUnauthenticated ''refresh token is required'')
      else run_bind (on_error unauthenticated_repository_error
               (consume_session env 0 (token_hash S refreshToken) (as_Now S))) (\<lambda>session.
           run_bind (on_error unauthenticated_repository_error (get_by_id env 1 (rs_PrincipalID session))) (\<lambda>who.
             if pi_Status who \<noteq> ''active'' then run_fail (app_error CodeUnauthenticated ''principal is inactive'')
             else issue_session S env 2 who)))"

definition revoke_refresh :: "auth_service \<Rightarrow> team_env \<Rightarrow> string \<Rightarrow> string \<Rightarrow> unit auth_run" where
  "revoke_refresh S env principalID sessionID =
     on_error map_auth_repository_error (revoke_session env 0 principalID sessionID (as_Now S))"

definition current_principal :: "team_env \<Rightarrow> string \<Rightarrow> principal_auth_view auth_run" where
  "current_principal env actor =
     run_bind (on_error map_auth_repository_error (get_by_id env 0 actor)) (\<lambda>p.
       run_return \<lparr>pv_ID = pi_ID p, pv_DisplayName = pi_DisplayName p, pv_Email = pi_Email p\<rparr>)"

record business_membership_view =
  bv_Business :: team_business
  bv_Role :: string
  bv_Permissions :: "string list"

definition current_memberships ::
  "auth_service \<Rightarrow> team_env \<Rightarrow> string \<Rightarrow> int \<Rightarrow> string \<Rightarrow> business_membership_view page auth_run" where
  "current_memberships S env actor limit cursor =
     run_bind (on_error map_auth_repository_error
         (list_active_memberships env (\<lambda>v. as_ParseUUID S v = None) actor limit cursor)) (\<lambda>out.
       run_return \<lparr>pp_Items = map (\<lambda>m. \<lparr>bv_Business = bm_Business m, bv_Role = bm_Role m, bv_Permissions = bm_Permissions m\<rparr>)
           (pp_Items out), pp_NextCursor = pp_NextCursor out, pp_HasMore = pp_HasMore out\<rparr>)"

section \<open>Histories of repository calls\<close>

datatype session_call =
    Create refresh_session_record time
  | Consume string time
  | Revoke string string time
  | Ensure string principal_record string string "string list" time

text \<open>A call, with the session it has consumed, if any.\<close>

primrec exec_session :: "team_env \<Rightarrow> session_call \<Rightarrow> auth_db \<Rightarrow> refresh_session_record option \<times> auth_db" where
  "exec_session env (Create s now) db = (None, snd (create_session env 0 s now db))"
| "exec_session env (Consume hash now) db =
     (case consume_session env 0 hash now db of (Inl _, db') \<Rightarrow> (None, db') | (Inr s, db') \<Rightarrow> (Some s, db'))"
| "exec_session env (Revoke principalID sessionID now) db = (None, snd (revoke_session env 0 principalID sessionID now db))"
| "exec_session env (Ensure newID who businessID role permissions now) db =
     (None, snd (ensure_principal_and_membership env newID who businessID role permissions now db))"

fun session_history :: "(team_env \<times> session_call) list \<Rightarrow> auth_db \<Rightarrow> (session_call \<times> refresh_session_record option) list" where
  "session_history [] db = []"
| "session_history ((env, c) # calls) db =
     (case exec_session env c db of (r, db') \<Rightarrow> (c, r) # session_history calls db')"

definition consumptions :: "string \<Rightarrow> (session_call \<times> refresh_session_record option) list \<Rightarrow> nat" where
  "consumptions hash h = length (filter (\<lambda>(c, r). r \<noteq> None \<and> (\<exists>now. c = Consume hash now)) h)"

text \<open>A session of the token that is used or revoked.\<close>

definition spent :: "string \<Rightarrow> auth_db \<Rightarrow> bool" where
  "spent hash db \<longleftrightarrow> (\<exists>s \<in> set (au_Sessions db). rs_TokenHash s = hash \<and> (rs_UsedAt s \<noteq> None \<or> rs_RevokedAt s \<noteq> None))"

definition sessions_ok :: "auth_db \<Rightarrow> bool" where
  "sessions_ok db \<longleftrightarrow> distinct (map rs_TokenHash (au_Sessions db))"

section \<open>Effects of the calls\<close>

lemma auth_write_effect: "snd (auth_write env n stmt db) = db \<or> (\<exists>x. stmt db = Inr (x, snd (auth_write env n stmt db)))"
  unfolding auth_write_def by (metis pg_write_cases prod.collapse)

lemma auth_write_Inr: "auth_write env n stmt db = (Inr x, db') \<longleftrightarrow> te_Fault env n = None \<and> stmt db = Inr (x, db')"
  by (simp add: auth_write_def pg_write_Inr)

lemma auth_read_Inr: "auth_read env n q db = (Inr x, db') \<longleftrightarrow> te_Fault env n = None \<and> q db = Inr x \<and> db' = db"
  by (auto simp: auth_read_def pg_read_def split: option.splits)

lemma snd_auth_read [simp]: "snd (auth_read env n q db) = db"
  by (simp add: auth_read_def)

lemma auth_method_Inr: "auth_method env refused body db = (Inr x, db') \<Longrightarrow> refused = None \<and> body db = (Inr x, db')"
  by (auto simp: auth_method_def run_fail_def on_executor_def split: if_splits option.splits)

lemma snd_auth_method: "snd (auth_method env refused body db) = db \<or> snd (auth_method env refused body db) = snd (body db)"
  by (auto simp: auth_method_def run_fail_def on_executor_def split: if_splits option.splits)

lemmas auth_call_rules = on_error_Inr auth_write_Inr auth_read_Inr scan_principal_def

text \<open>A method that consists of one statement.\<close>

lemma statement_effect:
  assumes "snd (auth_method env refused (on_error f (auth_write env n stmt)) db) \<noteq> db"
  shows "\<exists>x. stmt db = Inr (x, snd (auth_method env refused (on_error f (auth_write env n stmt)) db))"
proof -
  have "snd (auth_method env refused (on_error f (auth_write env n stmt)) db) = snd (auth_write env n stmt db)"
    using assms snd_auth_method [of env refused "on_error f (auth_write env n stmt)" db] by auto
  with assms auth_write_effect [of env n stmt db] show ?thesis by auto
qed

lemma auth_write_keeps:
  assumes "\<And>x db'. stmt db = Inr (x, db') \<Longrightarrow> au_Sessions db' = au_Sessions db"
  shows "au_Sessions (snd (auth_write env n stmt db)) = au_Sessions db"
  using auth_write_effect [of env n stmt db] assms by fastforce

lemma create_session_effect:
  assumes "snd (create_session env n s now db) \<noteq> db"
  shows "\<exists>u. insert_session env s now db = Inr (u, snd (create_session env n s now db))"
  using assms unfolding create_session_def by (rule statement_effect)

lemma insert_session_Inr:
  "insert_session env s now db = Inr (u, db') \<Longrightarrow>
     \<exists>row. db' = db\<lparr>au_Sessions := au_Sessions db @ [row]\<rparr> \<and> rs_TokenHash row = rs_TokenHash s \<and>
           rs_TokenHash s \<notin> rs_TokenHash ` set (au_Sessions db) \<and> pg_uuid (te_Pg env) (rs_PrincipalID s) = Some (rs_PrincipalID row) \<and>
           pg_uuid (te_Pg env) (rs_ID s) = Some (rs_ID row) \<and>
           rs_ExpiresAt row = stamp env (rs_ExpiresAt s) \<and> rs_UsedAt row = None \<and> rs_RevokedAt row = None"
  by (force simp: insert_session_def with_uuid_Inr Let_def split: if_splits)

lemma consume_stmt_Inr:
  "consume_stmt env hash now db = Inr (rec, db') \<longleftrightarrow>
     (\<exists>s. find (consumable env hash now) (au_Sessions db) = Some s \<and>
          rec = refresh_session_record.truncate (consumed env now s) \<and>
          db' = db\<lparr>au_Sessions := update_where (consumable env hash now) (consumed env now) (au_Sessions db)\<rparr>)"
  by (auto simp: consume_stmt_def update_returning_def split: option.splits)

lemma consume_session_effect:
  assumes "snd (consume_session env n hash now db) \<noteq> db"
  shows "snd (consume_session env n hash now db) =
    db\<lparr>au_Sessions := update_where (consumable env hash now) (consumed env now) (au_Sessions db)\<rparr>"
  using statement_effect [OF assms [unfolded consume_session_def]] unfolding consume_session_def [symmetric]
  by (auto simp: consume_stmt_Inr)

lemma revoke_stmt_Inr:
  "revoke_stmt env p i now db = Inr (x, db') \<Longrightarrow> \<exists>u v. db' = db\<lparr>au_Sessions := update_where
      (\<lambda>s. rs_ID s = u \<and> rs_PrincipalID s = v \<and> rs_RevokedAt s = None) (\<lambda>s. s\<lparr>rs_RevokedAt := Some (stamp env now)\<rparr>)
      (au_Sessions db)\<rparr>"
  by (auto simp: revoke_stmt_def with_uuid_Inr Let_def)

lemma revoke_session_effect:
  assumes "snd (revoke_session env n p i now db) \<noteq> db"
  shows "\<exists>hit. snd (revoke_session env n p i now db) =
    db\<lparr>au_Sessions := update_where hit (\<lambda>s. s\<lparr>rs_RevokedAt := Some (stamp env now)\<rparr>) (au_Sessions db)\<rparr>"
proof -
  let ?w = "auth_write env n (revoke_stmt env p i now)"
  let ?body = "run_bind (on_error (RepositoryError ''auth.revoke_refresh'' RepositoryInvalid) ?w)
      (\<lambda>affected. if affected = 0 then run_fail (RepositoryError ''auth.revoke_refresh'' RepositoryNotFound ErrNoRows)
                  else run_return ())"
  let ?refused = "if p = '''' \<or> i = '''' then Some (''auth.revoke_refresh'', ''principal and session id are required'') else None"
  have body: "snd (?body db) = snd (?w db)"
    by (subst snd_run_bind_reader) (auto simp: run_fail_def run_return_def)
  have "snd (revoke_session env n p i now db) = db \<or> snd (revoke_session env n p i now db) = snd (?w db)"
    using snd_auth_method [of env ?refused ?body db] unfolding revoke_session_def body .
  with assms auth_write_effect [of env n "revoke_stmt env p i now" db]
  obtain x where "revoke_stmt env p i now db = Inr (x, snd (revoke_session env n p i now db))" by auto
  from revoke_stmt_Inr [OF this] show ?thesis by blast
qed

lemma upsert_principal_sessions:
  "upsert_principal env who now db = Inr (x, db') \<Longrightarrow> au_Sessions db' = au_Sessions db"
  by (auto simp: upsert_principal_def with_uuid_Inr Let_def split: option.splits if_splits)

lemma upsert_member_sessions:
  "upsert_member env b i role ps now db = Inr (x, db') \<Longrightarrow> au_Sessions db' = au_Sessions db"
  by (auto simp: upsert_member_def with_uuid_Inr split: if_splits)

lemma run_bind_keeps:
  assumes "\<And>db. k (snd (m db)) = k db" and "\<And>x db. k (snd (f x db)) = k db"
  shows "k (snd (run_bind m f db)) = k db"
proof -
  obtain r db1 where m: "m db = (r, db1)" by (cases "m db")
  with assms(1) [of db] have "k db1 = k db" by simp
  with m assms(2) show ?thesis by (cases r) (simp_all add: run_bind_def)
qed

lemma sessions_ensure: "au_Sessions (snd (ensure_work env who b role ps now db)) = au_Sessions db"
proof -
  have "au_Sessions (snd (auth_write env 0 (upsert_principal env who now) db)) = au_Sessions db" for db
    by (rule auth_write_keeps) (rule upsert_principal_sessions)
  moreover have "au_Sessions (snd (auth_write env 1 (upsert_member env b i role ps now) db)) = au_Sessions db" for i db
    by (rule auth_write_keeps) (rule upsert_member_sessions)
  ultimately show ?thesis unfolding ensure_work_def scan_principal_def
    by (auto simp: on_executor_def run_return_def intro!: run_bind_keeps split: option.splits)
qed

lemma sessions_ensure_all: "au_Sessions (snd (ensure_principal_and_membership env i who b role ps now db)) = au_Sessions db"
proof -
  have w: "au_Sessions (snd (within tx (ensure_work env q b role ps now) db)) = au_Sessions db" for tx q
    using within_atomic [of tx "ensure_work env q b role ps now" db] sessions_ensure [of env q b role ps now db]
    by (metis prod.collapse snd_conv)
  show ?thesis unfolding ensure_principal_and_membership_def Let_def by (simp add: run_fail_def sessions_ensure w)
qed

section \<open>A token is used once\<close>

lemma update_keeps_hashes:
  assumes "\<And>s. rs_TokenHash (f s) = rs_TokenHash s" and "sessions_ok db"
  shows "sessions_ok (db\<lparr>au_Sessions := update_where p f (au_Sessions db)\<rparr>)"
  using assms by (simp add: sessions_ok_def map_key_update_where)

lemma update_keeps_spent:
  assumes "\<And>s. rs_TokenHash (f s) = rs_TokenHash s" and "\<And>s. rs_UsedAt s \<noteq> None \<Longrightarrow> rs_UsedAt (f s) \<noteq> None"
    and "\<And>s. rs_RevokedAt s \<noteq> None \<Longrightarrow> rs_RevokedAt (f s) \<noteq> None" and "spent hash db"
  shows "spent hash (db\<lparr>au_Sessions := update_where p f (au_Sessions db)\<rparr>)"
proof -
  from assms(4) obtain s where s: "s \<in> set (au_Sessions db)" "rs_TokenHash s = hash"
    "rs_UsedAt s \<noteq> None \<or> rs_RevokedAt s \<noteq> None" by (auto simp: spent_def)
  show ?thesis
  proof (cases "p s")
    case True
    from in_update_where_hit [where p = p and f = f, OF s(1) this] have "f s \<in> set (update_where p f (au_Sessions db))" .
    moreover have "rs_TokenHash (f s) = hash" "rs_UsedAt (f s) \<noteq> None \<or> rs_RevokedAt (f s) \<noteq> None"
      using s(2,3) assms(1-3) by auto
    ultimately show ?thesis unfolding spent_def by auto
  next
    case False
    from in_update_where_other [where p = p and f = f, OF s(1) this] have "s \<in> set (update_where p f (au_Sessions db))" .
    with s(2,3) show ?thesis unfolding spent_def by auto
  qed
qed

lemma consumed_simps [simp]:
  "rs_TokenHash (consumed env now s) = rs_TokenHash s" "rs_UsedAt (consumed env now s) \<noteq> None"
  "rs_RevokedAt (consumed env now s) \<noteq> None"
  by (simp_all add: consumed_def)

lemma insert_keeps:
  assumes "insert_session env s now db = Inr (u, db')"
  shows "sessions_ok db \<Longrightarrow> sessions_ok db'" and "spent hash db \<Longrightarrow> spent hash db'"
  using insert_session_Inr [OF assms] by (auto simp: sessions_ok_def spent_def)

text \<open>Every call keeps the hashes unique, and no call brings a spent token back.\<close>

lemma exec_session_keeps:
  assumes "exec_session env c db = (r, db')"
  shows "sessions_ok db \<Longrightarrow> sessions_ok db'" and "spent hash db \<Longrightarrow> spent hash db'"
proof -
  consider (same) "au_Sessions db' = au_Sessions db"
    | (new) s now u where "insert_session env s now db = Inr (u, db')"
    | (consume) h now where "db' = db\<lparr>au_Sessions := update_where (consumable env h now) (consumed env now) (au_Sessions db)\<rparr>"
    | (revoke) hit now where
        "db' = db\<lparr>au_Sessions := update_where hit (\<lambda>s. s\<lparr>rs_RevokedAt := Some (stamp env now)\<rparr>) (au_Sessions db)\<rparr>"
  proof (cases c)
    case (Create s now)
    then have "db' = snd (create_session env 0 s now db)" using assms by simp
    then show thesis using create_session_effect [of env 0 s now db] new same by metis
  next
    case (Consume h now)
    then have "db' = snd (consume_session env 0 h now db)" using assms by (auto split: prod.splits sum.splits)
    then show thesis using consume_session_effect [of env 0 h now db] consume same by metis
  next
    case (Revoke p i now)
    then have "db' = snd (revoke_session env 0 p i now db)" using assms by simp
    then show thesis using revoke_session_effect [of env 0 p i now db] revoke same by metis
  next
    case (Ensure i who b role ps now)
    then show thesis using assms sessions_ensure_all same by auto
  qed
  note cases = this
  show "sessions_ok db \<Longrightarrow> sessions_ok db'"
    by (cases rule: cases) (auto simp: sessions_ok_def map_key_update_where dest: insert_keeps(1) [unfolded sessions_ok_def])
  show "spent hash db \<Longrightarrow> spent hash db'"
  proof (cases rule: cases)
    case same
    then show "spent hash db \<Longrightarrow> spent hash db'" by (simp add: spent_def)
  next
    case (consume h now)
    then show "spent hash db \<Longrightarrow> spent hash db'" using update_keeps_spent [of "consumed env now"] by simp
  next
    case (revoke hit now)
    then show "spent hash db \<Longrightarrow> spent hash db'"
      using update_keeps_spent [of "\<lambda>s. s\<lparr>rs_RevokedAt := Some (stamp env now)\<rparr>"] by simp
  qed (rule insert_keeps(2))
qed

lemma consume_session_Inr:
  assumes "consume_session env n hash now db = (Inr rec, db')"
  obtains s where "s \<in> set (au_Sessions db)" "consumable env hash now s"
    "rec = refresh_session_record.truncate (consumed env now s)"
    "db' = db\<lparr>au_Sessions := update_where (consumable env hash now) (consumed env now) (au_Sessions db)\<rparr>"
proof -
  from assms have "consume_stmt env hash now db = Inr (rec, db')"
    unfolding consume_session_def by (auto dest!: auth_method_Inr simp: auth_call_rules)
  then obtain s where f: "find (consumable env hash now) (au_Sessions db) = Some s"
    "rec = refresh_session_record.truncate (consumed env now s)"
    "db' = db\<lparr>au_Sessions := update_where (consumable env hash now) (consumed env now) (au_Sessions db)\<rparr>"
    by (auto simp: consume_stmt_Inr)
  from f(1) have "s \<in> set (au_Sessions db)" "consumable env hash now s" by (auto simp: find_Some_iff)
  with f(2,3) show thesis by (rule that [rotated -2])
qed

lemma consume_spends:
  assumes "consume_session env n hash now db = (Inr rec, db')" and "sessions_ok db"
  shows "\<not> spent hash db" and "spent hash db'"
proof -
  from assms(1) obtain s where s: "s \<in> set (au_Sessions db)" "consumable env hash now s"
    "db' = db\<lparr>au_Sessions := update_where (consumable env hash now) (consumed env now) (au_Sessions db)\<rparr>"
    by (rule consume_session_Inr)
  show "\<not> spent hash db"
  proof
    assume "spent hash db"
    then obtain x where "x \<in> set (au_Sessions db)" "rs_TokenHash x = hash" "rs_UsedAt x \<noteq> None \<or> rs_RevokedAt x \<noteq> None"
      by (auto simp: spent_def)
    moreover with s assms(2) have "x = s" by (auto simp: sessions_ok_def consumable_def distinct_map inj_on_def)
    ultimately show False using s(2) by (auto simp: consumable_def)
  qed
  from in_update_where_hit [where p = "consumable env hash now" and f = "consumed env now", OF s(1,2)] s(2)
  show "spent hash db'" unfolding spent_def s(3) by (auto simp: consumable_def intro!: bexI [of _ "consumed env now s"])
qed

lemma consumptions_Cons:
  "consumptions hash ((c, r) # h) = (if r \<noteq> None \<and> (\<exists>now. c = Consume hash now) then 1 else 0) + consumptions hash h"
  by (simp add: consumptions_def)

lemma consumptions_bound:
  "sessions_ok db \<Longrightarrow> consumptions hash (session_history calls db) \<le> (if spent hash db then 0 else 1)"
proof (induction calls db rule: session_history.induct)
  case (2 env c calls db)
  obtain r db' where e: "exec_session env c db = (r, db')" by (cases "exec_session env c db")
  from exec_session_keeps [OF e] 2(2) have ok: "sessions_ok db'" and sp: "spent hash db \<Longrightarrow> spent hash db'" by auto
  from 2(1) [OF e [symmetric] ok] have IH: "consumptions hash (session_history calls db') \<le> (if spent hash db' then 0 else 1)" .
  show ?case
  proof (cases "r \<noteq> None \<and> (\<exists>now. c = Consume hash now)")
    case True
    with e obtain now rec where "consume_session env 0 hash now db = (Inr rec, db')" by (auto split: prod.splits sum.splits)
    from consume_spends [OF this 2(2)] IH e True show ?thesis by (simp add: consumptions_Cons)
  next
    case False
    then have "consumptions hash (session_history ((env, c) # calls) db) = consumptions hash (session_history calls db')"
      using e by (simp add: consumptions_Cons)
    with IH sp show ?thesis by (auto split: if_splits)
  qed
qed (simp add: consumptions_def)

section \<open>Sessions that are issued\<close>

text \<open>
  \<open>db'\<close> is \<open>db\<close> with one session more, for the principal, under the hash of the token in the answer, unused, and valid
  for the configured time; the answer names the principal.
\<close>

definition new_session :: "auth_service \<Rightarrow> team_env \<Rightarrow> principal \<Rightarrow> auth_result \<Rightarrow> auth_db \<Rightarrow> auth_db \<Rightarrow> bool" where
  "new_session S env p res db db' \<longleftrightarrow>
     (let row = last (au_Sessions db') in
      db' = db\<lparr>au_Sessions := au_Sessions db @ [row]\<rparr> \<and> pg_uuid (te_Pg env) (pr_ID p) = Some (rs_PrincipalID row) \<and>
      rs_TokenHash row = token_hash S (ax_RefreshToken res) \<and> rs_TokenHash row \<notin> rs_TokenHash ` set (au_Sessions db) \<and>
      rs_ExpiresAt row = stamp env (as_Now S + refresh_ttl S) \<and> rs_UsedAt row = None \<and> rs_RevokedAt row = None \<and>
      ax_Principal res = \<lparr>pv_ID = pr_ID p, pv_DisplayName = pr_DisplayName p, pv_Email = pr_Email p\<rparr>)"

lemma lift_result_Inr: "lift_result r db = (Inr x, db') \<longleftrightarrow> r = Inr x \<and> db' = db"
  by (auto simp: lift_result_def)

lemma create_session_Inr:
  "create_session env n s now db = (Inr u, db') \<Longrightarrow> insert_session env s now db = Inr (u, db')"
  unfolding create_session_def by (auto dest!: auth_method_Inr simp: auth_call_rules)

lemma issue_session_Inr:
  assumes "issue_session S env n (scan_principal_row p) db = (Inr res, db')"
  shows "new_session S env p res db db'"
proof -
  from assms obtain accessToken expiresAt refreshToken where
    c: "insert_session env \<lparr>rs_ID = as_NewID S, rs_PrincipalID = pr_ID p, rs_TokenHash = token_hash S refreshToken,
          rs_ExpiresAt = as_Now S + refresh_ttl S, rs_RevokedAt = None, rs_UsedAt = None\<rparr> (as_Now S) db = Inr ((), db')" and
    res: "res = \<lparr>ax_AccessToken = accessToken, ax_RefreshToken = refreshToken, ax_ExpiresAt = as_FormatRFC3339 S expiresAt,
       ax_RefreshExpiresAt = as_Now S + refresh_ttl S,
       ax_Principal = \<lparr>pv_ID = pr_ID p, pv_DisplayName = pr_DisplayName p, pv_Email = pr_Email p\<rparr>\<rparr>"
    by (auto simp: issue_session_def run_fail_eq run_bind_Inr run_return_eq lift_result_Inr on_error_Inr Let_def
        scan_principal_row_def dest!: create_session_Inr split: if_splits)
  from insert_session_Inr [OF c] res show ?thesis by (auto simp: new_session_def Let_def)
qed

lemma find_principal_Inr:
  "find_principal q db = Inr who \<Longrightarrow> \<exists>p \<in> set (tb_Principals db). q p \<and> who = scan_principal_row p"
  by (auto simp: find_principal_def find_Some_iff split: option.splits)

lemma get_by_email_Inr:
  "get_by_email env n email db = (Inr who, db') \<Longrightarrow>
     db' = db \<and> (\<exists>p \<in> set (tb_Principals db). te_Lower env (pr_Email p) = te_Lower env email \<and> who = scan_principal_row p)"
  unfolding get_by_email_def by (auto dest!: auth_method_Inr find_principal_Inr simp: auth_call_rules)

lemma get_by_id_Inr:
  "get_by_id env n i db = (Inr who, db') \<Longrightarrow>
     db' = db \<and> (\<exists>p \<in> set (tb_Principals db). pg_uuid (te_Pg env) i = Some (pr_ID p) \<and> who = scan_principal_row p)"
  unfolding get_by_id_def by (auto dest!: auth_method_Inr find_principal_Inr simp: auth_call_rules with_uuid_Inr)

lemma scan_principal_row_simps [simp]:
  "pi_Status (scan_principal_row p) = pr_Status p" "pi_PasswordHash (scan_principal_row p) = pr_PasswordHash p"
  by (simp_all add: scan_principal_row_def)

section \<open>Tokens as texts\<close>

definition printable :: "char \<Rightarrow> bool" where
  "printable c \<longleftrightarrow> 32 < byte_of c \<and> byte_of c < 128"

lemma trim_left_printable: "\<forall>c \<in> set s. printable c \<Longrightarrow> trim_left s = s"
  by (cases s rule: trim_left.cases) (auto simp: printable_def space1_def space2_def space3_def)

lemma trim_right_printable: "\<forall>c \<in> set s. printable c \<Longrightarrow> trim_right_rev s = s"
  by (cases s rule: trim_right_rev.cases) (auto simp: printable_def space1_def space2_def space3_def)

lemma trim_space_printable: "\<forall>c \<in> set s. printable c \<Longrightarrow> trim_space s = s"
  by (simp add: trim_space_def trim_left_printable trim_right_printable)

lemma split_dots_none: "CHR ''.'' \<notin> set s \<Longrightarrow> split_dots s = [s]"
  by (induction s) auto

lemma split_dots_two: "CHR ''.'' \<notin> set s \<Longrightarrow> split_dots (s @ CHR ''.'' # t) = s # split_dots t"
  by (induction s) auto

lemma hex_digits: "n < 16 \<Longrightarrow> hex_digit n \<in> set hex_alphabet"
  unfolding hex_digit_def by (rule nth_mem) (simp add: hex_alphabet_def)

lemma hex_encode_digits: "set (hex_encode s) \<subseteq> set hex_alphabet"
proof -
  have "byte_of c div 16 < 16" "byte_of c mod 16 < 16" for c
    by (simp_all add: byte_of_def less_mult_imp_div_less)
  then show ?thesis using hex_digits by (auto simp: hex_encode_def)
qed

text \<open>The digits are printable and none is a dot.\<close>

lemma printable_hex: "\<forall>c \<in> set (hex_alphabet @ ''-.''). printable c"
  by (simp add: hex_alphabet_def printable_def byte_of_def)

lemma hex_no_dot: "CHR ''.'' \<notin> set (hex_alphabet @ ''-'')"
  by (simp add: hex_alphabet_def)

section \<open>Properties\<close>

text \<open>
  C29: Whatever calls on the session store come in whatever order, and whatever fails in them, a refresh token is consumed at
  most once, and a token whose session was used or revoked before never.
\<close>

theorem refresh_token_single_use:
  assumes "sessions_ok db"
  shows "consumptions hash (session_history calls db) \<le> (if spent hash db then 0 else 1)"
  using assms by (rule consumptions_bound)

text \<open>
  C30: A rotation that answers has consumed a session of the token that was unused, not revoked and not expired; its
  principal is active, and the new session is the only other change.
\<close>

theorem rotate_session_sound:
  assumes "rotate_session S env token db = (Inr res, db')"
  shows "\<exists>s \<in> set (au_Sessions db). \<exists>p \<in> set (tb_Principals db).
    consumable env (token_hash S token) (as_Now S) s \<and> pg_uuid (te_Pg env) (rs_PrincipalID s) = Some (pr_ID p) \<and>
    pr_Status p = ''active'' \<and>
    new_session S env p res
      (db\<lparr>au_Sessions := update_where (consumable env (token_hash S token) (as_Now S)) (consumed env (as_Now S)) (au_Sessions db)\<rparr>)
      db'"
proof -
  from assms obtain session db1 who db2 where
    c: "consume_session env 0 (token_hash S token) (as_Now S) db = (Inr session, db1)" and
    g: "get_by_id env 1 (rs_PrincipalID session) db1 = (Inr who, db2)" and
    i: "pi_Status who = ''active''" "issue_session S env 2 who db2 = (Inr res, db')"
    by (auto simp: rotate_session_def run_fail_eq run_bind_Inr on_error_Inr split: if_splits)
  from c obtain s where s: "s \<in> set (au_Sessions db)" "consumable env (token_hash S token) (as_Now S) s"
      "session = refresh_session_record.truncate (consumed env (as_Now S) s)"
      "db1 = db\<lparr>au_Sessions := update_where (consumable env (token_hash S token) (as_Now S)) (consumed env (as_Now S)) (au_Sessions db)\<rparr>"
    by (rule consume_session_Inr)
  from get_by_id_Inr [OF g] obtain p where p: "db2 = db1" "p \<in> set (tb_Principals db1)"
      "pg_uuid (te_Pg env) (rs_PrincipalID session) = Some (pr_ID p)" "who = scan_principal_row p" by auto
  from issue_session_Inr i(2) p(1,4) have "new_session S env p res db1 db'" by blast
  with s p i(1) show ?thesis by (auto simp: consumed_def refresh_session_record.defs intro!: bexI [of _ s] bexI [of _ p])
qed

text \<open>
  C31: A login that answers has found an active principal with the address, up to the case the database ignores, whose
  password hash matches; one new session of that principal is the only change.
\<close>

theorem authenticate_sound:
  assumes "authenticate S env email password db = (Inr res, db')"
  shows "\<exists>p \<in> set (tb_Principals db). te_Lower env (pr_Email p) = te_Lower env email \<and> pr_Status p = ''active'' \<and>
    as_Bcrypt S (pr_PasswordHash p) password \<and> new_session S env p res db db'"
proof -
  from assms obtain who db1 where g: "get_by_email env 0 email db = (Inr who, db1)" and
    i: "pi_Status who = ''active''" "as_Bcrypt S (pi_PasswordHash who) password" "issue_session S env 1 who db1 = (Inr res, db')"
    by (auto simp: authenticate_def run_fail_eq run_bind_Inr on_error_Inr split: if_splits)
  from get_by_email_Inr [OF g] i issue_session_Inr show ?thesis by auto
qed

text \<open>
  C32: The identifier of the session is read back from every token made for it, when the identifier is written with
  hexadecimal digits and dashes, as the generator writes it.
\<close>

theorem refresh_token_roundtrip:
  assumes "as_ParseUUID S sessionID = None" and "set sessionID \<subseteq> set (hex_alphabet @ ''-'')"
    and "as_Random S = Inr bytes" and "bytes \<noteq> ''''"
  shows "\<exists>token. new_refresh_token S sessionID = Inr token \<and> refresh_session_id S token = Inr sessionID"
proof -
  let ?hex = "hex_encode bytes" and ?token = "sessionID @ CHR ''.'' # hex_encode bytes"
  have "set ?token \<subseteq> set (hex_alphabet @ ''-.'')" using assms(2) hex_encode_digits [of bytes] by auto
  then have trim: "trim_space ?token = ?token" using printable_hex by (intro trim_space_printable) blast
  have nodot: "CHR ''.'' \<notin> set sessionID" "CHR ''.'' \<notin> set ?hex" using assms(2) hex_encode_digits [of bytes] hex_no_dot by auto
  have parts: "split_dots ?token = [sessionID, ?hex]" using nodot by (simp add: split_dots_two split_dots_none)
  have "?hex \<noteq> ''''" using assms(4) by (cases bytes) (simp_all add: hex_encode_def)
  then show ?thesis using assms(1,3) trim parts by (auto simp: new_refresh_token_def refresh_session_id_def Let_def)
qed

section \<open>Examples\<close>

definition auth_sample_env :: team_env where
  "auth_sample_env =
     \<lparr>te_Pg = \<lparr>pg_now = 0, go_now = 0, pg_uuid = Some, pg_ts = (\<lambda>t. t), pg_executor = None, pg_write_fault = None,
               pg_read_fault = None\<rparr>,
      te_Tx = \<lparr>tx_ctx_err = None, tx_closed = False, tx_nested = False, tx_begin_err = None, tx_rollback_err = None,
               tx_commit_err = None\<rparr>,
      te_Unset = False, te_Fault = (\<lambda>_. None), te_Lower = to_lower, te_EmailFormat = (\<lambda>_. True),
      te_TextLess = (\<lambda>a b. a < b), te_SeatLimit = (\<lambda>_ _. None)\<rparr>"

definition auth_sample_service :: auth_service where
  "auth_sample_service =
     \<lparr>as_Wired = True, as_Now = 10, as_RefreshTTL = 100, as_Bcrypt = (\<lambda>h p. h = ''#'' @ p), as_Sha256 = (\<lambda>v. v),
      as_NewID = ''a1'', as_Random = Inr ''xy'', as_ParseUUID = (\<lambda>_. None), as_IssueAccessToken = (\<lambda>p t. Inr (p, t + 5)),
      as_FormatRFC3339 = (\<lambda>_. '''')\<rparr>"

definition auth_sample_session :: refresh_session where
  "auth_sample_session = \<lparr>rs_ID = ''b2'', rs_PrincipalID = ''p'', rs_TokenHash = ''74'', rs_ExpiresAt = 50, rs_RevokedAt = None,
     rs_UsedAt = None, rs_CreatedAt = 1\<rparr>"

definition auth_sample_db :: auth_db where
  "auth_sample_db = \<lparr>tb_Members = [], tb_Invitations = [],
     tb_Principals = [\<lparr>pr_ID = ''p'', pr_Email = ''a@b.c'', pr_DisplayName = ''A'', pr_PasswordHash = ''#s'',
        pr_Status = ''active'', pr_CreatedAt = 0, pr_UpdatedAt = 0\<rparr>],
     tb_Businesses = [], au_Sessions = [auth_sample_session]\<rparr>"

lemmas auth_sample_defs = auth_sample_env_def auth_sample_service_def auth_sample_session_def auth_sample_db_def

lemma auth_sample_ok: "sessions_ok auth_sample_db" "\<not> spent ''74'' auth_sample_db"
  by (simp_all add: sessions_ok_def spent_def auth_sample_defs)

theorem refresh_token_single_use_witness:
  "consumptions ''74'' (session_history [(auth_sample_env, Consume ''74'' 10), (auth_sample_env, Consume ''74'' 11)] auth_sample_db) = 1"
proof -
  let ?h = "session_history [(auth_sample_env, Consume ''74'' 10), (auth_sample_env, Consume ''74'' 11)] auth_sample_db"
  have "1 \<le> consumptions ''74'' ?h"
    by (simp add: consumptions_def consume_session_def auth_method_def on_executor_def on_error_def auth_write_def pg_write_def
        consume_stmt_def update_returning_def consumable_def auth_sample_defs)
  moreover have "consumptions ''74'' ?h \<le> 1" 
    using refresh_token_single_use [OF auth_sample_ok(1), of "''74''"] unfolding if_not_P [OF auth_sample_ok(2)] by blast
  ultimately show ?thesis by simp
qed

lemmas auth_eval = token_hash_def hex_encode_def hex_digit_def hex_alphabet_def byte_of_def trim_space_def space1_def space2_def space3_def
  run_bind_def run_return_def on_error_def auth_method_def on_executor_def auth_write_def auth_read_def pg_write_def pg_read_def
  with_uuid_def scan_principal_def find_principal_def scan_principal_row_def issue_session_def lift_result_def
  new_refresh_token_def create_session_def insert_session_def refresh_ttl_def

lemma rotate_sample: "\<exists>res db'. rotate_session auth_sample_service auth_sample_env ''t'' auth_sample_db = (Inr res, db')"
  by (simp add: rotate_session_def consume_session_def consume_stmt_def update_returning_def consumable_def consumed_def
      refresh_session_record.defs get_by_id_def auth_eval auth_sample_defs)

lemma authenticate_sample:
  "\<exists>res db'. authenticate auth_sample_service auth_sample_env ''a@b.c'' ''s'' auth_sample_db = (Inr res, db')"
  by (simp add: authenticate_def get_by_email_def auth_eval auth_sample_defs)

theorem rotate_session_sound_witness:
  "\<exists>res db' p. rotate_session auth_sample_service auth_sample_env ''t'' auth_sample_db = (Inr res, db') \<and>
     new_session auth_sample_service auth_sample_env p res
       (auth_sample_db\<lparr>au_Sessions := update_where (consumable auth_sample_env (token_hash auth_sample_service ''t'') 10)
          (consumed auth_sample_env 10) [auth_sample_session]\<rparr>) db'"
proof -
  from rotate_sample obtain res db' where r: "rotate_session auth_sample_service auth_sample_env ''t'' auth_sample_db = (Inr res, db')"
    by blast
  have "as_Now auth_sample_service = 10" "au_Sessions auth_sample_db = [auth_sample_session]" by (simp_all add: auth_sample_defs)
  with rotate_session_sound [OF r] r show ?thesis by auto
qed

theorem authenticate_sound_witness:
  "\<exists>res db' p. authenticate auth_sample_service auth_sample_env ''a@b.c'' ''s'' auth_sample_db = (Inr res, db') \<and>
     pr_Status p = ''active'' \<and> new_session auth_sample_service auth_sample_env p res auth_sample_db db'"
  using authenticate_sample authenticate_sound by metis

theorem refresh_token_roundtrip_witness:
  "\<exists>token. new_refresh_token auth_sample_service ''a1'' = Inr token \<and> refresh_session_id auth_sample_service token = Inr ''a1''"
  by (rule refresh_token_roundtrip [where bytes = "''xy''"]) (simp_all add: auth_sample_service_def hex_alphabet_def)

end
