(* ===== verification/Billing_Store.thy ===== *)
theory Billing_Store
  imports Postgres Observed_Runs
begin

text \<open>
  Subscriptions, their payments and their add-ons: \<^verbatim>\<open>postgres/subscription_repository.go\<close>, \<^verbatim>\<open>payment_repository.go\<close> and
  \<^verbatim>\<open>subscription_addon_repository.go\<close> on the tables of migrations 62, 76, 77 and 78, and the transaction of
  \<^verbatim>\<open>platformRecordPayment\<close> that records a payment and activates its subscription. A call runs alone: creation takes the
  lock of the business, the others lock the rows they read. A record that is returned is the row; the code and the
  version of the plan, which are read beside it, are left out. An \<^verbatim>\<open>int\<close> of Go is unbounded here and a column of
  type \<^verbatim>\<open>INT\<close> refuses what does not fit into 32 bits.
\<close>

section \<open>Data\<close>

record subscription =
  su_ID :: string
  su_BusinessID :: string
  su_PlanID :: string
  su_PriceYERSnapshot :: int
  su_AmountDueYER :: int
  su_PeriodStart :: time
  su_PeriodEnd :: time
  su_Status :: string
  su_AIReplyLimit :: int
  su_AICatalogLimit :: int
  su_ChannelLimit :: int
  su_ChannelCeiling :: int
  su_SeatLimit :: int
  su_InternalAICostBudgetYER :: int
  su_CostBudgetOverrideYER :: "int option"
  su_CostBudgetOverrideReason :: "string option"
  su_CostBudgetOverrideBy :: "string option"
  su_CostBudgetOverrideAt :: "time option"
  su_CancelledAt :: "time option"
  su_CancelledReason :: "string option"
  su_CancelledBy :: "string option"
  su_ActivatedAt :: "time option"
  su_CreatedAt :: time
  su_UpdatedAt :: time

record subscription_create =
  sc_ID :: string
  sc_BusinessID :: string
  sc_PlanID :: string
  sc_PriceYERSnapshot :: int
  sc_AmountDueYER :: int
  sc_PeriodStart :: time
  sc_PeriodEnd :: time
  sc_AIReplyLimit :: int
  sc_AICatalogLimit :: int
  sc_ChannelLimit :: int
  sc_ChannelCeiling :: int
  sc_SeatLimit :: int
  sc_InternalAICostBudgetYER :: int
  sc_Now :: time

record payment =
  py_ID :: string
  py_SubscriptionID :: string
  py_BusinessID :: string
  py_AmountYER :: int
  py_Method :: string
  py_Reference :: string
  py_PaidAt :: time
  py_RecordedBy :: string
  py_IdempotencyKey :: "string option"
  py_CreatedAt :: time

record payment_create =
  pc_SubscriptionID :: string
  pc_BusinessID :: string
  pc_AmountYER :: int
  pc_Method :: string
  pc_Reference :: string
  pc_PaidAt :: time
  pc_RecordedBy :: string
  pc_IdempotencyKey :: string
  pc_Now :: time

record addon =
  ad_ID :: string
  ad_SubscriptionID :: string
  ad_BusinessID :: string
  ad_Kind :: string
  ad_PriceYERSnapshot :: int
  ad_AIReplyDelta :: int
  ad_CatalogDelta :: int
  ad_SeatDelta :: int
  ad_ChannelDelta :: int
  ad_Status :: string
  ad_ActivatedAt :: "time option"
  ad_CancelledAt :: "time option"
  ad_CancelledReason :: "string option"
  ad_CancelledBy :: "string option"
  ad_CreatedBy :: string
  ad_CreationKey :: string
  ad_CreatedAt :: time
  ad_UpdatedAt :: time

record addon_create =
  nd_SubscriptionID :: string
  nd_BusinessID :: string
  nd_Kind :: string
  nd_CreatedBy :: string
  nd_IdempotencyKey :: string
  nd_Now :: time

record addon_payment_request =
  aq_AddonID :: string
  aq_RecordedBy :: string
  aq_IdempotencyKey :: string
  aq_Method :: string
  aq_Reference :: string
  aq_AmountYER :: int
  aq_PaidAt :: time
  aq_Now :: time

record addon_payment =
  ap_ID :: string
  ap_AddonID :: string
  ap_BusinessID :: string
  ap_AmountYER :: int
  ap_Method :: string
  ap_Reference :: string
  ap_PaidAt :: time
  ap_RecordedBy :: string
  ap_IdempotencyKey :: string
  ap_CreatedAt :: time

record capacity_approval =
  cp_SubscriptionID :: string
  cp_BusinessID :: string
  cp_MaxChannelPasses :: int
  cp_Reason :: string
  cp_ApprovedBy :: string
  cp_Now :: time

text \<open>Of the catalog, the channels and the memberships a row is its business, its key and its status.\<close>

type_synonym counted = "string \<times> string \<times> string"

record billing_db =
  bi_Subscriptions :: "subscription list"
  bi_Payments :: "payment list"
  bi_Addons :: "addon list"
  bi_AddonPayments :: "addon_payment list"
  bi_Approvals :: "capacity_approval list"
  bi_Businesses :: "string list"
  bi_Plans :: "string list"
  bi_CatalogItems :: "counted list"
  bi_Channels :: "counted list"
  bi_Members :: "counted list"

text \<open>
  What a call meets: the database and the transaction, a failure of its \<open>n\<close>-th statement, the identifier that is drawn for
  a new row, and the subscriptions that other transactions hold locked.
\<close>

record billing_env =
  be_Pg :: pg_env
  be_Tx :: tx_env
  be_Unset :: bool
  be_Fault :: "nat \<Rightarrow> db_fault option"
  be_NewID :: string
  be_Locked :: "string list"

type_synonym 'a billing_run = "(billing_db, 'a) run"

abbreviation bill_write :: "billing_env \<Rightarrow> nat \<Rightarrow> (billing_db \<Rightarrow> ('a \<times> billing_db) result) \<Rightarrow> 'a billing_run" where
  "bill_write env n \<equiv> faulty_write (be_Pg env) (be_Fault env n)"

abbreviation bill_read :: "billing_env \<Rightarrow> nat \<Rightarrow> (billing_db \<Rightarrow> 'a result) \<Rightarrow> 'a billing_run" where
  "bill_read env n \<equiv> faulty_read (be_Pg env) (be_Fault env n)"

abbreviation ts :: "billing_env \<Rightarrow> time \<Rightarrow> time" where
  "ts env t \<equiv> pg_ts (be_Pg env) t"

abbreviation uuid :: "billing_env \<Rightarrow> string \<Rightarrow> (string \<Rightarrow> 'a result) \<Rightarrow> 'a result" where
  "uuid env \<equiv> with_uuid (be_Pg env)"

definition bill_method :: "billing_env \<Rightarrow> string \<Rightarrow> (bool \<times> string) list \<Rightarrow> 'a billing_run \<Rightarrow> 'a billing_run" where
  "bill_method env operation refusals body =
     (if be_Unset env then run_fail err_pool_closed
      else (case find fst refusals of
              Some (_, message) \<Rightarrow> run_fail (invalid_repository_input operation message)
            | None \<Rightarrow> body))"

text \<open>\<^verbatim>\<open>if now.IsZero() { now = time.Now().UTC() }\<close>.\<close>

definition now_or_clock :: "billing_env \<Rightarrow> time \<Rightarrow> time" where
  "now_or_clock env now = (if is_zero now then go_now (be_Pg env) else now)"

section \<open>The tables\<close>

definition int4 :: "int \<Rightarrow> bool" where
  "int4 n \<longleftrightarrow> - (2 ^ 31) \<le> n \<and> n < 2 ^ 31"

definition live_status :: "string \<Rightarrow> bool" where
  "live_status st \<longleftrightarrow> st = ''PENDING'' \<or> st = ''ACTIVE''"

definition subscription_checks :: "subscription \<Rightarrow> bool" where
  "subscription_checks s \<longleftrightarrow>
     su_PeriodStart s < su_PeriodEnd s \<and> su_Status s \<in> {''PENDING'', ''ACTIVE'', ''EXPIRED'', ''CANCELLED''} \<and>
     (su_Status s = ''CANCELLED'' \<longleftrightarrow> su_CancelledAt s \<noteq> None) \<and>
     su_AIReplyLimit s > 0 \<and> su_AICatalogLimit s \<ge> 0 \<and> su_ChannelLimit s > 0 \<and> su_InternalAICostBudgetYER s > 0 \<and>
     (su_CostBudgetOverrideYER s = None \<longleftrightarrow> su_CostBudgetOverrideReason s = None) \<and>
     su_PriceYERSnapshot s > 0 \<and> su_AmountDueYER s > 0 \<and> su_ChannelCeiling s \<ge> su_ChannelLimit s \<and> su_SeatLimit s > 0 \<and>
     ((su_Status s = ''PENDING'' \<and> su_ActivatedAt s = None) \<or> su_Status s = ''CANCELLED'' \<or>
      (su_Status s \<in> {''ACTIVE'', ''EXPIRED''} \<and> su_ActivatedAt s \<noteq> None))"

text \<open>The keys of the table: the identifier, and one active and one pending subscription for a business.\<close>

definition same_slot :: "subscription \<Rightarrow> subscription \<Rightarrow> bool" where
  "same_slot x s \<longleftrightarrow>
     su_ID x = su_ID s \<or> (su_BusinessID x = su_BusinessID s \<and> su_Status x = su_Status s \<and> live_status (su_Status s))"

definition subscription_insert_violated :: "billing_db \<Rightarrow> subscription \<Rightarrow> string option" where
  "subscription_insert_violated db s =
     (if \<not> list_all int4 [su_PriceYERSnapshot s, su_AmountDueYER s, su_AIReplyLimit s, su_AICatalogLimit s, su_ChannelLimit s,
             su_ChannelCeiling s, su_SeatLimit s, su_InternalAICostBudgetYER s] then Some out_of_range
      else if \<not> subscription_checks s then Some check_violation
      else if \<exists>x \<in> set (bi_Subscriptions db). same_slot x s then Some unique_violation
      else if su_BusinessID s \<notin> set (bi_Businesses db) \<or> su_PlanID s \<notin> set (bi_Plans db) then Some foreign_key_violation
      else None)"

definition subscription_update_violated :: "billing_db \<Rightarrow> subscription \<Rightarrow> string option" where
  "subscription_update_violated db s =
     (if \<not> subscription_checks s then Some check_violation
      else if \<exists>x \<in> set (bi_Subscriptions db). su_ID x \<noteq> su_ID s \<and> same_slot x s then Some unique_violation
      else None)"

text \<open>\<^verbatim>\<open>UPDATE subscriptions SET f WHERE p RETURNING ...\<close> where \<open>p\<close> fixes the identifier.\<close>

definition update_subscription ::
  "(subscription \<Rightarrow> bool) \<Rightarrow> (subscription \<Rightarrow> subscription) \<Rightarrow> billing_db \<Rightarrow> (subscription \<times> billing_db) result" where
  "update_subscription p f db =
     (case update_returning p f (subscription_update_violated db) (bi_Subscriptions db) of
        Inl e \<Rightarrow> Inl e
      | Inr (s, rows) \<Rightarrow> Inr (s, db\<lparr>bi_Subscriptions := rows\<rparr>))"

section \<open>Subscriptions\<close>

definition get_subscription :: "billing_env \<Rightarrow> nat \<Rightarrow> string \<Rightarrow> subscription billing_run" where
  "get_subscription env n subscriptionID =
     bill_method env ''subscription.get'' [(blank subscriptionID, ''subscription id is required'')]
       (on_executor (be_Pg env) (on_error (classify_repository_get_error ''subscription.get'')
          (bill_read env n (\<lambda>db. uuid env subscriptionID (\<lambda>i. select_one (\<lambda>s. su_ID s = i) (bi_Subscriptions db))))))"

text \<open>\<^verbatim>\<open>tstzrange(a, b, '[)') && tstzrange(c, d, '[)')\<close>, where a range whose bounds are equal is empty.\<close>

definition periods_overlap :: "time \<Rightarrow> time \<Rightarrow> time \<Rightarrow> time \<Rightarrow> bool" where
  "periods_overlap a b c d \<longleftrightarrow> a < b \<and> c < d \<and> a < d \<and> c < b"

definition overlapping :: "billing_env \<Rightarrow> subscription_create \<Rightarrow> billing_db \<Rightarrow> bool result" where
  "overlapping env c db =
     uuid env (sc_BusinessID c) (\<lambda>b.
       if ts env (sc_PeriodEnd c) < ts env (sc_PeriodStart c) then Inl (PgError ''22000'')
       else Inr (\<exists>s \<in> set (bi_Subscriptions db). su_BusinessID s = b \<and> live_status (su_Status s) \<and>
              periods_overlap (su_PeriodStart s) (su_PeriodEnd s) (ts env (sc_PeriodStart c)) (ts env (sc_PeriodEnd c))))"

definition insert_subscription :: "billing_env \<Rightarrow> subscription_create \<Rightarrow> billing_db \<Rightarrow> (subscription \<times> billing_db) result" where
  "insert_subscription env c db =
     uuid env (sc_ID c) (\<lambda>i. uuid env (sc_BusinessID c) (\<lambda>b. uuid env (sc_PlanID c) (\<lambda>p.
       let s = \<lparr>su_ID = i, su_BusinessID = b, su_PlanID = p, su_PriceYERSnapshot = sc_PriceYERSnapshot c,
                su_AmountDueYER = sc_AmountDueYER c, su_PeriodStart = ts env (sc_PeriodStart c),
                su_PeriodEnd = ts env (sc_PeriodEnd c), su_Status = ''PENDING'', su_AIReplyLimit = sc_AIReplyLimit c,
                su_AICatalogLimit = sc_AICatalogLimit c, su_ChannelLimit = sc_ChannelLimit c,
                su_ChannelCeiling = sc_ChannelCeiling c, su_SeatLimit = sc_SeatLimit c,
                su_InternalAICostBudgetYER = sc_InternalAICostBudgetYER c, su_CostBudgetOverrideYER = None,
                su_CostBudgetOverrideReason = None, su_CostBudgetOverrideBy = None, su_CostBudgetOverrideAt = None,
                su_CancelledAt = None, su_CancelledReason = None, su_CancelledBy = None, su_ActivatedAt = None,
                su_CreatedAt = ts env (sc_Now c), su_UpdatedAt = ts env (sc_Now c)\<rparr>
       in case subscription_insert_violated db s of
            Some code \<Rightarrow> Inl (PgError code)
          | None \<Rightarrow> Inr (s, db\<lparr>bi_Subscriptions := bi_Subscriptions db @ [s]\<rparr>))))"

definition create_subscription :: "billing_env \<Rightarrow> subscription_create \<Rightarrow> subscription billing_run" where
  "create_subscription env c0 =
     (let c = c0\<lparr>sc_ChannelCeiling := if sc_ChannelCeiling c0 = 0 then sc_ChannelLimit c0 else sc_ChannelCeiling c0,
                 sc_SeatLimit := if sc_SeatLimit c0 = 0 then 1 else sc_SeatLimit c0,
                 sc_Now := now_or_clock env (sc_Now c0)\<rparr> in
      bill_method env ''subscription.create''
        [(blank (sc_ID c) \<or> blank (sc_BusinessID c) \<or> blank (sc_PlanID c), ''id, business_id, and plan_id are required''),
         (\<not> sc_PeriodStart c < sc_PeriodEnd c, ''period_end must be after period_start''),
         (sc_AIReplyLimit c \<le> 0 \<or> sc_ChannelLimit c \<le> 0 \<or> sc_InternalAICostBudgetYER c \<le> 0,
          ''ai_reply_limit, channel_limit, and internal_ai_cost_budget must be positive''),
         (sc_AICatalogLimit c < 0, ''ai_catalog_limit must be non-negative''),
         (sc_PriceYERSnapshot c \<le> 0 \<or> sc_AmountDueYER c \<le> 0, ''price snapshot and amount due must be positive''),
         (sc_ChannelCeiling c < sc_ChannelLimit c \<or> sc_SeatLimit c < 1, ''channel ceiling and seat limit are invalid'')]
        (on_error (classify_repository_write_error ''subscription.create'')
          (within (be_Tx env) (on_executor (be_Pg env)
            (run_bind (bill_read env 0 (\<lambda>db. Inr ()))
              (\<lambda>_. run_bind (bill_read env 1 (overlapping env c))
                (\<lambda>overlaps. if overlaps
                   then run_fail (RepositoryError ''subscription.create'' RepositoryConflict
                          (PlainError ''subscription period overlaps an existing PENDING or ACTIVE period''))
                   else bill_write env 2 (insert_subscription env c))))))))"

definition cannot_transition :: "string \<Rightarrow> string \<Rightarrow> string \<Rightarrow> string \<Rightarrow> go_error" where
  "cannot_transition operation i status target =
     RepositoryError operation RepositoryConflict
       (PlainError (''subscription '' @ i @ '' is in status '' @ status @ '' (cannot transition to '' @ target @ '')''))"

text \<open>What a transition answers that found no row: the subscription is missing or in another status.\<close>

definition explain_no_transition ::
  "billing_env \<Rightarrow> nat \<Rightarrow> string \<Rightarrow> string \<Rightarrow> string \<Rightarrow> go_error \<Rightarrow> subscription billing_run" where
  "explain_no_transition env n operation i target e =
     (if is_no_rows e
      then run_bind (on_error (RepositoryError operation RepositoryNotFound) (get_subscription env n i))
             (\<lambda>current. run_fail (cannot_transition operation i (su_Status current) target))
      else run_fail (RepositoryError operation RepositoryInvalid e))"

definition run_catch :: "('s, 'a) run \<Rightarrow> (go_error \<Rightarrow> ('s, 'a) run) \<Rightarrow> ('s, 'a) run" where
  "run_catch m h s = (case m s of (Inl e, s') \<Rightarrow> h e s' | (Inr x, s') \<Rightarrow> (Inr x, s'))"

definition activated :: "time \<Rightarrow> subscription \<Rightarrow> subscription" where
  "activated at s = s\<lparr>su_Status := ''ACTIVE'', su_ActivatedAt := Some at, su_UpdatedAt := at\<rparr>"

definition activate_subscription :: "billing_env \<Rightarrow> nat \<Rightarrow> string \<Rightarrow> time \<Rightarrow> subscription billing_run" where
  "activate_subscription env n subscriptionID now0 =
     bill_method env ''subscription.activate'' [(blank subscriptionID, ''subscription id is required'')]
       (let at = ts env (now_or_clock env now0) in
        on_executor (be_Pg env)
          (run_catch
            (bill_write env n (\<lambda>db. uuid env subscriptionID (\<lambda>i.
               update_subscription (\<lambda>s. su_ID s = i \<and> su_Status s = ''PENDING'' \<and> su_PeriodStart s \<le> at \<and> at < su_PeriodEnd s)
                 (activated at) db)))
            (explain_no_transition env (n + 1) ''subscription.activate'' subscriptionID ''ACTIVE'')))"

text \<open>The add-ons of a subscription that ends are cancelled with it.\<close>

definition cancel_addons :: "(string \<Rightarrow> bool) \<Rightarrow> time \<Rightarrow> string option \<Rightarrow> string \<Rightarrow> billing_db \<Rightarrow> billing_db" where
  "cancel_addons p at who reason db =
     db\<lparr>bi_Addons := update_where (\<lambda>a. p (ad_SubscriptionID a) \<and> live_status (ad_Status a))
         (\<lambda>a. a\<lparr>ad_Status := ''CANCELLED'', ad_CancelledAt := Some at,
                ad_CancelledBy := (case who of None \<Rightarrow> ad_CancelledBy a | Some u \<Rightarrow> Some u),
                ad_CancelledReason := Some reason, ad_UpdatedAt := at\<rparr>) (bi_Addons db)\<rparr>"

definition cancelled :: "time \<Rightarrow> string \<Rightarrow> string \<Rightarrow> subscription \<Rightarrow> subscription" where
  "cancelled at reason who s = s\<lparr>su_Status := ''CANCELLED'', su_UpdatedAt := at, su_CancelledAt := Some at,
     su_CancelledReason := Some reason, su_CancelledBy := Some who\<rparr>"

definition cancel_subscription :: "billing_env \<Rightarrow> string \<Rightarrow> string \<Rightarrow> string \<Rightarrow> time \<Rightarrow> subscription billing_run" where
  "cancel_subscription env subscriptionID reason cancelledBy now0 =
     bill_method env ''subscription.cancel''
       [(blank subscriptionID, ''subscription id is required''), (blank reason, ''cancellation reason is required''),
        (blank cancelledBy, ''cancelled_by is required'')]
       (let at = ts env (now_or_clock env now0) in
        run_catch
          (within (be_Tx env) (on_executor (be_Pg env)
            (run_bind (bill_write env 0 (\<lambda>db. uuid env subscriptionID (\<lambda>i. uuid env cancelledBy (\<lambda>u.
                 update_subscription (\<lambda>s. su_ID s = i \<and> live_status (su_Status s)) (cancelled at reason u) db))))
              (\<lambda>s. run_bind (bill_write env 1 (\<lambda>db. uuid env subscriptionID (\<lambda>i. uuid env cancelledBy (\<lambda>u.
                   Inr ((), cancel_addons (\<lambda>x. x = i) at (Some u) ''subscription cancelled'' db)))))
                (\<lambda>_. run_return s)))))
          (explain_no_transition env 2 ''subscription.cancel'' subscriptionID ''CANCELLED''))"

definition expired :: "time \<Rightarrow> subscription \<Rightarrow> subscription" where
  "expired at s = s\<lparr>su_Status := ''EXPIRED'', su_UpdatedAt := at\<rparr>"

definition mark_expired :: "billing_env \<Rightarrow> string \<Rightarrow> time \<Rightarrow> subscription billing_run" where
  "mark_expired env subscriptionID now0 =
     bill_method env ''subscription.mark_expired'' [(blank subscriptionID, ''subscription id is required'')]
       (let at = ts env (now_or_clock env now0) in
        run_catch
          (within (be_Tx env) (on_executor (be_Pg env)
            (run_bind (bill_write env 0 (\<lambda>db. uuid env subscriptionID (\<lambda>i.
                 update_subscription (\<lambda>s. su_ID s = i \<and> su_Status s = ''ACTIVE'' \<and> su_PeriodEnd s \<le> at) (expired at) db)))
              (\<lambda>s. run_bind (bill_write env 1 (\<lambda>db. uuid env subscriptionID (\<lambda>i.
                   Inr ((), cancel_addons (\<lambda>x. x = i) at None ''subscription period expired'' db))))
                (\<lambda>_. run_return s)))))
          (\<lambda>e. if is_no_rows e
               then run_bind (get_subscription env 2 subscriptionID)
                 (\<lambda>current. if su_Status current = ''EXPIRED'' then run_return current
                   else run_fail (cannot_transition ''subscription.mark_expired'' subscriptionID (su_Status current) ''EXPIRED''))
               else run_fail (RepositoryError ''subscription.mark_expired'' RepositoryInvalid e)))"

text \<open>One statement of the worker: the subscriptions that are due, but for those locked by others, with their add-ons.\<close>

definition due_subscriptions :: "billing_env \<Rightarrow> time \<Rightarrow> int \<Rightarrow> billing_db \<Rightarrow> string list" where
  "due_subscriptions env at limit db =
     take (nat limit) (map su_ID (sort_key (\<lambda>s. (su_PeriodEnd s, su_ID s))
       (filter (\<lambda>s. su_Status s = ''ACTIVE'' \<and> su_PeriodEnd s \<le> at \<and> su_ID s \<notin> set (be_Locked env)) (bi_Subscriptions db))))"

definition expire_stmt :: "billing_env \<Rightarrow> time \<Rightarrow> int \<Rightarrow> billing_db \<Rightarrow> (int \<times> billing_db) result" where
  "expire_stmt env at limit db =
     (let due = due_subscriptions env at limit db in
      Inr (int (length due),
           cancel_addons (\<lambda>i. i \<in> set due) at None ''subscription period expired''
             (db\<lparr>bi_Subscriptions := update_where (\<lambda>s. su_ID s \<in> set due) (expired at) (bi_Subscriptions db)\<rparr>)))"

definition expire_due_subscriptions :: "billing_env \<Rightarrow> time \<Rightarrow> int \<Rightarrow> int billing_run" where
  "expire_due_subscriptions env now0 limit0 =
     bill_method env ''subscription.expire_due'' []
       (let limit = (if limit0 \<le> 0 \<or> limit0 > 1000 then 100 else limit0) in
        on_executor (be_Pg env) (on_error (RepositoryError ''subscription.expire_due'' RepositoryInvalid)
          (bill_write env 0 (expire_stmt env (ts env (now_or_clock env now0)) limit))))"

definition overridden :: "time \<Rightarrow> int \<Rightarrow> string \<Rightarrow> string \<Rightarrow> subscription \<Rightarrow> subscription" where
  "overridden at budget reason who s = s\<lparr>su_CostBudgetOverrideYER := Some budget, su_CostBudgetOverrideReason := Some reason,
     su_CostBudgetOverrideBy := Some who, su_CostBudgetOverrideAt := Some at, su_UpdatedAt := at\<rparr>"

definition apply_cost_budget_override :: "billing_env \<Rightarrow> string \<Rightarrow> int \<Rightarrow> string \<Rightarrow> string \<Rightarrow> time \<Rightarrow> subscription billing_run" where
  "apply_cost_budget_override env subscriptionID budget reason overrideBy now0 =
     bill_method env ''subscription.cost_budget_override''
       [(blank subscriptionID, ''subscription id is required''), (budget \<le> 0, ''new_budget_yer must be positive''),
        (blank reason, ''reason is required''), (blank overrideBy, ''override_by is required'')]
       (on_executor (be_Pg env) (on_error (classify_repository_get_error ''subscription.cost_budget_override'')
          (bill_write env 0 (\<lambda>db. uuid env subscriptionID (\<lambda>i. uuid env overrideBy (\<lambda>u.
             if \<not> int4 budget then Inl (PgError out_of_range)
             else update_subscription (\<lambda>s. su_ID s = i) (overridden (ts env (now_or_clock env now0)) budget reason u) db))))))"

section \<open>Entitlements\<close>

text \<open>The advice in the messages, with its dash and its section sign in UTF-8.\<close>

definition overrun_advice :: string where
  "overrun_advice = '' '' @ map char_of [226, 128, 148 :: nat] @ '' resolve the overrun before activation''"

definition contract_section :: "string \<Rightarrow> string" where
  "contract_section n = '' (Contract '' @ map char_of [194, 167 :: nat] @ n @ '')''"

definition count_active :: "string \<Rightarrow> counted list \<Rightarrow> int" where
  "count_active b rows = int (length (filter (\<lambda>(x, _, st). x = b \<and> st = ''active'') rows))"

definition active_delta :: "(addon \<Rightarrow> int) \<Rightarrow> (addon \<Rightarrow> bool) \<Rightarrow> billing_db \<Rightarrow> int" where
  "active_delta delta p db = sum_list (map delta (filter p (bi_Addons db)))"

definition conflict_at :: "string \<Rightarrow> string \<Rightarrow> go_error" where
  "conflict_at operation message = RepositoryError operation RepositoryConflict (PlainError message)"

definition check_entitlements ::
  "billing_env \<Rightarrow> nat \<Rightarrow> string \<Rightarrow> int \<Rightarrow> int \<Rightarrow> int \<Rightarrow> unit billing_run" where
  "check_entitlements env n businessID catalogLimit channelLimit seatLimit =
     bill_method env ''subscription.check_entitlements'' [(blank businessID, ''business_id is required'')]
       (on_executor (be_Pg env)
         (let count = (\<lambda>k operation rows. on_error (RepositoryError operation RepositoryInvalid)
                (bill_read env (n + k) (\<lambda>db. uuid env businessID (\<lambda>b. Inr (count_active b (rows db))))))
          in run_bind (count 0 ''subscription.check_entitlements.catalog'' bi_CatalogItems) (\<lambda>catalogCount.
             if catalogCount > catalogLimit
             then run_fail (conflict_at ''subscription.check_entitlements.catalog''
                    (''catalog item count '' @ decimal catalogCount @ '' exceeds plan limit '' @ decimal catalogLimit @ overrun_advice @ contract_section ''34''))
             else run_bind (count 1 ''subscription.check_entitlements.channels'' bi_Channels) (\<lambda>channelCount.
             if channelCount > channelLimit
             then run_fail (conflict_at ''subscription.check_entitlements.channels''
                    (''active channel count '' @ decimal channelCount @ '' exceeds plan limit '' @ decimal channelLimit @ overrun_advice @ contract_section ''35''))
             else run_bind (count 2 ''subscription.check_entitlements.seats'' bi_Members) (\<lambda>seatCount.
             if seatCount > seatLimit
             then run_fail (conflict_at ''subscription.check_entitlements.seats''
                    (''active seat count '' @ decimal seatCount @ '' exceeds plan limit '' @ decimal seatLimit @ overrun_advice))
             else run_return ())))))"

definition ensure_catalog_item_activation :: "billing_env \<Rightarrow> string \<Rightarrow> string \<Rightarrow> time \<Rightarrow> unit billing_run" where
  "ensure_catalog_item_activation env businessID itemID now0 =
     bill_method env ''subscription.catalog_activation''
       [(blank businessID \<or> blank itemID, ''business and item ids are required'')]
       (let at = ts env (now_or_clock env now0) in
        on_executor (be_Pg env)
         (run_bind (on_error (RepositoryError ''subscription.catalog_activation.lock'' RepositoryInvalid) (bill_read env 0 (\<lambda>db. Inr ())))
          (\<lambda>_. run_bind
             (on_error (\<lambda>e. if is_no_rows e
                 then conflict_at ''subscription.catalog_activation'' ''an active subscription is required to activate a catalog item''
                 else RepositoryError ''subscription.catalog_activation'' RepositoryInvalid e)
               (bill_read env 1 (\<lambda>db. uuid env businessID (\<lambda>b.
                  case select_one (\<lambda>s. su_BusinessID s = b \<and> su_Status s = ''ACTIVE'' \<and> su_PeriodStart s \<le> at \<and> at < su_PeriodEnd s)
                         (bi_Subscriptions db) of
                    Inl e \<Rightarrow> Inl e
                  | Inr s \<Rightarrow> Inr (su_AICatalogLimit s +
                      active_delta ad_CatalogDelta (\<lambda>a. ad_SubscriptionID a = su_ID s \<and> ad_Status a = ''ACTIVE'') db)))))
             (\<lambda>limit. run_bind (on_error (RepositoryError ''subscription.catalog_activation'' RepositoryInvalid)
                 (bill_read env 2 (\<lambda>db. uuid env businessID (\<lambda>b. uuid env itemID (\<lambda>i.
                    Inr (int (length (filter (\<lambda>(x, j, st). x = b \<and> st = ''active'' \<and> j \<noteq> i) (bi_CatalogItems db)))))))))
               (\<lambda>active. if active \<ge> limit
                  then run_fail (conflict_at ''subscription.catalog_activation''
                         (''active catalog product limit '' @ decimal limit @ '' has been reached''))
                  else run_return ())))))"

section \<open>Payments\<close>

definition payment_methods :: "string list" where
  "payment_methods = [''CASH'', ''BANK_TRANSFER'', ''MOBILE_MONEY'', ''OTHER'']"

definition payment_checks :: "payment \<Rightarrow> bool" where
  "payment_checks p \<longleftrightarrow>
     py_AmountYER p > 0 \<and> py_Method p \<in> set payment_methods \<and> sql_nonblank (py_Reference p) \<and>
     (case py_IdempotencyKey p of None \<Rightarrow> True | Some k \<Rightarrow> sql_nonblank k)"

text \<open>The keys of the table of payments: one payment for a subscription, one for an actor and key.\<close>

definition same_payment :: "payment \<Rightarrow> payment \<Rightarrow> bool" where
  "same_payment x p \<longleftrightarrow>
     py_ID x = py_ID p \<or> py_SubscriptionID x = py_SubscriptionID p \<or>
     (py_RecordedBy x = py_RecordedBy p \<and> py_IdempotencyKey x = py_IdempotencyKey p \<and> py_IdempotencyKey p \<noteq> None)"

text \<open>\<^verbatim>\<open>INSERT ... ON CONFLICT DO NOTHING RETURNING ...\<close>: no row where a key is taken.\<close>

definition insert_payment :: "billing_env \<Rightarrow> payment_create \<Rightarrow> string \<Rightarrow> billing_db \<Rightarrow> (payment \<times> billing_db) result" where
  "insert_payment env c pay_method db =
     uuid env (be_NewID env) (\<lambda>i. uuid env (pc_SubscriptionID c) (\<lambda>s. uuid env (pc_BusinessID c) (\<lambda>b. uuid env (pc_RecordedBy c) (\<lambda>r.
       let p = \<lparr>py_ID = i, py_SubscriptionID = s, py_BusinessID = b, py_AmountYER = pc_AmountYER c, py_Method = pay_method,
                py_Reference = pc_Reference c, py_PaidAt = ts env (pc_PaidAt c), py_RecordedBy = r,
                py_IdempotencyKey = (if trim_space (pc_IdempotencyKey c) = '''' then None else Some (trim_space (pc_IdempotencyKey c))),
                py_CreatedAt = ts env (pc_Now c)\<rparr>
       in if \<not> int4 (py_AmountYER p) then Inl (PgError out_of_range)
          else if \<not> payment_checks p then Inl (PgError check_violation)
          else if \<exists>x \<in> set (bi_Payments db). same_payment x p then Inl ErrNoRows
          else if \<not> (\<exists>x \<in> set (bi_Subscriptions db). su_ID x = s \<and> su_BusinessID x = b) then Inl (PgError foreign_key_violation)
          else Inr (p, db\<lparr>bi_Payments := bi_Payments db @ [p]\<rparr>)))))"

definition differs :: "payment \<Rightarrow> payment_create \<Rightarrow> string \<Rightarrow> bool" where
  "differs p c pay_method \<longleftrightarrow>
     py_SubscriptionID p \<noteq> pc_SubscriptionID c \<or> py_BusinessID p \<noteq> pc_BusinessID c \<or> py_AmountYER p \<noteq> pc_AmountYER c \<or>
     py_Method p \<noteq> pay_method \<or> py_Reference p \<noteq> pc_Reference c \<or> py_PaidAt p \<noteq> pc_PaidAt c"

definition append_payment :: "billing_env \<Rightarrow> nat \<Rightarrow> payment_create \<Rightarrow> payment billing_run" where
  "append_payment env n c0 =
     (let pay_method = trim_space (to_upper (pc_Method c0));
          c = c0\<lparr>pc_PaidAt := now_or_clock env (pc_PaidAt c0), pc_Now := now_or_clock env (pc_Now c0)\<rparr> in
      bill_method env ''payment.append''
        [(blank (pc_SubscriptionID c) \<or> blank (pc_BusinessID c), ''subscription_id and business_id are required''),
         (pc_AmountYER c \<le> 0, ''amount_yer must be positive''),
         (pay_method \<notin> set payment_methods, ''method must be one of CASH / BANK_TRANSFER / MOBILE_MONEY / OTHER''),
         (blank (pc_Reference c), ''reference is required (per Contract '' @ map char_of [194, 167 :: nat] @ ''27)''),
         (blank (pc_RecordedBy c), ''recorded_by is required'')]
        (on_executor (be_Pg env)
          (run_catch (bill_write env n (insert_payment env c pay_method))
            (\<lambda>e. if is_no_rows e \<and> \<not> blank (pc_IdempotencyKey c)
                 then run_catch
                   (run_bind (bill_read env (n + 1) (\<lambda>db. uuid env (pc_RecordedBy c) (\<lambda>r.
                        select_one (\<lambda>p. py_RecordedBy p = r \<and> py_IdempotencyKey p = Some (trim_space (pc_IdempotencyKey c)))
                          (bi_Payments db))))
                     (\<lambda>p. if differs p c pay_method
                          then run_fail (conflict_at ''payment.append'' ''idempotency key was already used with a different payment request'')
                          else run_return p))
                   (\<lambda>e2. run_fail
                      (if repository_kind e2 \<noteq> None then e2
                       else if is_no_rows e2
                       then conflict_at ''payment.append'' ''subscription already has a different payment or the idempotency key conflicts''
                       else classify_repository_write_error ''payment.append'' e2))
                 else run_fail (classify_repository_write_error ''payment.append'' e)))))"

definition get_payment :: "billing_env \<Rightarrow> nat \<Rightarrow> string \<Rightarrow> payment billing_run" where
  "get_payment env n paymentID =
     bill_method env ''payment.get'' [(blank paymentID, ''payment id is required'')]
       (on_executor (be_Pg env) (on_error (classify_repository_get_error ''payment.get'')
          (bill_read env n (\<lambda>db. uuid env paymentID (\<lambda>i. select_one (\<lambda>p. py_ID p = i) (bi_Payments db))))))"

text \<open>
  \<^verbatim>\<open>platformRecordPayment\<close> up to its audit entries: the request, the administrator and the clock of the call are
  arguments; the request's time is what \<^verbatim>\<open>parseOptionalRFC3339\<close> has read from it, if anything.
\<close>

record payment_request =
  pq_SubscriptionID :: string
  pq_AmountYER :: int
  pq_Method :: string
  pq_Reference :: string
  pq_IdempotencyKey :: string
  pq_PaidAt :: "time option"
  pq_AdminID :: string

definition payment_refusal :: "payment_request \<Rightarrow> go_error option" where
  "payment_refusal q =
     (if blank (pq_SubscriptionID q) then Some (app_error CodeValidation ''subscription_id is required'')
      else if pq_AmountYER q \<le> 0 then Some (app_error CodeValidation ''amount_yer must be positive'')
      else if blank (pq_Method q) then Some (app_error CodeValidation ''method is required'')
      else if blank (pq_Reference q) then Some (app_error CodeValidation ''reference is required'')
      else if blank (pq_IdempotencyKey q) then Some (app_error CodeValidation ''Idempotency-Key header is required'')
      else if pq_PaidAt q = None then Some (app_error CodeValidation ''paid_at must be a valid RFC 3339 timestamp'')
      else None)"

definition activation_gate :: "billing_env \<Rightarrow> subscription \<Rightarrow> time \<Rightarrow> unit billing_run" where
  "activation_gate env sub now =
     (if su_Status sub = ''PENDING''
      then if now < su_PeriodStart sub \<or> \<not> now < su_PeriodEnd sub
           then run_fail (app_error CodeConflict ''subscription period is not currently eligible for activation'')
           else check_entitlements env 1 (su_BusinessID sub) (su_AICatalogLimit sub) (su_ChannelLimit sub) (su_SeatLimit sub)
      else run_return ())"

definition pay_and_activate :: "billing_env \<Rightarrow> payment_request \<Rightarrow> time \<Rightarrow> time \<Rightarrow> payment billing_run" where
  "pay_and_activate env q paidAt now =
     run_bind (get_subscription env 0 (trim_space (pq_SubscriptionID q))) (\<lambda>sub.
       if pq_AmountYER q \<noteq> su_AmountDueYER sub
       then run_fail (app_error CodeConflict (''amount_yer must equal the immutable amount due: '' @ decimal (su_AmountDueYER sub) @ '' YER''))
       else run_bind (activation_gate env sub now) (\<lambda>_. run_bind (append_payment env 4 \<lparr>pc_SubscriptionID = su_ID sub, pc_BusinessID = su_BusinessID sub,
                pc_AmountYER = pq_AmountYER q, pc_Method = pq_Method q, pc_Reference = pq_Reference q, pc_PaidAt = paidAt,
                pc_RecordedBy = pq_AdminID q, pc_IdempotencyKey = trim_space (pq_IdempotencyKey q), pc_Now = now\<rparr>)
           (\<lambda>payment. run_bind (get_subscription env 6 (su_ID sub)) (\<lambda>current.
              if su_Status current = ''ACTIVE'' then run_return payment
              else if su_Status current \<noteq> ''PENDING''
              then run_fail (app_error CodeConflict ''only a PENDING subscription can be activated by payment'')
              else run_bind (activate_subscription env 7 (su_ID sub) now) (\<lambda>_. run_return payment)))))"

definition record_payment :: "billing_env \<Rightarrow> payment_request \<Rightarrow> payment billing_run" where
  "record_payment env q =
     (case payment_refusal q of
        Some e \<Rightarrow> run_fail e
      | None \<Rightarrow> within (be_Tx env) (pay_and_activate env q (case pq_PaidAt q of None \<Rightarrow> 0 | Some t \<Rightarrow> t) (go_now (be_Pg env))))"

section \<open>Add-ons\<close>

definition addon_terms :: "string \<Rightarrow> (int \<times> int \<times> int \<times> int \<times> int) option" where
  "addon_terms kind =
     (let k = to_upper (trim_space kind) in
      if k = ''AI_REPLIES_100'' then Some (1500, 100, 0, 0, 0)
      else if k = ''AI_REPLIES_500'' then Some (6000, 500, 0, 0, 0)
      else if k = ''CATALOG_PRODUCTS_100'' then Some (1500, 0, 100, 0, 0)
      else if k = ''EXTRA_SEAT'' then Some (500, 0, 0, 1, 0)
      else if k = ''CHANNEL_PASS'' then Some (5000, 0, 0, 0, 1)
      else None)"

text \<open>The keys of the table; that kind and deltas agree is checked by the database and ensured by \<open>addon_terms\<close>.\<close>

definition same_addon :: "addon \<Rightarrow> addon \<Rightarrow> bool" where
  "same_addon x a \<longleftrightarrow>
     ad_ID x = ad_ID a \<or> (ad_SubscriptionID x = ad_SubscriptionID a \<and> ad_CreatedBy x = ad_CreatedBy a \<and> ad_CreationKey x = ad_CreationKey a)"

definition insert_addon ::
  "billing_env \<Rightarrow> addon_create \<Rightarrow> string \<Rightarrow> int \<times> int \<times> int \<times> int \<times> int \<Rightarrow> billing_db \<Rightarrow> (addon \<times> billing_db) result" where
  "insert_addon env c kind terms db =
     uuid env (be_NewID env) (\<lambda>i. uuid env (nd_SubscriptionID c) (\<lambda>s. uuid env (nd_BusinessID c) (\<lambda>b. uuid env (nd_CreatedBy c) (\<lambda>r.
       case terms of (price, replies, catalog, seats, channels) \<Rightarrow>
       let a = \<lparr>ad_ID = i, ad_SubscriptionID = s, ad_BusinessID = b, ad_Kind = kind, ad_PriceYERSnapshot = price,
                ad_AIReplyDelta = replies, ad_CatalogDelta = catalog, ad_SeatDelta = seats, ad_ChannelDelta = channels,
                ad_Status = ''PENDING'', ad_ActivatedAt = None, ad_CancelledAt = None, ad_CancelledReason = None,
                ad_CancelledBy = None, ad_CreatedBy = r, ad_CreationKey = nd_IdempotencyKey c,
                ad_CreatedAt = ts env (nd_Now c), ad_UpdatedAt = ts env (nd_Now c)\<rparr>
       in if \<exists>x \<in> set (bi_Addons db). same_addon x a then Inl (PgError unique_violation)
          else if \<not> (\<exists>x \<in> set (bi_Subscriptions db). su_ID x = s \<and> su_BusinessID x = b) then Inl (PgError foreign_key_violation)
          else Inr (a, db\<lparr>bi_Addons := bi_Addons db @ [a]\<rparr>)))))"

text \<open>The row of the subscription that is locked, and whether it is active now.\<close>

definition lock_subscription :: "billing_env \<Rightarrow> nat \<Rightarrow> string \<Rightarrow> string \<Rightarrow> subscription billing_run" where
  "lock_subscription env n subscriptionID businessID =
     bill_read env n (\<lambda>db. uuid env subscriptionID (\<lambda>i. uuid env businessID (\<lambda>b.
       select_one (\<lambda>s. su_ID s = i \<and> su_BusinessID s = b) (bi_Subscriptions db))))"

definition current_subscription :: "subscription \<Rightarrow> time \<Rightarrow> bool" where
  "current_subscription s now \<longleftrightarrow> su_Status s = ''ACTIVE'' \<and> \<not> now < su_PeriodStart s \<and> now < su_PeriodEnd s"

definition live_channels :: "string \<Rightarrow> billing_db \<Rightarrow> int" where
  "live_channels i db = active_delta ad_ChannelDelta (\<lambda>a. ad_SubscriptionID a = i \<and> live_status (ad_Status a)) db"

definition check_channel_pass :: "billing_env \<Rightarrow> addon_create \<Rightarrow> subscription \<Rightarrow> unit billing_run" where
  "check_channel_pass env c s =
     run_bind (on_error (\<lambda>e. if is_no_rows e
           then conflict_at ''subscription_addon.create'' ''channel pass requires a recorded provider-capacity approval'' else e)
         (bill_read env 3 (\<lambda>db. uuid env (nd_SubscriptionID c) (\<lambda>i. uuid env (nd_BusinessID c) (\<lambda>b.
            select_one (\<lambda>x. cp_SubscriptionID x = i \<and> cp_BusinessID x = b) (bi_Approvals db))))))
       (\<lambda>approval. run_bind (bill_read env 4 (\<lambda>db. uuid env (nd_SubscriptionID c) (\<lambda>i. Inr (live_channels i db))))
         (\<lambda>existing. if su_ChannelLimit s + existing \<ge> su_ChannelCeiling s
            then run_fail (conflict_at ''subscription_addon.create'' ''plan channel ceiling reached'')
            else if existing \<ge> cp_MaxChannelPasses approval
            then run_fail (conflict_at ''subscription_addon.create'' ''recorded provider capacity has been fully allocated'')
            else run_return ()))"

definition find_addon_by_key :: "billing_env \<Rightarrow> addon_create \<Rightarrow> billing_db \<Rightarrow> addon result" where
  "find_addon_by_key env c db =
     uuid env (nd_SubscriptionID c) (\<lambda>i. uuid env (nd_CreatedBy c) (\<lambda>r.
       select_one (\<lambda>a. ad_SubscriptionID a = i \<and> ad_CreatedBy a = r \<and> ad_CreationKey a = nd_IdempotencyKey c) (bi_Addons db)))"

definition create_addon_work ::
  "billing_env \<Rightarrow> addon_create \<Rightarrow> string \<Rightarrow> int \<times> int \<times> int \<times> int \<times> int \<Rightarrow> addon billing_run" where
  "create_addon_work env c kind terms =
     run_bind (lock_subscription env 0 (nd_SubscriptionID c) (nd_BusinessID c)) (\<lambda>s.
       if \<not> current_subscription s (nd_Now c)
       then run_fail (conflict_at ''subscription_addon.create'' ''active current subscription is required'')
       else (\<lambda>db. case bill_read env 1 (find_addon_by_key env c) db of
           (Inr previous, db1) \<Rightarrow>
             (if ad_Kind previous \<noteq> kind
              then run_fail (conflict_at ''subscription_addon.create'' ''idempotency key was already used for a different addon'') db1
              else bill_read env 2 (find_addon_by_key env c) db1)
         | (Inl e, db1) \<Rightarrow>
             (if \<not> is_no_rows e then run_fail e db1
              else run_bind (if kind = ''CHANNEL_PASS'' then check_channel_pass env c s else run_return ())
                     (\<lambda>_. bill_write env 5 (insert_addon env c kind terms)) db1)))"

definition create_pending_addon :: "billing_env \<Rightarrow> addon_create \<Rightarrow> addon billing_run" where
  "create_pending_addon env c0 =
     (let c = c0\<lparr>nd_Now := now_or_clock env (nd_Now c0)\<rparr> in
      bill_method env ''subscription_addon.create''
        [(addon_terms (nd_Kind c) = None \<or> blank (nd_SubscriptionID c) \<or> blank (nd_BusinessID c) \<or> blank (nd_CreatedBy c) \<or>
          blank (nd_IdempotencyKey c), ''invalid addon request'')]
        (on_error (classify_repository_write_error ''subscription_addon.create'')
          (within (be_Tx env) (on_executor (be_Pg env)
            (case addon_terms (nd_Kind c) of
               None \<Rightarrow> run_fail (invalid_repository_input ''subscription_addon.create'' ''invalid addon request'')
             | Some terms \<Rightarrow> create_addon_work env c (to_upper (trim_space (nd_Kind c))) terms)))))"

definition get_addon :: "billing_env \<Rightarrow> string \<Rightarrow> billing_db \<Rightarrow> addon result" where
  "get_addon env addonID db = uuid env addonID (\<lambda>i. select_one (\<lambda>a. ad_ID a = i) (bi_Addons db))"

text \<open>\<^verbatim>\<open>INSERT ... SELECT ... FROM subscription_addons WHERE id = ... ON CONFLICT DO NOTHING\<close>, with the number of rows.\<close>

definition insert_addon_payment :: "billing_env \<Rightarrow> addon_payment_request \<Rightarrow> string \<Rightarrow> billing_db \<Rightarrow> (nat \<times> billing_db) result" where
  "insert_addon_payment env p pay_method db =
     uuid env (be_NewID env) (\<lambda>i. uuid env (aq_RecordedBy p) (\<lambda>r. uuid env (aq_AddonID p) (\<lambda>d.
       case find (\<lambda>a. ad_ID a = d) (bi_Addons db) of
         None \<Rightarrow> Inr (0, db)
       | Some a \<Rightarrow>
           let x = \<lparr>ap_ID = i, ap_AddonID = d, ap_BusinessID = ad_BusinessID a, ap_AmountYER = aq_AmountYER p, ap_Method = pay_method,
                    ap_Reference = aq_Reference p, ap_PaidAt = ts env (aq_PaidAt p), ap_RecordedBy = r,
                    ap_IdempotencyKey = aq_IdempotencyKey p, ap_CreatedAt = ts env (aq_Now p)\<rparr>
           in if \<not> int4 (ap_AmountYER x) then Inl (PgError out_of_range)
              else if \<not> (ap_AmountYER x > 0 \<and> sql_nonblank (ap_Reference x) \<and> sql_nonblank (ap_IdempotencyKey x)) then Inl (PgError check_violation)
              else if \<exists>y \<in> set (bi_AddonPayments db). ap_ID y = i \<or> ap_AddonID y = d \<or>
                        (ap_RecordedBy y = r \<and> ap_IdempotencyKey y = ap_IdempotencyKey x) then Inr (0, db)
              else Inr (1, db\<lparr>bi_AddonPayments := bi_AddonPayments db @ [x]\<rparr>))))"

definition addon_activated :: "time \<Rightarrow> addon \<Rightarrow> addon" where
  "addon_activated at a = a\<lparr>ad_Status := ''ACTIVE'', ad_ActivatedAt := Some at, ad_UpdatedAt := at\<rparr>"

definition update_addon :: "(addon \<Rightarrow> bool) \<Rightarrow> (addon \<Rightarrow> addon) \<Rightarrow> billing_db \<Rightarrow> (addon \<times> billing_db) result" where
  "update_addon p f db =
     (case update_returning p f (\<lambda>_. None) (bi_Addons db) of
        Inl e \<Rightarrow> Inl e
      | Inr (a, rows) \<Rightarrow> Inr (a, db\<lparr>bi_Addons := rows\<rparr>))"

definition pay_addon_work :: "billing_env \<Rightarrow> addon_payment_request \<Rightarrow> string \<Rightarrow> addon billing_run" where
  "pay_addon_work env p pay_method =
     (\<lambda>db. case bill_read env 0 (\<lambda>db. uuid env (aq_RecordedBy p) (\<lambda>r.
            select_one (\<lambda>x. ap_RecordedBy x = r \<and> ap_IdempotencyKey x = aq_IdempotencyKey p) (bi_AddonPayments db))) db of
        (Inr x, db1) \<Rightarrow>
          (if ap_AddonID x \<noteq> aq_AddonID p \<or> ap_AmountYER x \<noteq> aq_AmountYER p \<or> ap_Method x \<noteq> pay_method \<or> ap_Reference x \<noteq> aq_Reference p
           then run_fail (conflict_at ''subscription_addon.payment'' ''idempotency key was already used for a different payment'') db1
           else bill_read env 1 (get_addon env (aq_AddonID p)) db1)
      | (Inl e, db1) \<Rightarrow>
          (if \<not> is_no_rows e then run_fail e db1
           else run_bind (bill_read env 2 (\<lambda>db. case get_addon env (aq_AddonID p) db of
                    Inl e \<Rightarrow> Inl e
                  | Inr a \<Rightarrow> (case select_one (\<lambda>s. su_ID s = ad_SubscriptionID a) (bi_Subscriptions db) of
                                Inl e \<Rightarrow> Inl e | Inr s \<Rightarrow> Inr (a, s)))) (\<lambda>(a, s).
             if aq_AmountYER p \<noteq> ad_PriceYERSnapshot a then run_fail (conflict_at ''subscription_addon.payment'' ''amount must equal addon price'')
             else if \<not> current_subscription s (aq_Now p) then run_fail (conflict_at ''subscription_addon.payment'' ''active current subscription is required to activate an addon'')
             else if ad_Status a \<noteq> ''PENDING'' then run_fail (conflict_at ''subscription_addon.payment'' ''addon is not pending'')
             else run_bind (bill_write env 3 (insert_addon_payment env p pay_method)) (\<lambda>affected.
               if affected \<noteq> 1 then run_fail (conflict_at ''subscription_addon.payment'' ''a payment has already been recorded for this addon'')
               else bill_write env 4 (\<lambda>db. uuid env (aq_AddonID p) (\<lambda>d.
                      update_addon (\<lambda>a. ad_ID a = d \<and> ad_Status a = ''PENDING'') (addon_activated (ts env (aq_Now p))) db)))) db1))"

definition record_addon_payment :: "billing_env \<Rightarrow> addon_payment_request \<Rightarrow> addon billing_run" where
  "record_addon_payment env p0 =
     (let now = now_or_clock env (aq_Now p0);
          p = p0\<lparr>aq_Now := now, aq_PaidAt := if is_zero (aq_PaidAt p0) then now else aq_PaidAt p0\<rparr>;
          pay_method = to_upper (trim_space (aq_Method p)) in
      bill_method env ''subscription_addon.payment''
        [(blank (aq_AddonID p) \<or> blank (aq_RecordedBy p) \<or> blank (aq_IdempotencyKey p) \<or> blank (aq_Reference p) \<or> aq_AmountYER p \<le> 0,
          ''invalid payment request''),
         (pay_method \<notin> set payment_methods, ''invalid method'')]
        (on_error (classify_repository_write_error ''subscription_addon.payment'')
          (within (be_Tx env) (on_executor (be_Pg env) (pay_addon_work env p pay_method)))))"

definition addon_cancelled :: "time \<Rightarrow> string \<Rightarrow> string \<Rightarrow> addon \<Rightarrow> addon" where
  "addon_cancelled at who reason a = a\<lparr>ad_Status := ''CANCELLED'', ad_CancelledAt := Some at, ad_CancelledBy := Some who,
     ad_CancelledReason := Some reason, ad_UpdatedAt := at\<rparr>"

text \<open>What is left of the limits without an add-on, against what is in use.\<close>

definition remaining_limits :: "string \<Rightarrow> subscription \<Rightarrow> billing_db \<Rightarrow> int \<times> int \<times> int" where
  "remaining_limits d s db =
     (let others = (\<lambda>a. ad_SubscriptionID a = su_ID s \<and> ad_Status a = ''ACTIVE'' \<and> ad_ID a \<noteq> d) in
      (su_AICatalogLimit s + active_delta ad_CatalogDelta others db, su_ChannelLimit s + active_delta ad_ChannelDelta others db,
       su_SeatLimit s + active_delta ad_SeatDelta others db))"

definition check_removable :: "billing_env \<Rightarrow> string \<Rightarrow> addon \<Rightarrow> unit billing_run" where
  "check_removable env addonID a =
     run_bind (bill_read env 2 (\<lambda>db. uuid env addonID (\<lambda>d.
         case select_one (\<lambda>s. su_ID s = ad_SubscriptionID a) (bi_Subscriptions db) of
           Inl e \<Rightarrow> Inl e | Inr s \<Rightarrow> Inr (remaining_limits d s db)))) (\<lambda>(catalogLimit, channelLimit, seatLimit).
     run_bind (bill_read env 3 (\<lambda>db. Inr (count_active (ad_BusinessID a) (bi_CatalogItems db)))) (\<lambda>activeCatalog.
     run_bind (bill_read env 4 (\<lambda>db. Inr (count_active (ad_BusinessID a) (bi_Channels db)))) (\<lambda>activeChannels.
     run_bind (bill_read env 5 (\<lambda>db. Inr (count_active (ad_BusinessID a) (bi_Members db)))) (\<lambda>activeSeats.
       if activeCatalog > catalogLimit \<or> activeChannels > channelLimit \<or> activeSeats > seatLimit
       then run_fail (conflict_at ''subscription_addon.cancel'' ''deactivate catalog items, channels, or seats before removing this addon'')
       else run_return ()))))"

definition cancel_addon :: "billing_env \<Rightarrow> string \<Rightarrow> string \<Rightarrow> string \<Rightarrow> time \<Rightarrow> addon billing_run" where
  "cancel_addon env addonID cancelledBy reason now0 =
     bill_method env ''subscription_addon.cancel''
       [(blank addonID \<or> blank cancelledBy \<or> blank reason, ''addon id, cancellation reason, and actor are required'')]
       (on_error (classify_repository_write_error ''subscription_addon.cancel'')
         (within (be_Tx env) (on_executor (be_Pg env)
           (run_bind (bill_read env 0 (get_addon env addonID)) (\<lambda>a.
              if ad_Status a = ''CANCELLED'' then bill_read env 1 (get_addon env addonID)
              else if ad_Status a \<noteq> ''PENDING'' \<and> ad_Status a \<noteq> ''ACTIVE''
              then run_fail (conflict_at ''subscription_addon.cancel'' ''addon cannot be cancelled from its current state'')
              else run_bind (if ad_Status a = ''ACTIVE'' then check_removable env addonID a else run_return ()) (\<lambda>_.
                bill_write env 6 (\<lambda>db. uuid env addonID (\<lambda>d. uuid env cancelledBy (\<lambda>u.
                  update_addon (\<lambda>a. ad_ID a = d) (addon_cancelled (ts env (now_or_clock env now0)) u reason) db)))))))))"

text \<open>The approval of channel passes is one row for a subscription, written over by a later approval.\<close>

definition put_approval :: "capacity_approval \<Rightarrow> capacity_approval list \<Rightarrow> capacity_approval list" where
  "put_approval x rows =
     (if \<exists>y \<in> set rows. cp_SubscriptionID y = cp_SubscriptionID x
      then update_where (\<lambda>y. cp_SubscriptionID y = cp_SubscriptionID x)
             (\<lambda>y. y\<lparr>cp_MaxChannelPasses := cp_MaxChannelPasses x, cp_Reason := cp_Reason x, cp_ApprovedBy := cp_ApprovedBy x,
                    cp_Now := cp_Now x\<rparr>) rows
      else rows @ [x])"

definition upsert_approval :: "billing_env \<Rightarrow> capacity_approval \<Rightarrow> billing_db \<Rightarrow> (capacity_approval \<times> billing_db) result" where
  "upsert_approval env v db =
     uuid env (cp_SubscriptionID v) (\<lambda>i. uuid env (cp_BusinessID v) (\<lambda>b. uuid env (cp_ApprovedBy v) (\<lambda>u.
       let x = v\<lparr>cp_SubscriptionID := i, cp_BusinessID := b, cp_ApprovedBy := u, cp_Now := ts env (cp_Now v)\<rparr> in
       if \<not> int4 (cp_MaxChannelPasses v) then Inl (PgError out_of_range)
       else if \<not> (cp_MaxChannelPasses v > 0 \<and> sql_nonblank (cp_Reason v)) then Inl (PgError check_violation)
       else Inr (x, db\<lparr>bi_Approvals := put_approval x (bi_Approvals db)\<rparr>))))"

definition approve_channel_pass_capacity :: "billing_env \<Rightarrow> capacity_approval \<Rightarrow> capacity_approval billing_run" where
  "approve_channel_pass_capacity env v0 =
     (let v = v0\<lparr>cp_Now := now_or_clock env (cp_Now v0)\<rparr> in
      bill_method env ''subscription_addon.approve_channel_capacity''
        [(blank (cp_SubscriptionID v) \<or> blank (cp_BusinessID v) \<or> blank (cp_ApprovedBy v) \<or> blank (cp_Reason v) \<or> cp_MaxChannelPasses v \<le> 0,
          ''invalid channel capacity approval'')]
        (on_error (classify_repository_write_error ''subscription_addon.approve_channel_capacity'')
          (within (be_Tx env) (on_executor (be_Pg env)
            (run_bind (lock_subscription env 0 (cp_SubscriptionID v) (cp_BusinessID v)) (\<lambda>s.
               if \<not> current_subscription s (cp_Now v) then run_fail (conflict_at ''subscription_addon.approve_channel_capacity'' ''active current subscription is required'')
               else if cp_MaxChannelPasses v > su_ChannelCeiling s - su_ChannelLimit s
               then run_fail (conflict_at ''subscription_addon.approve_channel_capacity'' ''approved channel capacity exceeds the plan channel ceiling'')
               else run_bind (bill_read env 1 (\<lambda>db. uuid env (cp_SubscriptionID v) (\<lambda>i. Inr (live_channels i db)))) (\<lambda>allocated.
                 if cp_MaxChannelPasses v < allocated
                 then run_fail (conflict_at ''subscription_addon.approve_channel_capacity'' ''approved channel capacity cannot be lower than allocated channel passes'')
                 else bill_write env 2 (upsert_approval env v))))))))"

end
