(* ===== verification/Billing_Laws.thy ===== *)
theory Billing_Laws
  imports Billing_Store Store_Changes "HOL-Library.Sublist"
begin

text \<open>
  What the operations of the billing stores can do, as a relation on the tables: subscriptions are opened, paid and so
  activated, closed with their add-ons, and given another cost budget; add-ons are sold, paid and so activated, and
  dropped; the capacity for channel passes is approved. The invariant \<open>billing_ok\<close> is what every such change keeps. Each
  operation is shown to be a sequence of such changes, and whole histories follow.
\<close>

section \<open>The invariant\<close>

text \<open>\<open>canon\<close> is the database's reading of a text as a \<^verbatim>\<open>uuid\<close>.\<close>

definition row_ok :: "(string \<Rightarrow> string option) \<Rightarrow> subscription \<Rightarrow> bool" where
  "row_ok canon s \<longleftrightarrow>
     subscription_checks s \<and> canon (su_ID s) = Some (su_ID s) \<and> canon (su_BusinessID s) = Some (su_BusinessID s)"

definition compatible :: "subscription \<Rightarrow> subscription \<Rightarrow> bool" where
  "compatible x y \<longleftrightarrow>
     (su_ID x \<noteq> su_ID y \<and> su_BusinessID x = su_BusinessID y \<and> live_status (su_Status x) \<and> live_status (su_Status y) \<longrightarrow>
        su_Status x \<noteq> su_Status y \<and> \<not> periods_overlap (su_PeriodStart x) (su_PeriodEnd x) (su_PeriodStart y) (su_PeriodEnd y))"

definition subscriptions_ok :: "(string \<Rightarrow> string option) \<Rightarrow> billing_db \<Rightarrow> bool" where
  "subscriptions_ok canon db \<longleftrightarrow>
     distinct (map su_ID (bi_Subscriptions db)) \<and> (\<forall>s \<in> set (bi_Subscriptions db). row_ok canon s) \<and>
     (\<forall>x \<in> set (bi_Subscriptions db). \<forall>y \<in> set (bi_Subscriptions db). compatible x y)"

text \<open>A subscription is or was active exactly if it is paid, once and in full.\<close>

definition pays :: "payment \<Rightarrow> subscription \<Rightarrow> bool" where
  "pays p s \<longleftrightarrow> py_SubscriptionID p = su_ID s \<and> py_BusinessID p = su_BusinessID s \<and> py_AmountYER p = su_AmountDueYER s"

definition payments_ok :: "billing_db \<Rightarrow> bool" where
  "payments_ok db \<longleftrightarrow>
     distinct (map py_SubscriptionID (bi_Payments db)) \<and>
     (\<forall>p \<in> set (bi_Payments db). \<exists>s \<in> set (bi_Subscriptions db). pays p s) \<and>
     (\<forall>s \<in> set (bi_Subscriptions db). su_ActivatedAt s \<noteq> None \<longleftrightarrow> (\<exists>p \<in> set (bi_Payments db). py_SubscriptionID p = su_ID s))"

text \<open>An add-on has the terms of its kind and is live only as long as its subscription is active.\<close>

definition addon_checks :: "addon \<Rightarrow> bool" where
  "addon_checks a \<longleftrightarrow>
     addon_terms (ad_Kind a) =
       Some (ad_PriceYERSnapshot a, ad_AIReplyDelta a, ad_CatalogDelta a, ad_SeatDelta a, ad_ChannelDelta a) \<and>
     ((ad_Status a = ''PENDING'' \<and> ad_ActivatedAt a = None) \<or> (ad_Status a = ''ACTIVE'' \<and> ad_ActivatedAt a \<noteq> None) \<or>
      ad_Status a = ''CANCELLED'') \<and>
     (ad_Status a = ''CANCELLED'' \<longleftrightarrow> ad_CancelledAt a \<noteq> None)"

definition extends :: "addon \<Rightarrow> subscription \<Rightarrow> bool" where
  "extends a s \<longleftrightarrow> ad_SubscriptionID a = su_ID s \<and> ad_BusinessID a = su_BusinessID s \<and>
     (live_status (ad_Status a) \<longrightarrow> su_Status s = ''ACTIVE'')"

definition addons_ok :: "billing_db \<Rightarrow> bool" where
  "addons_ok db \<longleftrightarrow>
     distinct (map ad_ID (bi_Addons db)) \<and>
     (\<forall>a \<in> set (bi_Addons db). addon_checks a \<and> (\<exists>s \<in> set (bi_Subscriptions db). extends a s))"

definition buys :: "addon_payment \<Rightarrow> addon \<Rightarrow> bool" where
  "buys x a \<longleftrightarrow> ap_AddonID x = ad_ID a \<and> ap_BusinessID x = ad_BusinessID a \<and> ap_AmountYER x = ad_PriceYERSnapshot a"

definition addon_payments_ok :: "billing_db \<Rightarrow> bool" where
  "addon_payments_ok db \<longleftrightarrow>
     distinct (map ap_AddonID (bi_AddonPayments db)) \<and>
     (\<forall>x \<in> set (bi_AddonPayments db). \<exists>a \<in> set (bi_Addons db). buys x a) \<and>
     (\<forall>a \<in> set (bi_Addons db). ad_ActivatedAt a \<noteq> None \<longleftrightarrow> (\<exists>x \<in> set (bi_AddonPayments db). ap_AddonID x = ad_ID a))"

text \<open>The channel passes that are offered or sold fit what was approved, and that fits the ceiling of the plan.\<close>

definition fits :: "capacity_approval \<Rightarrow> subscription \<Rightarrow> bool" where
  "fits x s \<longleftrightarrow> cp_SubscriptionID x = su_ID s \<and> su_ChannelLimit s + cp_MaxChannelPasses x \<le> su_ChannelCeiling s"

definition capacity_ok :: "billing_db \<Rightarrow> bool" where
  "capacity_ok db \<longleftrightarrow>
     distinct (map cp_SubscriptionID (bi_Approvals db)) \<and>
     (\<forall>x \<in> set (bi_Approvals db). \<exists>s \<in> set (bi_Subscriptions db). fits x s) \<and>
     (\<forall>i. live_channels i db > 0 \<longrightarrow>
        (\<exists>x \<in> set (bi_Approvals db). cp_SubscriptionID x = i \<and> live_channels i db \<le> cp_MaxChannelPasses x))"

definition billing_ok :: "(string \<Rightarrow> string option) \<Rightarrow> billing_db \<Rightarrow> bool" where
  "billing_ok canon db \<longleftrightarrow>
     subscriptions_ok canon db \<and> payments_ok db \<and> addons_ok db \<and> addon_payments_ok db \<and> capacity_ok db"

section \<open>Changes\<close>

definition ends :: "subscription \<Rightarrow> subscription \<Rightarrow> bool" where
  "ends s' s \<longleftrightarrow>
     (su_Status s = ''ACTIVE'' \<and> (\<exists>at. s' = expired at s)) \<or>
     (live_status (su_Status s) \<and> (\<exists>at reason who. s' = cancelled at reason who s))"

inductive billing_change :: "(string \<Rightarrow> string option) \<Rightarrow> billing_db \<Rightarrow> billing_db \<Rightarrow> bool" for canon where
  opened: "billing_change canon db (db\<lparr>bi_Subscriptions := bi_Subscriptions db @ [s]\<rparr>)"
    if "subscription_insert_violated db s = None" "su_Status s = ''PENDING''"
      "canon (su_ID s) = Some (su_ID s)" "canon (su_BusinessID s) = Some (su_BusinessID s)"
      "\<forall>x \<in> set (bi_Subscriptions db). su_BusinessID x = su_BusinessID s \<longrightarrow> live_status (su_Status x) \<longrightarrow>
         \<not> periods_overlap (su_PeriodStart x) (su_PeriodEnd x) (su_PeriodStart s) (su_PeriodEnd s)"
| paid: "billing_change canon db (db\<lparr>bi_Payments := bi_Payments db @ [p],
      bi_Subscriptions := update_where q (activated at) (bi_Subscriptions db)\<rparr>)"
    if "s \<in> set (bi_Subscriptions db)" "q s" "\<forall>x. q x \<longrightarrow> su_ID x = su_ID s \<and> su_Status x = ''PENDING''" "pays p s"
      "\<forall>x \<in> set (bi_Payments db). \<not> same_payment x p" "subscription_update_violated db (activated at s) = None"
| closed: "billing_change canon db (cancel_addons D at who reason (db\<lparr>bi_Subscriptions := update_where q f (bi_Subscriptions db)\<rparr>))"
    if "\<forall>s \<in> set (bi_Subscriptions db). q s \<longrightarrow> D (su_ID s) \<and> ends (f s) s"
| budgeted: "billing_change canon db (db\<lparr>bi_Subscriptions :=
      update_where (\<lambda>s. su_ID s = i) (overridden at budget reason who) (bi_Subscriptions db)\<rparr>)"
| sold: "billing_change canon db (db\<lparr>bi_Addons := bi_Addons db @ [a]\<rparr>)"
    if "s \<in> set (bi_Subscriptions db)" "extends a s" "addon_checks a" "ad_Status a = ''PENDING''"
      "\<forall>x \<in> set (bi_Addons db). ad_ID x \<noteq> ad_ID a"
      "ad_ChannelDelta a = 0 \<or> (\<exists>x \<in> set (bi_Approvals db). cp_SubscriptionID x = su_ID s \<and>
         live_channels (su_ID s) db + ad_ChannelDelta a \<le> cp_MaxChannelPasses x)"
| bought: "billing_change canon db (db\<lparr>bi_AddonPayments := bi_AddonPayments db @ [x],
      bi_Addons := update_where q (addon_activated at) (bi_Addons db)\<rparr>)"
    if "a \<in> set (bi_Addons db)" "q a" "\<forall>y. q y \<longrightarrow> ad_ID y = ad_ID a \<and> ad_Status y = ''PENDING''" "buys x a"
      "\<forall>y \<in> set (bi_AddonPayments db). ap_AddonID y \<noteq> ad_ID a"
| dropped: "billing_change canon db (db\<lparr>bi_Addons := update_where q (addon_cancelled at who reason) (bi_Addons db)\<rparr>)"
    if "\<forall>a \<in> set (bi_Addons db). q a \<longrightarrow> live_status (ad_Status a)"
| approved: "billing_change canon db (db\<lparr>bi_Approvals := put_approval x (bi_Approvals db)\<rparr>)"
    if "s \<in> set (bi_Subscriptions db)" "fits x s" "live_channels (su_ID s) db \<le> cp_MaxChannelPasses x"
| elsewhere: "billing_change canon db (db\<lparr>bi_CatalogItems := items, bi_Channels := channels, bi_Members := members,
      bi_Businesses := businesses, bi_Plans := plans\<rparr>)"

section \<open>What the changes keep\<close>

text \<open>The terms of a subscription are what no change touches.\<close>

definition same_terms :: "subscription \<Rightarrow> subscription \<Rightarrow> bool" where
  "same_terms s' s \<longleftrightarrow>
     su_ID s' = su_ID s \<and> su_BusinessID s' = su_BusinessID s \<and> su_PlanID s' = su_PlanID s \<and>
     su_PriceYERSnapshot s' = su_PriceYERSnapshot s \<and> su_AmountDueYER s' = su_AmountDueYER s \<and>
     su_PeriodStart s' = su_PeriodStart s \<and> su_PeriodEnd s' = su_PeriodEnd s \<and> su_AIReplyLimit s' = su_AIReplyLimit s \<and>
     su_AICatalogLimit s' = su_AICatalogLimit s \<and> su_ChannelLimit s' = su_ChannelLimit s \<and>
     su_ChannelCeiling s' = su_ChannelCeiling s \<and> su_SeatLimit s' = su_SeatLimit s \<and>
     su_InternalAICostBudgetYER s' = su_InternalAICostBudgetYER s \<and> su_CreatedAt s' = su_CreatedAt s"

lemma same_terms_refl [simp]: "same_terms s s"
  by (simp add: same_terms_def)

lemma same_terms_trans: "same_terms c b \<Longrightarrow> same_terms b a \<Longrightarrow> same_terms c a"
  by (simp add: same_terms_def)

lemma same_terms_set [simp]:
  "same_terms (activated at s) s" "same_terms (overridden at budget reason who s) s"
  "same_terms (cancelled at reason who s) s" "same_terms (expired at s) s"
  by (simp_all add: same_terms_def activated_def overridden_def cancelled_def expired_def)

lemma live_status_simps [simp]:
  "live_status ''PENDING''" "live_status ''ACTIVE''" "\<not> live_status ''EXPIRED''" "\<not> live_status ''CANCELLED''"
  by (simp_all add: live_status_def)

lemma expired_checks:
  "subscription_checks s \<Longrightarrow> su_Status s = ''ACTIVE'' \<Longrightarrow> subscription_checks (expired at s)"
  by (simp add: subscription_checks_def expired_def)

lemma cancelled_checks: "subscription_checks s \<Longrightarrow> subscription_checks (cancelled at reason who s)"
  by (simp add: subscription_checks_def cancelled_def)

lemma ends_cases:
  assumes "ends s' s"
  obtains at where "su_Status s = ''ACTIVE''" "s' = expired at s"
  | at reason who where "live_status (su_Status s)" "s' = cancelled at reason who s"
  using assms unfolding ends_def by blast

lemma ends_facts:
  assumes "ends s' s"
  shows "same_terms s' s" "su_ActivatedAt s' = su_ActivatedAt s" "\<not> live_status (su_Status s')" "live_status (su_Status s)"
    "subscription_checks s \<Longrightarrow> subscription_checks s'"
  using assms by (cases rule: ends_cases; simp add: expired_checks cancelled_checks; simp add: expired_def cancelled_def)+

lemma set_update_where: "set (update_where q f xs) = (\<lambda>x. if q x then f x else x) ` set xs"
  by (auto simp: update_where_def)

lemma same_id: "distinct (map key xs) \<Longrightarrow> x \<in> set xs \<Longrightarrow> y \<in> set xs \<Longrightarrow> key x = key y \<Longrightarrow> x = y"
  by (auto simp: distinct_map inj_on_def)

lemma distinct_key_update:
  "distinct (map key xs) \<Longrightarrow> (\<And>x. x \<in> set xs \<Longrightarrow> q x \<Longrightarrow> key (f x) = key x) \<Longrightarrow> distinct (map key (update_where q f xs))"
  by (auto simp: update_where_def distinct_map inj_on_def split: if_splits)

lemma subscriptions_okI:
  assumes "distinct (map su_ID (bi_Subscriptions db))"
    and "\<And>s. s \<in> set (bi_Subscriptions db) \<Longrightarrow> q s \<Longrightarrow> su_ID (f s) = su_ID s"
    and "\<And>s. s \<in> set (bi_Subscriptions db) \<Longrightarrow> row_ok canon (if q s then f s else s)"
    and "\<And>x y. x \<in> set (bi_Subscriptions db) \<Longrightarrow> y \<in> set (bi_Subscriptions db) \<Longrightarrow>
           compatible (if q x then f x else x) (if q y then f y else y)"
  shows "subscriptions_ok canon (db\<lparr>bi_Subscriptions := update_where q f (bi_Subscriptions db)\<rparr>)"
proof -
  have "distinct (map su_ID (update_where q f (bi_Subscriptions db)))"
    using assms(1,2) by (rule distinct_key_update)
  moreover have "\<forall>s \<in> set (update_where q f (bi_Subscriptions db)). row_ok canon s"
    unfolding set_update_where using assms(3) by blast
  moreover have "\<forall>x \<in> set (update_where q f (bi_Subscriptions db)). \<forall>y \<in> set (update_where q f (bi_Subscriptions db)). compatible x y"
    unfolding set_update_where using assms(4) by blast
  ultimately show ?thesis by (simp add: subscriptions_ok_def)
qed

text \<open>Subscriptions that keep their status or end.\<close>

definition keeps_or_ends :: "subscription \<Rightarrow> subscription \<Rightarrow> bool" where
  "keeps_or_ends s' s \<longleftrightarrow> same_terms s' s \<and> (subscription_checks s \<longrightarrow> subscription_checks s') \<and>
     (live_status (su_Status s') \<longrightarrow> su_Status s' = su_Status s)"

lemma compatible_keep: "compatible x y \<Longrightarrow> keeps_or_ends x' x \<Longrightarrow> keeps_or_ends y' y \<Longrightarrow> compatible x' y'"
  unfolding compatible_def keeps_or_ends_def same_terms_def by metis

lemma row_ok_keep: "row_ok canon s \<Longrightarrow> keeps_or_ends s' s \<Longrightarrow> row_ok canon s'"
  unfolding row_ok_def keeps_or_ends_def same_terms_def by simp

lemma keeps_refl [simp]: "keeps_or_ends s s"
  by (simp add: keeps_or_ends_def)

lemma subscriptions_keep:
  assumes ok: "subscriptions_ok canon db" and f: "\<And>s. s \<in> set (bi_Subscriptions db) \<Longrightarrow> q s \<Longrightarrow> keeps_or_ends (f s) s"
  shows "subscriptions_ok canon (db\<lparr>bi_Subscriptions := update_where q f (bi_Subscriptions db)\<rparr>)"
proof (rule subscriptions_okI)
  show "distinct (map su_ID (bi_Subscriptions db))" using ok by (simp add: subscriptions_ok_def)
  show "su_ID (f s) = su_ID s" if "s \<in> set (bi_Subscriptions db)" "q s" for s
    using f [OF that] by (simp add: keeps_or_ends_def same_terms_def)
  have g: "keeps_or_ends (if q s then f s else s) s" if "s \<in> set (bi_Subscriptions db)" for s using f that by simp
  show "row_ok canon (if q s then f s else s)" if "s \<in> set (bi_Subscriptions db)" for s
    using ok that row_ok_keep [OF _ g [OF that]] unfolding subscriptions_ok_def by blast
  show "compatible (if q x then f x else x) (if q y then f y else y)"
    if "x \<in> set (bi_Subscriptions db)" "y \<in> set (bi_Subscriptions db)" for x y
    using ok that compatible_keep [OF _ g [OF that(1)] g [OF that(2)]] unfolding subscriptions_ok_def by blast
qed

text \<open>One subscription becomes active.\<close>

lemma only_hit:
  "subscriptions_ok canon db \<Longrightarrow> s \<in> set (bi_Subscriptions db) \<Longrightarrow> q s \<Longrightarrow> (\<And>x. q x \<Longrightarrow> su_ID x = su_ID s) \<Longrightarrow>
     x \<in> set (bi_Subscriptions db) \<Longrightarrow> q x \<longleftrightarrow> x = s"
  unfolding subscriptions_ok_def by (metis same_id)

lemma compatible_active:
  "compatible s y \<Longrightarrow> su_Status s = ''PENDING'' \<Longrightarrow> (su_ID y \<noteq> su_ID s \<Longrightarrow> \<not> same_slot y (activated at s)) \<Longrightarrow>
     compatible (activated at s) y"
  unfolding compatible_def same_slot_def by (simp add: activated_def) metis

lemma compatible_sym: "compatible x y \<Longrightarrow> compatible y x"
  by (auto simp: compatible_def periods_overlap_def)

lemma subscriptions_activate:
  assumes ok: "subscriptions_ok canon db" and s: "s \<in> set (bi_Subscriptions db)" "q s"
    and q: "\<And>x. q x \<Longrightarrow> su_ID x = su_ID s \<and> su_Status x = ''PENDING''"
    and free: "subscription_update_violated db (activated at s) = None"
  shows "subscriptions_ok canon (db\<lparr>bi_Subscriptions := update_where q (activated at) (bi_Subscriptions db)\<rparr>)"
proof (rule subscriptions_okI)
  have only: "q x \<longleftrightarrow> x = s" if "x \<in> set (bi_Subscriptions db)" for x
    using only_hit [of canon db s q x] ok s q that by blast
  from free have checks: "subscription_checks (activated at s)"
    by (simp add: subscription_update_violated_def split: if_splits)
  have slot: "\<not> same_slot x (activated at s)" if "x \<in> set (bi_Subscriptions db)" "su_ID x \<noteq> su_ID s" for x
    using free that by (auto simp: subscription_update_violated_def activated_def split: if_splits)
  show "distinct (map su_ID (bi_Subscriptions db))" using ok by (simp add: subscriptions_ok_def)
  show "su_ID (activated at x) = su_ID x" for x by (simp add: activated_def)
  show "row_ok canon (if q x then activated at x else x)" if "x \<in> set (bi_Subscriptions db)" for x
    using ok that only [OF that] checks unfolding subscriptions_ok_def row_ok_def
    by (cases "x = s") (simp_all add: activated_def)
  have turn: "compatible (if q x then activated at x else x) y"
    if "compatible x y" "x \<in> set (bi_Subscriptions db)" "y \<in> set (bi_Subscriptions db)" for x y
    using that only [OF that(2)] q [OF s(2)] slot [OF that(3)] compatible_active [of s y at] by (cases "x = s") simp_all
  show "compatible (if q x then activated at x else x) (if q y then activated at y else y)"
    if x: "x \<in> set (bi_Subscriptions db)" and y: "y \<in> set (bi_Subscriptions db)" for x y
  proof (cases "x = y")
    case True then show ?thesis by (simp add: compatible_def)
  next
    case False
    have xy: "compatible x y" using ok x y by (simp add: subscriptions_ok_def)
    show ?thesis
      using turn [OF xy x y] compatible_sym [OF turn [OF compatible_sym [OF xy] y x]] only [OF x] only [OF y] False
      by (cases "x = s"; cases "y = s") simp_all
  qed
qed

lemma subscriptions_open:
  assumes ok: "subscriptions_ok canon db" and free: "subscription_insert_violated db s = None" "su_Status s = ''PENDING''"
    and ids: "canon (su_ID s) = Some (su_ID s)" "canon (su_BusinessID s) = Some (su_BusinessID s)"
    and apart: "\<forall>x \<in> set (bi_Subscriptions db). su_BusinessID x = su_BusinessID s \<longrightarrow> live_status (su_Status x) \<longrightarrow>
         \<not> periods_overlap (su_PeriodStart x) (su_PeriodEnd x) (su_PeriodStart s) (su_PeriodEnd s)"
  shows "subscriptions_ok canon (db\<lparr>bi_Subscriptions := bi_Subscriptions db @ [s]\<rparr>)"
proof -
  from free have new: "subscription_checks s" "\<forall>x \<in> set (bi_Subscriptions db). \<not> same_slot x s"
    by (auto simp: subscription_insert_violated_def split: if_splits)
  then have "compatible x s \<and> su_ID s \<noteq> su_ID x" if "x \<in> set (bi_Subscriptions db)" for x
    using that free(2) apart unfolding same_slot_def compatible_def by (metis live_status_simps(1))
  moreover have "compatible s s" by (simp add: compatible_def)
  moreover have "row_ok canon s" using new(1) ids by (simp add: row_ok_def)
  ultimately show ?thesis
    using ok compatible_sym unfolding subscriptions_ok_def by (auto simp: image_iff)
qed

text \<open>Payments.\<close>

lemma bex_update_where:
  "\<exists>s \<in> set xs. P s \<Longrightarrow> (\<And>s. s \<in> set xs \<Longrightarrow> q s \<Longrightarrow> P s \<Longrightarrow> P (f s)) \<Longrightarrow> \<exists>s \<in> set (update_where q f xs). P s"
  unfolding set_update_where by (metis (mono_tags, lifting) image_eqI)

lemma ball_update:
  "(\<And>s. s \<in> set xs \<Longrightarrow> P (if q s then f s else s)) \<Longrightarrow> \<forall>s \<in> set (update_where q f xs). P s"
  unfolding set_update_where by blast

lemma payments_keep:
  assumes ok: "payments_ok db"
    and f: "\<And>s. s \<in> set (bi_Subscriptions db) \<Longrightarrow> q s \<Longrightarrow> same_terms (f s) s \<and> su_ActivatedAt (f s) = su_ActivatedAt s"
  shows "payments_ok (db\<lparr>bi_Subscriptions := update_where q f (bi_Subscriptions db)\<rparr>)"
proof -
  have "\<exists>s \<in> set (update_where q f (bi_Subscriptions db)). pays p s" if "p \<in> set (bi_Payments db)" for p
    using ok that f unfolding payments_ok_def by (intro bex_update_where) (auto simp: pays_def same_terms_def)
  moreover have "\<forall>s \<in> set (update_where q f (bi_Subscriptions db)).
      su_ActivatedAt s \<noteq> None \<longleftrightarrow> (\<exists>p \<in> set (bi_Payments db). py_SubscriptionID p = su_ID s)"
    using ok f unfolding payments_ok_def by (intro ball_update) (simp add: same_terms_def)
  ultimately show ?thesis using ok by (simp add: payments_ok_def)
qed

lemma pending_unpaid:
  "subscription_checks s \<Longrightarrow> su_Status s = ''PENDING'' \<Longrightarrow> su_ActivatedAt s = None"
  by (simp add: subscription_checks_def)

lemma payments_open:
  assumes ok: "payments_ok db" and free: "subscription_insert_violated db s = None" "su_Status s = ''PENDING''"
  shows "payments_ok (db\<lparr>bi_Subscriptions := bi_Subscriptions db @ [s]\<rparr>)"
proof -
  from free have new: "subscription_checks s" "\<forall>x \<in> set (bi_Subscriptions db). su_ID x \<noteq> su_ID s"
    by (auto simp: subscription_insert_violated_def same_slot_def split: if_splits)
  with ok have "\<not> (\<exists>p \<in> set (bi_Payments db). py_SubscriptionID p = su_ID s)"
    unfolding payments_ok_def pays_def by metis
  with ok pending_unpaid [OF new(1) free(2)] show ?thesis
    unfolding payments_ok_def by simp
qed

lemma payments_paid:
  assumes ok: "payments_ok db" "subscriptions_ok canon db" and s: "s \<in> set (bi_Subscriptions db)" "q s" "pays p s"
    and q: "\<And>x. q x \<Longrightarrow> su_ID x = su_ID s \<and> su_Status x = ''PENDING''"
    and new: "\<forall>x \<in> set (bi_Payments db). \<not> same_payment x p"
  shows "payments_ok (db\<lparr>bi_Payments := bi_Payments db @ [p],
           bi_Subscriptions := update_where q (activated at) (bi_Subscriptions db)\<rparr>)"
proof -
  have only: "q x \<longleftrightarrow> x = s" if "x \<in> set (bi_Subscriptions db)" for x
    using only_hit [of canon db s q x] ok s q that by blast
  have "\<exists>s \<in> set (update_where q (activated at) (bi_Subscriptions db)). pays r s" if "r \<in> set (bi_Payments db @ [p])" for r
    using ok(1) that s unfolding payments_ok_def by (intro bex_update_where) (auto simp: pays_def activated_def)
  moreover have "\<forall>x \<in> set (update_where q (activated at) (bi_Subscriptions db)).
      su_ActivatedAt x \<noteq> None \<longleftrightarrow> (\<exists>r \<in> set (bi_Payments db @ [p]). py_SubscriptionID r = su_ID x)"
  proof (rule ball_update)
    fix x assume x: "x \<in> set (bi_Subscriptions db)"
    have "su_ID x \<noteq> su_ID s" if "x \<noteq> s" using that x s(1) ok(2) same_id unfolding subscriptions_ok_def by metis
    then show "su_ActivatedAt (if q x then activated at x else x) \<noteq> None \<longleftrightarrow>
        (\<exists>r \<in> set (bi_Payments db @ [p]). py_SubscriptionID r = su_ID (if q x then activated at x else x))"
      using ok(1) x only [OF x] s(3) unfolding payments_ok_def pays_def by (cases "x = s") (auto simp: activated_def)
  qed
  moreover have "distinct (map py_SubscriptionID (bi_Payments db @ [p]))"
    using ok(1) new unfolding payments_ok_def by (auto simp: same_payment_def)
  ultimately show ?thesis by (simp add: payments_ok_def)
qed

text \<open>Add-ons.\<close>

lemma addons_subscriptions:
  assumes ok: "addons_ok db"
    and f: "\<And>s. s \<in> set (bi_Subscriptions db) \<Longrightarrow> q s \<Longrightarrow> same_terms (f s) s \<and> (su_Status s = ''ACTIVE'' \<longrightarrow> su_Status (f s) = ''ACTIVE'')"
  shows "addons_ok (db\<lparr>bi_Subscriptions := update_where q f (bi_Subscriptions db)\<rparr>)"
proof -
  have "\<exists>s \<in> set (update_where q f (bi_Subscriptions db)). extends a s" if "a \<in> set (bi_Addons db)" for a
    using ok that f unfolding addons_ok_def by (intro bex_update_where) (auto simp: extends_def same_terms_def)
  with ok show ?thesis by (simp add: addons_ok_def)
qed

lemma addons_update:
  assumes ok: "addons_ok db"
    and f: "\<And>a. a \<in> set (bi_Addons db) \<Longrightarrow> q a \<Longrightarrow> addon_checks a \<Longrightarrow> addon_checks (f a) \<and> ad_ID (f a) = ad_ID a \<and>
      ad_SubscriptionID (f a) = ad_SubscriptionID a \<and> ad_BusinessID (f a) = ad_BusinessID a \<and>
      (live_status (ad_Status (f a)) \<longrightarrow> live_status (ad_Status a))"
  shows "addons_ok (db\<lparr>bi_Addons := update_where q f (bi_Addons db)\<rparr>)"
proof -
  have "distinct (map ad_ID (update_where q f (bi_Addons db)))"
    using ok f by (intro distinct_key_update) (auto simp: addons_ok_def)
  moreover have "\<forall>a \<in> set (update_where q f (bi_Addons db)). addon_checks a \<and> (\<exists>s \<in> set (bi_Subscriptions db). extends a s)"
  proof (rule ball_update)
    fix a assume a: "a \<in> set (bi_Addons db)"
    with ok obtain s where "addon_checks a" "s \<in> set (bi_Subscriptions db)" "extends a s" by (auto simp: addons_ok_def)
    with f [OF a] show "addon_checks (if q a then f a else a) \<and>
        (\<exists>s \<in> set (bi_Subscriptions db). extends (if q a then f a else a) s)"
      unfolding extends_def by auto
  qed
  ultimately show ?thesis by (simp add: addons_ok_def)
qed

definition ended :: "time \<Rightarrow> string option \<Rightarrow> string \<Rightarrow> addon \<Rightarrow> addon" where
  "ended at who reason a = a\<lparr>ad_Status := ''CANCELLED'', ad_CancelledAt := Some at,
     ad_CancelledBy := (case who of None \<Rightarrow> ad_CancelledBy a | Some u \<Rightarrow> Some u),
     ad_CancelledReason := Some reason, ad_UpdatedAt := at\<rparr>"

lemma cancel_addons_eq:
  "cancel_addons D at who reason db = db\<lparr>bi_Addons :=
     update_where (\<lambda>a. D (ad_SubscriptionID a) \<and> live_status (ad_Status a)) (ended at who reason) (bi_Addons db)\<rparr>"
  by (simp add: cancel_addons_def ended_def [abs_def])

lemma ended_checks [simp]: "addon_checks a \<Longrightarrow> addon_checks (ended at who reason a)"
  by (simp add: addon_checks_def ended_def)

lemma addon_cancelled_checks [simp]: "addon_checks a \<Longrightarrow> addon_checks (addon_cancelled at who reason a)"
  by (simp add: addon_checks_def addon_cancelled_def)

lemma addon_activated_checks [simp]: "addon_checks a \<Longrightarrow> ad_Status a = ''PENDING'' \<Longrightarrow> addon_checks (addon_activated at a)"
  by (simp add: addon_checks_def addon_activated_def)

text \<open>The subscriptions that end take their add-ons along.\<close>

lemma addons_closed:
  assumes ok: "addons_ok db" and f: "\<And>s. s \<in> set (bi_Subscriptions db) \<Longrightarrow> q s \<Longrightarrow> D (su_ID s) \<and> same_terms (f s) s"
  shows "addons_ok (cancel_addons D at who reason (db\<lparr>bi_Subscriptions := update_where q f (bi_Subscriptions db)\<rparr>))"
proof -
  let ?q = "\<lambda>a. D (ad_SubscriptionID a) \<and> live_status (ad_Status a)"
  have "distinct (map ad_ID (update_where ?q (ended at who reason) (bi_Addons db)))"
    using ok by (intro distinct_key_update) (simp_all add: addons_ok_def ended_def)
  moreover have "\<forall>a \<in> set (update_where ?q (ended at who reason) (bi_Addons db)).
      addon_checks a \<and> (\<exists>s \<in> set (update_where q f (bi_Subscriptions db)). extends a s)"
  proof (rule ball_update)
    fix a assume a: "a \<in> set (bi_Addons db)"
    with ok have checks: "addon_checks a" and s: "\<exists>s \<in> set (bi_Subscriptions db). extends a s" by (auto simp: addons_ok_def)
    let ?a = "if ?q a then ended at who reason a else a"
    have "\<exists>s \<in> set (bi_Subscriptions db). extends ?a s"
      using s unfolding extends_def ended_def by auto
    moreover have "extends ?a (f s)" if "s \<in> set (bi_Subscriptions db)" "q s" "extends ?a s" for s
      using that f [OF that(1,2)] unfolding extends_def same_terms_def by (auto simp: ended_def)
    ultimately have "\<exists>s \<in> set (update_where q f (bi_Subscriptions db)). extends ?a s" by (intro bex_update_where)
    with checks show "addon_checks ?a \<and> (\<exists>s \<in> set (update_where q f (bi_Subscriptions db)). extends ?a s)" by simp
  qed
  ultimately show ?thesis by (simp add: cancel_addons_eq addons_ok_def)
qed

text \<open>Payments of add-ons.\<close>

lemma addon_payments_keep:
  assumes ok: "addon_payments_ok db"
    and f: "\<And>a. a \<in> set (bi_Addons db) \<Longrightarrow> q a \<Longrightarrow> ad_ID (f a) = ad_ID a \<and> ad_BusinessID (f a) = ad_BusinessID a \<and>
      ad_PriceYERSnapshot (f a) = ad_PriceYERSnapshot a \<and> ad_ActivatedAt (f a) = ad_ActivatedAt a"
  shows "addon_payments_ok (db\<lparr>bi_Addons := update_where q f (bi_Addons db)\<rparr>)"
proof -
  have "\<exists>a \<in> set (update_where q f (bi_Addons db)). buys x a" if "x \<in> set (bi_AddonPayments db)" for x
    using ok that f unfolding addon_payments_ok_def by (intro bex_update_where) (auto simp: buys_def)
  moreover have "\<forall>a \<in> set (update_where q f (bi_Addons db)).
      ad_ActivatedAt a \<noteq> None \<longleftrightarrow> (\<exists>x \<in> set (bi_AddonPayments db). ap_AddonID x = ad_ID a)"
    using ok f unfolding addon_payments_ok_def by (intro ball_update) simp
  ultimately show ?thesis using ok by (simp add: addon_payments_ok_def)
qed

lemma addon_payments_bought:
  assumes ok: "addon_payments_ok db" "addons_ok db" and a: "a \<in> set (bi_Addons db)" "q a" "buys x a"
    and q: "\<And>y. q y \<Longrightarrow> ad_ID y = ad_ID a \<and> ad_Status y = ''PENDING''"
    and new: "\<forall>y \<in> set (bi_AddonPayments db). ap_AddonID y \<noteq> ad_ID a"
  shows "addon_payments_ok (db\<lparr>bi_AddonPayments := bi_AddonPayments db @ [x],
           bi_Addons := update_where q (addon_activated at) (bi_Addons db)\<rparr>)"
proof -
  have apart: "ad_ID y \<noteq> ad_ID a" if "y \<in> set (bi_Addons db)" "y \<noteq> a" for y
    using that a(1) ok(2) same_id unfolding addons_ok_def by metis
  have only: "q y \<longleftrightarrow> y = a" if "y \<in> set (bi_Addons db)" for y using apart that a q by blast
  have "\<exists>a \<in> set (update_where q (addon_activated at) (bi_Addons db)). buys r a" if "r \<in> set (bi_AddonPayments db @ [x])" for r
    using ok(1) that a unfolding addon_payments_ok_def by (intro bex_update_where) (auto simp: buys_def addon_activated_def)
  moreover have "\<forall>y \<in> set (update_where q (addon_activated at) (bi_Addons db)).
      ad_ActivatedAt y \<noteq> None \<longleftrightarrow> (\<exists>r \<in> set (bi_AddonPayments db @ [x]). ap_AddonID r = ad_ID y)"
  proof (rule ball_update)
    fix y assume y: "y \<in> set (bi_Addons db)"
    show "ad_ActivatedAt (if q y then addon_activated at y else y) \<noteq> None \<longleftrightarrow>
        (\<exists>r \<in> set (bi_AddonPayments db @ [x]). ap_AddonID r = ad_ID (if q y then addon_activated at y else y))"
      using ok(1) y only [OF y] apart [OF y] a(3) unfolding addon_payments_ok_def buys_def
      by (cases "y = a") (auto simp: addon_activated_def)
  qed
  moreover have "distinct (map ap_AddonID (bi_AddonPayments db @ [x]))"
    using ok(1) new a(3) unfolding addon_payments_ok_def buys_def by auto
  ultimately show ?thesis by (simp add: addon_payments_ok_def)
qed

lemma addon_payments_sold:
  assumes ok: "addon_payments_ok db" and a: "addon_checks a" "ad_Status a = ''PENDING''"
    and new: "\<forall>x \<in> set (bi_Addons db). ad_ID x \<noteq> ad_ID a"
  shows "addon_payments_ok (db\<lparr>bi_Addons := bi_Addons db @ [a]\<rparr>)"
proof -
  have "ad_ActivatedAt a = None" using a by (auto simp: addon_checks_def)
  moreover have "\<not> (\<exists>x \<in> set (bi_AddonPayments db). ap_AddonID x = ad_ID a)"
    using ok new unfolding addon_payments_ok_def buys_def by metis
  ultimately show ?thesis using ok unfolding addon_payments_ok_def by simp
qed

text \<open>Channel passes.\<close>

lemma addon_terms_delta: "addon_terms k = Some (p, r, c, s, d) \<Longrightarrow> 0 \<le> d \<and> d \<le> 1"
  by (auto simp: addon_terms_def Let_def split: if_splits)

lemma delta_nonneg: "addons_ok db \<Longrightarrow> a \<in> set (bi_Addons db) \<Longrightarrow> 0 \<le> ad_ChannelDelta a"
  by (auto simp: addons_ok_def addon_checks_def dest!: addon_terms_delta)

lemma live_channels_le:
  assumes "addons_ok db"
    and "\<And>a. a \<in> set (bi_Addons db) \<Longrightarrow> q a \<Longrightarrow> ad_SubscriptionID (f a) = ad_SubscriptionID a \<and>
      ad_ChannelDelta (f a) = ad_ChannelDelta a \<and> (live_status (ad_Status (f a)) \<longrightarrow> live_status (ad_Status a))"
  shows "live_channels i (db\<lparr>bi_Addons := update_where q f (bi_Addons db)\<rparr>) \<le> live_channels i db"
proof -
  have "sum_list (map ad_ChannelDelta (filter (\<lambda>a. ad_SubscriptionID a = i \<and> live_status (ad_Status a)) (update_where q f xs))) \<le>
      sum_list (map ad_ChannelDelta (filter (\<lambda>a. ad_SubscriptionID a = i \<and> live_status (ad_Status a)) xs))"
    if "set xs \<subseteq> set (bi_Addons db)" for xs
    using that
  proof (induction xs)
    case (Cons a xs)
    with delta_nonneg [OF assms(1), of a] assms(2) [of a] show ?case by (auto split: if_splits)
  qed simp
  then show ?thesis by (simp add: live_channels_def active_delta_def)
qed

lemma live_channels_append:
  "live_channels i (db\<lparr>bi_Addons := bi_Addons db @ [a]\<rparr>) =
     live_channels i db + (if ad_SubscriptionID a = i \<and> live_status (ad_Status a) then ad_ChannelDelta a else 0)"
  by (simp add: live_channels_def active_delta_def)

lemma live_channels_frame [simp]:
  "live_channels i (db\<lparr>bi_Subscriptions := S\<rparr>) = live_channels i db" "live_channels i (db\<lparr>bi_Payments := P\<rparr>) = live_channels i db"
  "live_channels i (db\<lparr>bi_AddonPayments := X\<rparr>) = live_channels i db" "live_channels i (db\<lparr>bi_Approvals := V\<rparr>) = live_channels i db"
  by (simp_all add: live_channels_def active_delta_def)

lemma capacity_addons:
  assumes ok: "capacity_ok db" and less: "\<And>i. live_channels i db' \<le> live_channels i db"
    and same: "bi_Approvals db' = bi_Approvals db" "bi_Subscriptions db' = bi_Subscriptions db"
  shows "capacity_ok db'"
proof -
  have "\<exists>x \<in> set (bi_Approvals db'). cp_SubscriptionID x = i \<and> live_channels i db' \<le> cp_MaxChannelPasses x" if "live_channels i db' > 0" for i
  proof -
    from that less [of i] have "live_channels i db > 0" by simp
    with ok obtain x where "x \<in> set (bi_Approvals db)" "cp_SubscriptionID x = i" "live_channels i db \<le> cp_MaxChannelPasses x"
      unfolding capacity_ok_def by blast
    with less [of i] same show ?thesis by (auto intro!: bexI [of _ x])
  qed
  with ok same show ?thesis by (simp add: capacity_ok_def)
qed

lemma capacity_subscriptions:
  assumes ok: "capacity_ok db" and f: "\<And>s. s \<in> set (bi_Subscriptions db) \<Longrightarrow> q s \<Longrightarrow> same_terms (f s) s"
  shows "capacity_ok (db\<lparr>bi_Subscriptions := update_where q f (bi_Subscriptions db)\<rparr>)"
proof -
  have "\<exists>s \<in> set (update_where q f (bi_Subscriptions db)). fits x s" if "x \<in> set (bi_Approvals db)" for x
    using ok that f unfolding capacity_ok_def by (intro bex_update_where) (auto simp: fits_def same_terms_def)
  with ok show ?thesis by (simp add: capacity_ok_def)
qed

lemma capacity_sold:
  assumes ok: "capacity_ok db"
    and room: "ad_ChannelDelta a = 0 \<or> (\<exists>x \<in> set (bi_Approvals db). cp_SubscriptionID x = ad_SubscriptionID a \<and>
         live_channels (ad_SubscriptionID a) db + ad_ChannelDelta a \<le> cp_MaxChannelPasses x)"
  shows "capacity_ok (db\<lparr>bi_Addons := bi_Addons db @ [a]\<rparr>)"
proof -
  have "\<exists>x \<in> set (bi_Approvals db). cp_SubscriptionID x = i \<and> live_channels i (db\<lparr>bi_Addons := bi_Addons db @ [a]\<rparr>) \<le> cp_MaxChannelPasses x"
    if more: "live_channels i (db\<lparr>bi_Addons := bi_Addons db @ [a]\<rparr>) > 0" for i
  proof (cases "ad_SubscriptionID a = i \<and> live_status (ad_Status a) \<and> ad_ChannelDelta a \<noteq> 0")
    case True with room show ?thesis by (auto simp: live_channels_append)
  next
    case False
    then have "live_channels i (db\<lparr>bi_Addons := bi_Addons db @ [a]\<rparr>) = live_channels i db" by (auto simp: live_channels_append)
    with ok more show ?thesis by (simp add: capacity_ok_def)
  qed
  with ok show ?thesis by (simp add: capacity_ok_def)
qed

lemma put_approval_in:
  "\<exists>y \<in> set (put_approval x rows). cp_SubscriptionID y = cp_SubscriptionID x \<and> cp_MaxChannelPasses y = cp_MaxChannelPasses x"
proof (cases "\<exists>y \<in> set rows. cp_SubscriptionID y = cp_SubscriptionID x")
  case True
  then obtain y where y: "y \<in> set rows" "cp_SubscriptionID y = cp_SubscriptionID x" by blast
  then have hit: "y\<lparr>cp_MaxChannelPasses := cp_MaxChannelPasses x, cp_Reason := cp_Reason x, cp_ApprovedBy := cp_ApprovedBy x,
      cp_Now := cp_Now x\<rparr> \<in> set (put_approval x rows)"
    unfolding put_approval_def by (auto simp: set_update_where image_iff)
  show ?thesis by (rule bexI [OF _ hit]) (simp add: y)
qed (simp add: put_approval_def)

lemma put_approval_others: "y \<in> set rows \<Longrightarrow> cp_SubscriptionID y \<noteq> cp_SubscriptionID x \<Longrightarrow> y \<in> set (put_approval x rows)"
  by (auto simp: put_approval_def in_update_where_other)

lemma put_approval_from:
  "y \<in> set (put_approval x rows) \<Longrightarrow>
     (cp_SubscriptionID y = cp_SubscriptionID x \<and> cp_MaxChannelPasses y = cp_MaxChannelPasses x) \<or> y \<in> set rows"
  by (auto simp: put_approval_def set_update_where split: if_splits)

lemma put_approval_distinct:
  "distinct (map cp_SubscriptionID rows) \<Longrightarrow> distinct (map cp_SubscriptionID (put_approval x rows))"
  unfolding put_approval_def by (auto intro!: distinct_key_update)

lemma capacity_approved:
  assumes ok: "capacity_ok db" and s: "s \<in> set (bi_Subscriptions db)" "fits x s" "live_channels (su_ID s) db \<le> cp_MaxChannelPasses x"
  shows "capacity_ok (db\<lparr>bi_Approvals := put_approval x (bi_Approvals db)\<rparr>)"
proof -
  have "\<exists>s \<in> set (bi_Subscriptions db). fits y s" if "y \<in> set (put_approval x (bi_Approvals db))" for y
    using put_approval_from [OF that] ok s unfolding capacity_ok_def fits_def by metis
  moreover have "\<exists>y \<in> set (put_approval x (bi_Approvals db)). cp_SubscriptionID y = i \<and> live_channels i db \<le> cp_MaxChannelPasses y"
    if "live_channels i db > 0" for i
  proof (cases "i = su_ID s")
    case True with put_approval_in [of x "bi_Approvals db"] s show ?thesis by (auto simp: fits_def)
  next
    case False
    with that ok obtain y where "y \<in> set (bi_Approvals db)" "cp_SubscriptionID y = i" "live_channels i db \<le> cp_MaxChannelPasses y"
      unfolding capacity_ok_def by blast
    with False s put_approval_others [of y "bi_Approvals db" x] show ?thesis by (auto simp: fits_def)
  qed
  ultimately show ?thesis
    using ok put_approval_distinct unfolding capacity_ok_def by simp
qed

text \<open>Every change keeps the invariant.\<close>

lemma billing_okI:
  "subscriptions_ok canon db \<Longrightarrow> payments_ok db \<Longrightarrow> addons_ok db \<Longrightarrow> addon_payments_ok db \<Longrightarrow> capacity_ok db \<Longrightarrow> billing_ok canon db"
  by (simp add: billing_ok_def)

lemma frame_payments [simp]:
  "addons_ok (db\<lparr>bi_Payments := P, bi_Subscriptions := S\<rparr>) = addons_ok (db\<lparr>bi_Subscriptions := S\<rparr>)"
  "subscriptions_ok canon (db\<lparr>bi_Payments := P, bi_Subscriptions := S\<rparr>) = subscriptions_ok canon (db\<lparr>bi_Subscriptions := S\<rparr>)"
  "addon_payments_ok (db\<lparr>bi_Payments := P, bi_Subscriptions := S\<rparr>) = addon_payments_ok db"
  "capacity_ok (db\<lparr>bi_Payments := P, bi_Subscriptions := S\<rparr>) = capacity_ok (db\<lparr>bi_Subscriptions := S\<rparr>)"
  by (simp_all add: addons_ok_def subscriptions_ok_def addon_payments_ok_def capacity_ok_def live_channels_def active_delta_def)

lemma frame_addons [simp]:
  "subscriptions_ok canon (db\<lparr>bi_Addons := A\<rparr>) = subscriptions_ok canon db" "payments_ok (db\<lparr>bi_Addons := A\<rparr>) = payments_ok db"
  "subscriptions_ok canon (db\<lparr>bi_AddonPayments := X\<rparr>) = subscriptions_ok canon db"
  "payments_ok (db\<lparr>bi_AddonPayments := X\<rparr>) = payments_ok db"
  "addons_ok (db\<lparr>bi_AddonPayments := X, bi_Addons := A\<rparr>) = addons_ok (db\<lparr>bi_Addons := A\<rparr>)"
  "capacity_ok (db\<lparr>bi_AddonPayments := X, bi_Addons := A\<rparr>) = capacity_ok (db\<lparr>bi_Addons := A\<rparr>)"
  "subscriptions_ok canon (db\<lparr>bi_Approvals := V\<rparr>) = subscriptions_ok canon db" "payments_ok (db\<lparr>bi_Approvals := V\<rparr>) = payments_ok db"
  "addons_ok (db\<lparr>bi_Approvals := V\<rparr>) = addons_ok db" "addon_payments_ok (db\<lparr>bi_Approvals := V\<rparr>) = addon_payments_ok db"
  "addon_payments_ok (db\<lparr>bi_Subscriptions := S\<rparr>) = addon_payments_ok db" "addon_payments_ok (db\<lparr>bi_Payments := P\<rparr>) = addon_payments_ok db"
  by (simp_all add: subscriptions_ok_def payments_ok_def addons_ok_def capacity_ok_def addon_payments_ok_def live_channels_def active_delta_def)

lemma ended_facts:
  "ad_ID (ended at who reason a) = ad_ID a" "ad_SubscriptionID (ended at who reason a) = ad_SubscriptionID a"
  "ad_BusinessID (ended at who reason a) = ad_BusinessID a" "ad_PriceYERSnapshot (ended at who reason a) = ad_PriceYERSnapshot a"
  "ad_ActivatedAt (ended at who reason a) = ad_ActivatedAt a" "ad_ChannelDelta (ended at who reason a) = ad_ChannelDelta a"
  "ad_Status (ended at who reason a) = ''CANCELLED''"
  by (simp_all add: ended_def)

lemma addon_cancelled_facts:
  "ad_ID (addon_cancelled at who reason a) = ad_ID a" "ad_SubscriptionID (addon_cancelled at who reason a) = ad_SubscriptionID a"
  "ad_BusinessID (addon_cancelled at who reason a) = ad_BusinessID a"
  "ad_PriceYERSnapshot (addon_cancelled at who reason a) = ad_PriceYERSnapshot a"
  "ad_ActivatedAt (addon_cancelled at who reason a) = ad_ActivatedAt a"
  "ad_ChannelDelta (addon_cancelled at who reason a) = ad_ChannelDelta a" "ad_Status (addon_cancelled at who reason a) = ''CANCELLED''"
  by (simp_all add: addon_cancelled_def)

lemma addon_activated_facts:
  "ad_ID (addon_activated at a) = ad_ID a" "ad_SubscriptionID (addon_activated at a) = ad_SubscriptionID a"
  "ad_BusinessID (addon_activated at a) = ad_BusinessID a" "ad_ChannelDelta (addon_activated at a) = ad_ChannelDelta a"
  by (simp_all add: addon_activated_def)

lemma closed_keeps:
  assumes ok: "billing_ok canon db" and q: "\<And>s. s \<in> set (bi_Subscriptions db) \<Longrightarrow> q s \<Longrightarrow> D (su_ID s) \<and> ends (f s) s"
  shows "billing_ok canon (cancel_addons D at who reason (db\<lparr>bi_Subscriptions := update_where q f (bi_Subscriptions db)\<rparr>))"
proof (rule billing_okI)
  let ?d = "db\<lparr>bi_Subscriptions := update_where q f (bi_Subscriptions db)\<rparr>"
  have f: "keeps_or_ends (f s) s \<and> same_terms (f s) s \<and> su_ActivatedAt (f s) = su_ActivatedAt s \<and> D (su_ID s)"
    if "s \<in> set (bi_Subscriptions db)" "q s" for s
    using q [OF that] ends_facts [of "f s" s] by (simp add: keeps_or_ends_def)
  show "subscriptions_ok canon (cancel_addons D at who reason ?d)"
    unfolding cancel_addons_eq using ok f by (simp add: billing_ok_def subscriptions_keep)
  show "payments_ok (cancel_addons D at who reason ?d)"
    unfolding cancel_addons_eq using ok f by (simp add: billing_ok_def payments_keep)
  show "addons_ok (cancel_addons D at who reason ?d)"
    using ok f by (intro addons_closed) (simp_all add: billing_ok_def)
  have "addon_payments_ok ?d" using ok by (simp add: billing_ok_def)
  then show "addon_payments_ok (cancel_addons D at who reason ?d)"
    unfolding cancel_addons_eq by (rule addon_payments_keep) (simp add: ended_facts)
  have "capacity_ok ?d" using ok f by (intro capacity_subscriptions) (simp_all add: billing_ok_def)
  moreover have "live_channels i (cancel_addons D at who reason ?d) \<le> live_channels i ?d" for i
  proof -
    have "live_channels i (db\<lparr>bi_Addons := update_where (\<lambda>a. D (ad_SubscriptionID a) \<and> live_status (ad_Status a)) (ended at who reason) (bi_Addons db)\<rparr>)
        \<le> live_channels i db"
      using ok by (intro live_channels_le) (simp_all add: billing_ok_def ended_facts)
    then show ?thesis by (simp add: cancel_addons_eq live_channels_def active_delta_def)
  qed
  ultimately show "capacity_ok (cancel_addons D at who reason ?d)"
    by (rule capacity_addons) (simp_all add: cancel_addons_eq)
qed

lemma paid_keeps:
  assumes ok: "billing_ok canon db" and s: "s \<in> set (bi_Subscriptions db)" "q s" "pays p s"
    and q: "\<And>x. q x \<Longrightarrow> su_ID x = su_ID s \<and> su_Status x = ''PENDING''"
    and new: "\<forall>x \<in> set (bi_Payments db). \<not> same_payment x p" and free: "subscription_update_violated db (activated at s) = None"
  shows "billing_ok canon (db\<lparr>bi_Payments := bi_Payments db @ [p],
           bi_Subscriptions := update_where q (activated at) (bi_Subscriptions db)\<rparr>)"
proof (rule billing_okI)
  let ?d = "db\<lparr>bi_Payments := bi_Payments db @ [p], bi_Subscriptions := update_where q (activated at) (bi_Subscriptions db)\<rparr>"
  show "subscriptions_ok canon ?d"
    unfolding frame_payments by (rule subscriptions_activate [where s = s and q = q, OF _ s(1,2) q free]) (use ok in \<open>simp add: billing_ok_def\<close>)
  show "payments_ok ?d"
    by (rule payments_paid [where canon = canon and s = s and q = q, OF _ _ s q new]) (use ok in \<open>simp_all add: billing_ok_def\<close>)
  have "addons_ok (db\<lparr>bi_Subscriptions := update_where q (activated at) (bi_Subscriptions db)\<rparr>)"
  proof (rule addons_subscriptions)
    show "addons_ok db" using ok by (simp add: billing_ok_def)
    show "same_terms (activated at x) x \<and> (su_Status x = ''ACTIVE'' \<longrightarrow> su_Status (activated at x) = ''ACTIVE'')" for x
      by (simp, simp add: activated_def)
  qed
  then show "addons_ok ?d" by simp
  show "addon_payments_ok ?d" using ok by (simp add: billing_ok_def)
  show "capacity_ok ?d" using ok capacity_subscriptions [of db q "activated at"] by (simp add: billing_ok_def)
qed

lemma overridden_checks: "subscription_checks s \<Longrightarrow> subscription_checks (overridden at budget reason who s)"
  unfolding subscription_checks_def by (simp add: overridden_def) metis

lemma budgeted_keeps:
  assumes ok: "billing_ok canon db"
  shows "billing_ok canon (db\<lparr>bi_Subscriptions :=
           update_where (\<lambda>s. su_ID s = i) (overridden at budget reason who) (bi_Subscriptions db)\<rparr>)"
proof -
  have f: "keeps_or_ends (overridden at budget reason who s) s \<and> su_ActivatedAt (overridden at budget reason who s) = su_ActivatedAt s \<and>
      su_Status (overridden at budget reason who s) = su_Status s" for s
    unfolding keeps_or_ends_def by (simp add: overridden_checks, simp add: overridden_def)
  show ?thesis
    using ok f by (intro billing_okI)
      (simp_all add: billing_ok_def subscriptions_keep payments_keep addons_subscriptions capacity_subscriptions)
qed

lemma opened_keeps:
  assumes ok: "billing_ok canon db" and free: "subscription_insert_violated db s = None" "su_Status s = ''PENDING''"
    and ids: "canon (su_ID s) = Some (su_ID s)" "canon (su_BusinessID s) = Some (su_BusinessID s)"
    and apart: "\<forall>x \<in> set (bi_Subscriptions db). su_BusinessID x = su_BusinessID s \<longrightarrow> live_status (su_Status x) \<longrightarrow>
         \<not> periods_overlap (su_PeriodStart x) (su_PeriodEnd x) (su_PeriodStart s) (su_PeriodEnd s)"
  shows "billing_ok canon (db\<lparr>bi_Subscriptions := bi_Subscriptions db @ [s]\<rparr>)"
proof (rule billing_okI)
  show "subscriptions_ok canon (db\<lparr>bi_Subscriptions := bi_Subscriptions db @ [s]\<rparr>)"
    using ok free ids apart by (intro subscriptions_open) (simp_all add: billing_ok_def)
  show "payments_ok (db\<lparr>bi_Subscriptions := bi_Subscriptions db @ [s]\<rparr>)"
    using ok free by (intro payments_open) (simp_all add: billing_ok_def)
  show "addons_ok (db\<lparr>bi_Subscriptions := bi_Subscriptions db @ [s]\<rparr>)"
    using ok unfolding billing_ok_def addons_ok_def by auto
  show "addon_payments_ok (db\<lparr>bi_Subscriptions := bi_Subscriptions db @ [s]\<rparr>)" using ok by (simp add: billing_ok_def)
  show "capacity_ok (db\<lparr>bi_Subscriptions := bi_Subscriptions db @ [s]\<rparr>)"
    using ok unfolding billing_ok_def capacity_ok_def by auto
qed

lemma sold_keeps:
  assumes ok: "billing_ok canon db" and s: "s \<in> set (bi_Subscriptions db)" "extends a s" and a: "addon_checks a" "ad_Status a = ''PENDING''"
    and new: "\<forall>x \<in> set (bi_Addons db). ad_ID x \<noteq> ad_ID a"
    and room: "ad_ChannelDelta a = 0 \<or> (\<exists>x \<in> set (bi_Approvals db). cp_SubscriptionID x = su_ID s \<and>
         live_channels (su_ID s) db + ad_ChannelDelta a \<le> cp_MaxChannelPasses x)"
  shows "billing_ok canon (db\<lparr>bi_Addons := bi_Addons db @ [a]\<rparr>)"
proof (rule billing_okI)
  show "addons_ok (db\<lparr>bi_Addons := bi_Addons db @ [a]\<rparr>)"
    using ok s a new unfolding billing_ok_def addons_ok_def by (auto simp: image_iff)
  show "addon_payments_ok (db\<lparr>bi_Addons := bi_Addons db @ [a]\<rparr>)"
    using ok a new by (intro addon_payments_sold) (simp_all add: billing_ok_def)
  show "capacity_ok (db\<lparr>bi_Addons := bi_Addons db @ [a]\<rparr>)"
    using ok room s by (intro capacity_sold) (simp_all add: billing_ok_def extends_def)
qed (use ok in \<open>simp_all add: billing_ok_def\<close>)

lemma bought_keeps:
  assumes ok: "billing_ok canon db" and a: "a \<in> set (bi_Addons db)" "q a" "buys x a"
    and q: "\<And>y. q y \<Longrightarrow> ad_ID y = ad_ID a \<and> ad_Status y = ''PENDING''"
    and new: "\<forall>y \<in> set (bi_AddonPayments db). ap_AddonID y \<noteq> ad_ID a"
  shows "billing_ok canon (db\<lparr>bi_AddonPayments := bi_AddonPayments db @ [x],
           bi_Addons := update_where q (addon_activated at) (bi_Addons db)\<rparr>)"
proof (rule billing_okI)
  let ?d = "db\<lparr>bi_AddonPayments := bi_AddonPayments db @ [x], bi_Addons := update_where q (addon_activated at) (bi_Addons db)\<rparr>"
  have live: "live_status (ad_Status y)" if "q y" for y using q [OF that] by simp
  have "addons_ok (db\<lparr>bi_Addons := update_where q (addon_activated at) (bi_Addons db)\<rparr>)"
  proof (rule addons_update)
    show "addons_ok db" using ok by (simp add: billing_ok_def)
    show "addon_checks (addon_activated at y) \<and> ad_ID (addon_activated at y) = ad_ID y \<and>
        ad_SubscriptionID (addon_activated at y) = ad_SubscriptionID y \<and> ad_BusinessID (addon_activated at y) = ad_BusinessID y \<and>
        (live_status (ad_Status (addon_activated at y)) \<longrightarrow> live_status (ad_Status y))" if "q y" "addon_checks y" for y
      using q [OF that(1)] that(2) live [OF that(1)] by (simp add: addon_activated_facts)
  qed
  then show "addons_ok ?d" by simp
  show "addon_payments_ok ?d" by (rule addon_payments_bought [where a = a and q = q, OF _ _ a q new]) (use ok in \<open>simp_all add: billing_ok_def\<close>)
  have "live_channels i (db\<lparr>bi_Addons := update_where q (addon_activated at) (bi_Addons db)\<rparr>) \<le> live_channels i db" for i
    using ok live by (intro live_channels_le) (simp_all add: billing_ok_def addon_activated_facts)
  then have "capacity_ok (db\<lparr>bi_Addons := update_where q (addon_activated at) (bi_Addons db)\<rparr>)"
    using ok by (elim capacity_addons [rotated]) (simp_all add: billing_ok_def)
  then show "capacity_ok ?d" by simp
qed (use ok in \<open>simp_all add: billing_ok_def\<close>)

lemma dropped_keeps:
  assumes ok: "billing_ok canon db" and q: "\<forall>a \<in> set (bi_Addons db). q a \<longrightarrow> live_status (ad_Status a)"
  shows "billing_ok canon (db\<lparr>bi_Addons := update_where q (addon_cancelled at who reason) (bi_Addons db)\<rparr>)"
proof (rule billing_okI)
  let ?d = "db\<lparr>bi_Addons := update_where q (addon_cancelled at who reason) (bi_Addons db)\<rparr>"
  show "addons_ok ?d" using ok by (intro addons_update) (simp_all add: billing_ok_def addon_cancelled_facts)
  show "addon_payments_ok ?d" using ok by (intro addon_payments_keep) (simp_all add: billing_ok_def addon_cancelled_facts)
  have "live_channels i ?d \<le> live_channels i db" for i
    using ok by (intro live_channels_le) (simp_all add: billing_ok_def addon_cancelled_facts)
  then show "capacity_ok ?d" using ok by (elim capacity_addons [rotated]) (simp_all add: billing_ok_def)
qed (use ok in \<open>simp_all add: billing_ok_def\<close>)

lemma approved_keeps:
  "billing_ok canon db \<Longrightarrow> s \<in> set (bi_Subscriptions db) \<Longrightarrow> fits x s \<Longrightarrow> live_channels (su_ID s) db \<le> cp_MaxChannelPasses x \<Longrightarrow>
     billing_ok canon (db\<lparr>bi_Approvals := put_approval x (bi_Approvals db)\<rparr>)"
  by (simp add: billing_ok_def capacity_approved)

lemma elsewhere_keeps:
  "billing_ok canon db \<Longrightarrow> billing_ok canon (db\<lparr>bi_CatalogItems := items, bi_Channels := channels, bi_Members := members,
     bi_Businesses := businesses, bi_Plans := plans\<rparr>)"
  by (simp add: billing_ok_def subscriptions_ok_def payments_ok_def addons_ok_def addon_payments_ok_def capacity_ok_def
      live_channels_def active_delta_def)

lemma change_keeps: "billing_change canon db db' \<Longrightarrow> billing_ok canon db \<Longrightarrow> billing_ok canon db'"
proof (induction rule: billing_change.induct)
  case (opened db s) then show ?case by (intro opened_keeps)
next
  case (paid s db q p at) then show ?case by (intro paid_keeps) blast+
next
  case (closed db q D f at who reason) then show ?case by (intro closed_keeps) blast+
next
  case (budgeted db i at budget reason who) then show ?case by (rule budgeted_keeps)
next
  case (sold s db a) then show ?case by (intro sold_keeps)
next
  case (bought a db q x at) then show ?case by (intro bought_keeps) blast+
next
  case (dropped db q at who reason) then show ?case by (intro dropped_keeps)
next
  case (approved s db x) then show ?case by (intro approved_keeps)
next
  case (elsewhere db items channels members businesses plans) then show ?case by (rule elsewhere_keeps)
qed

lemma changes_keep: "(billing_change canon)\<^sup>*\<^sup>* db db' \<Longrightarrow> billing_ok canon db \<Longrightarrow> billing_ok canon db'"
  by (induction rule: rtranclp_induct) (auto intro: change_keeps)

section \<open>What stays written\<close>

text \<open>\<open>PENDING\<close> comes before \<open>ACTIVE\<close>, and the statuses that end a row are final.\<close>

definition status_next :: "string \<Rightarrow> string \<Rightarrow> bool" where
  "status_next st st' \<longleftrightarrow> st' = st \<or> st = ''PENDING'' \<or> (st = ''ACTIVE'' \<and> st' \<noteq> ''PENDING'')"

lemma status_next_trans: "status_next a b \<Longrightarrow> status_next b c \<Longrightarrow> status_next a c"
  unfolding status_next_def by metis

definition later :: "subscription \<Rightarrow> subscription \<Rightarrow> bool" where
  "later s s' \<longleftrightarrow> same_terms s' s \<and> status_next (su_Status s) (su_Status s') \<and>
     (su_ActivatedAt s \<noteq> None \<longrightarrow> su_ActivatedAt s' = su_ActivatedAt s) \<and>
     (su_CancelledAt s \<noteq> None \<and> \<not> live_status (su_Status s) \<longrightarrow> su_CancelledAt s' = su_CancelledAt s)"

definition later_addon :: "addon \<Rightarrow> addon \<Rightarrow> bool" where
  "later_addon a a' \<longleftrightarrow>
     ad_ID a' = ad_ID a \<and> ad_SubscriptionID a' = ad_SubscriptionID a \<and> ad_BusinessID a' = ad_BusinessID a \<and> ad_Kind a' = ad_Kind a \<and>
     ad_PriceYERSnapshot a' = ad_PriceYERSnapshot a \<and> ad_AIReplyDelta a' = ad_AIReplyDelta a \<and>
     ad_CatalogDelta a' = ad_CatalogDelta a \<and> ad_SeatDelta a' = ad_SeatDelta a \<and> ad_ChannelDelta a' = ad_ChannelDelta a \<and>
     ad_CreatedBy a' = ad_CreatedBy a \<and> ad_CreationKey a' = ad_CreationKey a \<and> ad_CreatedAt a' = ad_CreatedAt a \<and>
     status_next (ad_Status a) (ad_Status a')"

definition continues :: "billing_db \<Rightarrow> billing_db \<Rightarrow> bool" where
  "continues db db' \<longleftrightarrow>
     prefix (bi_Payments db) (bi_Payments db') \<and> prefix (bi_AddonPayments db) (bi_AddonPayments db') \<and>
     (\<forall>s \<in> set (bi_Subscriptions db). \<exists>s' \<in> set (bi_Subscriptions db'). later s s') \<and>
     (\<forall>a \<in> set (bi_Addons db). \<exists>a' \<in> set (bi_Addons db'). later_addon a a')"

lemma later_refl [simp]: "later s s" "later_addon a a"
  by (simp_all add: later_def later_addon_def status_next_def)

lemma status_final: "status_next st st' \<Longrightarrow> \<not> live_status st \<Longrightarrow> st' = st"
  by (auto simp: status_next_def)

lemma later_trans: "later a b \<Longrightarrow> later b c \<Longrightarrow> later a c"
proof -
  assume ab: "later a b" and bc: "later b c"
  have "same_terms c a" using ab bc same_terms_trans unfolding later_def by blast
  moreover have "status_next (su_Status a) (su_Status c)" using ab bc status_next_trans unfolding later_def by blast
  moreover have "su_ActivatedAt a \<noteq> None \<longrightarrow> su_ActivatedAt c = su_ActivatedAt a" using ab bc unfolding later_def by auto
  moreover have "su_CancelledAt a \<noteq> None \<and> \<not> live_status (su_Status a) \<longrightarrow> su_CancelledAt c = su_CancelledAt a"
    using ab bc status_final [of "su_Status a" "su_Status b"] unfolding later_def by auto
  ultimately show ?thesis by (simp add: later_def)
qed

lemma later_addon_trans: "later_addon a b \<Longrightarrow> later_addon b c \<Longrightarrow> later_addon a c"
  unfolding later_addon_def using status_next_trans by metis

lemma continues_trans: "continues a b \<Longrightarrow> continues b c \<Longrightarrow> continues a c"
  unfolding continues_def by (meson later_trans later_addon_trans prefix_order.trans)

lemma in_update_later:
  "x \<in> set xs \<Longrightarrow> (\<And>y. y \<in> set xs \<Longrightarrow> q y \<Longrightarrow> R y (f y)) \<Longrightarrow> R x x \<Longrightarrow> \<exists>y \<in> set (update_where q f xs). R x y"
  unfolding set_update_where by (cases "q x") auto

lemma ends_later:
  assumes "ends s' s"
  shows "later s s'"
  using assms
proof (cases rule: ends_cases)
  case 1
  then show ?thesis by (simp add: later_def status_next_def expired_def same_terms_def)
next
  case 2
  then show ?thesis by (auto simp: later_def status_next_def cancelled_def same_terms_def live_status_def)
qed

lemma set_later:
  "su_Status s = ''PENDING'' \<Longrightarrow> su_ActivatedAt s = None \<Longrightarrow> later s (activated at s)"
  "later s (overridden at budget reason who s)"
  by (simp_all add: later_def status_next_def activated_def overridden_def same_terms_def)

lemma set_later_addon:
  "live_status (ad_Status a) \<Longrightarrow> later_addon a (ended at who reason a)"
  "live_status (ad_Status a) \<Longrightarrow> later_addon a (addon_cancelled at w reason a)"
  "ad_Status a = ''PENDING'' \<Longrightarrow> later_addon a (addon_activated at a)"
  by (auto simp: later_addon_def status_next_def ended_def addon_cancelled_def addon_activated_def live_status_def)

lemma continuesI:
  assumes "prefix (bi_Payments db) (bi_Payments db')" "prefix (bi_AddonPayments db) (bi_AddonPayments db')"
    and "\<And>s. s \<in> set (bi_Subscriptions db) \<Longrightarrow> \<exists>s' \<in> set (bi_Subscriptions db'). later s s'"
    and "\<And>a. a \<in> set (bi_Addons db) \<Longrightarrow> \<exists>a' \<in> set (bi_Addons db'). later_addon a a'"
  shows "continues db db'"
  using assms by (simp add: continues_def)

lemma change_continues: "billing_change canon db db' \<Longrightarrow> billing_ok canon db \<Longrightarrow> continues db db'"
proof (induction rule: billing_change.induct)
  case (opened db s) then show ?case by (intro continuesI) (auto intro: later_refl)
next
  case (paid s db q p at)
  then have "later y (activated at y)" if "y \<in> set (bi_Subscriptions db)" "q y" for y
    using that pending_unpaid unfolding billing_ok_def subscriptions_ok_def row_ok_def by (intro set_later) blast+
  then show ?case by (intro continuesI) (auto intro: later_refl intro!: in_update_later)
next
  case (closed db q D f at who reason)
  then have "later y (f y)" if "y \<in> set (bi_Subscriptions db)" "q y" for y using that ends_later by blast
  then show ?case
    unfolding cancel_addons_eq by (intro continuesI) (auto intro!: in_update_later set_later_addon)
next
  case (budgeted db i at budget reason who)
  then show ?case by (intro continuesI) (auto intro: later_refl intro!: in_update_later set_later)
next
  case (sold s db a) then show ?case by (intro continuesI) (auto intro: later_refl)
next
  case (bought a db q x at)
  then have "later_addon y (addon_activated at y)" if "q y" for y using that by (intro set_later_addon) blast
  then show ?case by (intro continuesI) (auto intro: later_refl intro!: in_update_later)
next
  case (dropped db q at who reason)
  then have "later_addon y (addon_cancelled at who reason y)" if "y \<in> set (bi_Addons db)" "q y" for y
    using that by (intro set_later_addon) blast
  then show ?case by (intro continuesI) (auto intro: later_refl intro!: in_update_later)
next
  case (approved s db x) then show ?case by (intro continuesI) (auto intro: later_refl)
next
  case (elsewhere db items channels members businesses plans) then show ?case by (intro continuesI) (auto intro: later_refl)
qed

lemma changes_continue: "(billing_change canon)\<^sup>*\<^sup>* db db' \<Longrightarrow> billing_ok canon db \<Longrightarrow> continues db db'"
proof (induction rule: rtranclp_induct)
  case base show ?case by (intro continuesI) (auto intro: later_refl)
next
  case (step y z) then show ?case using change_continues changes_keep continues_trans by meson
qed

end
