(* ===== verification/Billing.thy ===== *)
theory Billing
  imports Billing_Laws
begin

text \<open>
  The operations of the billing stores as sequences of the changes of \<^verbatim>\<open>Billing_Laws\<close>, and what follows for them: the
  histories of a billing database, the payment that activates a subscription, and the sale of add-ons.
\<close>

section \<open>Runs\<close>

interpretation bc: state_changes "billing_change canon" for canon .

abbreviation bill_reaches :: "(string \<Rightarrow> string option) \<Rightarrow> 'a billing_run \<Rightarrow> billing_db \<Rightarrow> bool" where
  "bill_reaches canon \<equiv> state_changes.reaches (billing_change canon)"

lemma bill_reaches_method: "bill_reaches canon m db \<Longrightarrow> bill_reaches canon (bill_method env operation refusals m) db"
  by (simp add: bill_method_def split: option.splits prod.splits)

lemma bill_reaches_catch:
  assumes "bill_reaches canon m db" "\<And>e db1. bill_reaches canon (h e) db1"
  shows "bill_reaches canon (run_catch m h) db"
proof -
  obtain r db1 where m: "m db = (r, db1)" by fastforce
  with assms(1) have "(billing_change canon)\<^sup>*\<^sup>* db db1" by (simp add: bc.reaches_def)
  with assms(2) m show ?thesis
    by (cases r) (auto simp: bc.reaches_def run_catch_def intro: rtranclp_trans)
qed

lemma bill_reaches_get [simp]: "bill_reaches canon (get_subscription env n i) db"
  unfolding get_subscription_def by (intro bill_reaches_method bc.reaches_executor) simp

lemma bill_reaches_explain: "bill_reaches canon (explain_no_transition env n operation i target e) db"
  unfolding explain_no_transition_def by (auto intro!: bc.reaches_bind)

lemmas bill_reaches_frame = bill_reaches_method bc.reaches_executor bc.reaches_within

lemma bill_method_Inr:
  "bill_method env operation refusals m db = (Inr x, db') \<longleftrightarrow> \<not> be_Unset env \<and> find fst refusals = None \<and> m db = (Inr x, db')"
  by (auto simp: bill_method_def run_fail_def split: option.splits)

lemma update_subscription_Inr:
  "update_subscription p f db = Inr (x, db') \<longleftrightarrow>
     (\<exists>s. find p (bi_Subscriptions db) = Some s \<and> subscription_update_violated db (f s) = None \<and> x = f s \<and>
        db' = db\<lparr>bi_Subscriptions := update_where p f (bi_Subscriptions db)\<rparr>)"
  unfolding update_subscription_def by (auto simp: update_returning_def split: option.splits sum.splits prod.splits)

lemma update_addon_Inr:
  "update_addon p f db = Inr (x, db') \<longleftrightarrow>
     (\<exists>a. find p (bi_Addons db) = Some a \<and> x = f a \<and> db' = db\<lparr>bi_Addons := update_where p f (bi_Addons db)\<rparr>)"
  unfolding update_addon_def by (auto simp: update_returning_def split: option.splits sum.splits prod.splits)

lemma select_one_Inr: "select_one p rows = Inr x \<longleftrightarrow> find p rows = Some x"
  by (simp add: select_one_def split: option.splits)

lemmas bill_rules = bill_method_Inr on_executor_Inr on_error_Inr run_rules faulty_write_Inr faulty_read_Inr with_uuid_Inr
  update_subscription_Inr update_addon_Inr select_one_Inr

lemma run_catch_Inr:
  "run_catch m h s = (Inr x, s') \<longleftrightarrow> m s = (Inr x, s') \<or> (\<exists>e s1. m s = (Inl e, s1) \<and> h e s1 = (Inr x, s'))"
  by (auto simp: run_catch_def split: prod.splits sum.splits)

section \<open>Subscriptions\<close>

lemma insert_subscription_Inr:
  assumes "insert_subscription env c db = Inr (s, db')"
  shows "db' = db\<lparr>bi_Subscriptions := bi_Subscriptions db @ [s]\<rparr>" "subscription_insert_violated db s = None" "su_Status s = ''PENDING''"
    "pg_uuid (be_Pg env) (sc_ID c) = Some (su_ID s)" "pg_uuid (be_Pg env) (sc_BusinessID c) = Some (su_BusinessID s)"
    "su_PeriodStart s = ts env (sc_PeriodStart c)" "su_PeriodEnd s = ts env (sc_PeriodEnd c)"
  using assms unfolding insert_subscription_def by (auto simp: with_uuid_Inr Let_def split: option.splits)

lemma overlapping_Inr:
  "overlapping env c db = Inr False \<Longrightarrow> pg_uuid (be_Pg env) (sc_BusinessID c) = Some b \<Longrightarrow> x \<in> set (bi_Subscriptions db) \<Longrightarrow>
     su_BusinessID x = b \<Longrightarrow> live_status (su_Status x) \<Longrightarrow>
     \<not> periods_overlap (su_PeriodStart x) (su_PeriodEnd x) (ts env (sc_PeriodStart c)) (ts env (sc_PeriodEnd c))"
  by (auto simp: overlapping_def split: if_splits)

lemma bill_reaches_create:
  assumes canon: "pg_uuid (be_Pg env) = canon" "\<And>t u. canon t = Some u \<Longrightarrow> canon u = Some u"
  shows "bill_reaches canon (create_subscription env c) db"
proof -
  have insert: "bill_reaches canon (bill_write env 2 (insert_subscription env d)) db1" if free: "overlapping env d db1 = Inr False" for d db1
  proof (rule bc.reaches_write)
    fix s db' assume ins: "insert_subscription env d db1 = Inr (s, db')"
    note s = insert_subscription_Inr [OF ins]
    have "billing_change canon db1 (db1\<lparr>bi_Subscriptions := bi_Subscriptions db1 @ [s]\<rparr>)"
    proof (rule billing_change.opened)
      show "canon (su_ID s) = Some (su_ID s)" "canon (su_BusinessID s) = Some (su_BusinessID s)"
        using s(4,5) canon by auto
      show "\<forall>x \<in> set (bi_Subscriptions db1). su_BusinessID x = su_BusinessID s \<longrightarrow> live_status (su_Status x) \<longrightarrow>
          \<not> periods_overlap (su_PeriodStart x) (su_PeriodEnd x) (su_PeriodStart s) (su_PeriodEnd s)"
        using overlapping_Inr [OF free s(5)] s(6,7) by auto
    qed (use s in simp_all)
    then show "(billing_change canon)\<^sup>*\<^sup>* db1 db'" using s(1) by (simp add: r_into_rtranclp)
  qed
  have work: "bill_reaches canon (run_bind (bill_read env 0 (\<lambda>db. Inr ())) (\<lambda>_. run_bind (bill_read env 1 (overlapping env d))
      (\<lambda>overlaps. if overlaps then run_fail e else bill_write env 2 (insert_subscription env d)))) db1" for d e db1
    by (rule bc.reaches_bind, simp, rule bc.reaches_bind, simp, rule bc.reaches_if, simp, rule insert)
      (simp add: faulty_read_Inr)
  show ?thesis
    unfolding create_subscription_def Let_def
    by (rule bill_reaches_method, rule bc.reaches_on_error [THEN iffD2], rule bc.reaches_within, rule bc.reaches_executor, rule work)
qed

text \<open>A row that is found in a table with a key is the only one.\<close>

lemma find_id:
  "find (\<lambda>s. su_ID s = i) (bi_Subscriptions db) = Some s \<longleftrightarrow> s \<in> set (bi_Subscriptions db) \<and> su_ID s = i" if "subscriptions_ok canon db"
  using that unfolding subscriptions_ok_def by (simp add: find_key_iff)

lemma get_subscription_Inr:
  "get_subscription env n i db = (Inr s, db') \<Longrightarrow>
     db' = db \<and> s \<in> set (bi_Subscriptions db) \<and> pg_uuid (be_Pg env) i = Some (su_ID s)"
  unfolding get_subscription_def by (auto simp: bill_rules dest!: find_SomeD)

lemma ends_expired: "su_Status s = ''ACTIVE'' \<Longrightarrow> ends (expired at s) s"
  by (auto simp: ends_def)

lemma ends_cancelled: "live_status (su_Status s) \<Longrightarrow> ends (cancelled at reason who s) s"
  by (auto simp: ends_def)

lemma bill_reaches_cancel:
  "bill_reaches canon (cancel_subscription env i reason who now) db"
proof -
  have "bill_reaches canon (within (be_Tx env) (on_executor (be_Pg env)
      (run_bind (bill_write env 0 (\<lambda>db. uuid env i (\<lambda>i. uuid env who (\<lambda>u.
           update_subscription (\<lambda>s. su_ID s = i \<and> live_status (su_Status s)) (cancelled at reason u) db))))
        (\<lambda>s. run_bind (bill_write env 1 (\<lambda>db. uuid env i (\<lambda>i. uuid env who (\<lambda>u.
             Inr ((), cancel_addons (\<lambda>x. x = i) at (Some u) ''subscription cancelled'' db)))))
          (\<lambda>_. run_return s))))) db" for at
  proof (rule bc.within_changes)
    fix x db'
    assume "on_executor (be_Pg env)
      (run_bind (bill_write env 0 (\<lambda>db. uuid env i (\<lambda>i. uuid env who (\<lambda>u.
           update_subscription (\<lambda>s. su_ID s = i \<and> live_status (su_Status s)) (cancelled at reason u) db))))
        (\<lambda>s. run_bind (bill_write env 1 (\<lambda>db. uuid env i (\<lambda>i. uuid env who (\<lambda>u.
             Inr ((), cancel_addons (\<lambda>x. x = i) at (Some u) ''subscription cancelled'' db)))))
          (\<lambda>_. run_return s))) db = (Inr x, db')"
    then obtain j u where "db' = cancel_addons (\<lambda>x. x = j) at (Some u) ''subscription cancelled'' (db\<lparr>bi_Subscriptions :=
        update_where (\<lambda>s. su_ID s = j \<and> live_status (su_Status s)) (cancelled at reason u) (bi_Subscriptions db)\<rparr>)"
      by (auto simp: bill_rules)
    then show "(billing_change canon)\<^sup>*\<^sup>* db db'"
      by (auto intro!: r_into_rtranclp billing_change.closed simp: ends_cancelled)
  qed
  then show ?thesis
    unfolding cancel_subscription_def Let_def by (intro bill_reaches_method bill_reaches_catch bill_reaches_explain)
qed

lemma bill_reaches_mark_expired: "bill_reaches canon (mark_expired env i now) db"
proof -
  have "bill_reaches canon (within (be_Tx env) (on_executor (be_Pg env)
      (run_bind (bill_write env 0 (\<lambda>db. uuid env i (\<lambda>i.
           update_subscription (\<lambda>s. su_ID s = i \<and> su_Status s = ''ACTIVE'' \<and> su_PeriodEnd s \<le> at) (expired at) db)))
        (\<lambda>s. run_bind (bill_write env 1 (\<lambda>db. uuid env i (\<lambda>i.
             Inr ((), cancel_addons (\<lambda>x. x = i) at None ''subscription period expired'' db))))
          (\<lambda>_. run_return s))))) db" for at
  proof (rule bc.within_changes)
    fix x db'
    assume "on_executor (be_Pg env)
      (run_bind (bill_write env 0 (\<lambda>db. uuid env i (\<lambda>i.
           update_subscription (\<lambda>s. su_ID s = i \<and> su_Status s = ''ACTIVE'' \<and> su_PeriodEnd s \<le> at) (expired at) db)))
        (\<lambda>s. run_bind (bill_write env 1 (\<lambda>db. uuid env i (\<lambda>i.
             Inr ((), cancel_addons (\<lambda>x. x = i) at None ''subscription period expired'' db))))
          (\<lambda>_. run_return s))) db = (Inr x, db')"
    then obtain j where "db' = cancel_addons (\<lambda>x. x = j) at None ''subscription period expired'' (db\<lparr>bi_Subscriptions :=
        update_where (\<lambda>s. su_ID s = j \<and> su_Status s = ''ACTIVE'' \<and> su_PeriodEnd s \<le> at) (expired at) (bi_Subscriptions db)\<rparr>)"
      by (auto simp: bill_rules)
    then show "(billing_change canon)\<^sup>*\<^sup>* db db'"
      by (auto intro!: r_into_rtranclp billing_change.closed simp: ends_expired)
  qed
  then show ?thesis
    unfolding mark_expired_def Let_def
    by (intro bill_reaches_method bill_reaches_catch) (auto intro!: bc.reaches_bind bc.reaches_return)
qed

lemma due_active: "i \<in> set (due_subscriptions env at limit db) \<Longrightarrow>
    \<exists>s \<in> set (bi_Subscriptions db). su_ID s = i \<and> su_Status s = ''ACTIVE'' \<and> su_PeriodEnd s \<le> at"
  unfolding due_subscriptions_def by (auto dest!: in_set_takeD)

lemma bill_reaches_expire_due:
  assumes ok: "billing_ok canon db"
  shows "bill_reaches canon (expire_due_subscriptions env now limit) db"
proof -
  have "billing_change canon db (cancel_addons (\<lambda>i. i \<in> set (due_subscriptions env at n db)) at None reason
      (db\<lparr>bi_Subscriptions := update_where (\<lambda>s. su_ID s \<in> set (due_subscriptions env at n db)) (expired at) (bi_Subscriptions db)\<rparr>))"
    for at n reason
  proof (rule billing_change.closed, intro ballI impI conjI)
    fix s assume s: "s \<in> set (bi_Subscriptions db)" "su_ID s \<in> set (due_subscriptions env at n db)"
    from due_active [OF s(2)] s(1) ok have "su_Status s = ''ACTIVE''"
      unfolding billing_ok_def subscriptions_ok_def using same_id by metis
    then show "ends (expired at s) s" by (rule ends_expired)
  qed
  then show ?thesis
    unfolding expire_due_subscriptions_def Let_def
    by (intro bill_reaches_frame) (auto intro!: bc.reaches_write r_into_rtranclp simp: expire_stmt_def Let_def)
qed

lemma bill_reaches_override: "bill_reaches canon (apply_cost_budget_override env i budget reason who now) db"
  unfolding apply_cost_budget_override_def
  by (intro bill_reaches_frame)
    (auto intro!: bc.reaches_write r_into_rtranclp billing_change.budgeted simp: bill_rules split: if_splits)

section \<open>The payment that activates\<close>

lemma check_entitlements_Inr:
  assumes "check_entitlements env n b catalogLimit channelLimit seatLimit db = (Inr u, db')"
  shows "db' = db \<and> (\<exists>b'. pg_uuid (be_Pg env) b = Some b' \<and> count_active b' (bi_CatalogItems db) \<le> catalogLimit \<and>
           count_active b' (bi_Channels db) \<le> channelLimit \<and> count_active b' (bi_Members db) \<le> seatLimit)"
  using assms unfolding check_entitlements_def Let_def
  by (auto simp: bill_rules split: if_splits)

lemma insert_payment_Inr:
  assumes "insert_payment env c pay_method db = Inr (p, db')"
  shows "db' = db\<lparr>bi_Payments := bi_Payments db @ [p]\<rparr> \<and> (\<forall>x \<in> set (bi_Payments db). \<not> same_payment x p) \<and>
     pg_uuid (be_Pg env) (pc_SubscriptionID c) = Some (py_SubscriptionID p) \<and>
     pg_uuid (be_Pg env) (pc_BusinessID c) = Some (py_BusinessID p) \<and> py_AmountYER p = pc_AmountYER c"
  using assms unfolding insert_payment_def with_uuid_Inr Let_def
  by (elim exE conjE) (auto split: if_splits)

lemma append_payment_Inr:
  assumes "append_payment env n c db = (Inr p, db')"
  obtains (replayed) "p \<in> set (bi_Payments db)" "db' = db" "py_SubscriptionID p = pc_SubscriptionID c"
    "py_BusinessID p = pc_BusinessID c" "py_AmountYER p = pc_AmountYER c"
  | (fresh) "db' = db\<lparr>bi_Payments := bi_Payments db @ [p]\<rparr>" "\<forall>x \<in> set (bi_Payments db). \<not> same_payment x p"
    "pg_uuid (be_Pg env) (pc_SubscriptionID c) = Some (py_SubscriptionID p)"
    "pg_uuid (be_Pg env) (pc_BusinessID c) = Some (py_BusinessID p)" "py_AmountYER p = pc_AmountYER c"
proof -
  have write_back: "snd (bill_write env m (insert_payment env d pm) db) = db" if "fst (bill_write env m (insert_payment env d pm) db) = Inl e"
    "is_no_rows e" for m d pm e
    using that pg_write_no_rows [of "(be_Pg env)\<lparr>pg_write_fault := be_Fault env m\<rparr>" "insert_payment env d pm" db e]
    unfolding faulty_write_def by (metis prod.collapse)
  from assms show thesis
    unfolding append_payment_def Let_def bill_method_Inr on_executor_Inr run_catch_Inr
    apply (elim conjE disjE exE)
    subgoal by (drule faulty_write_Inr [THEN iffD1]) (use insert_payment_Inr fresh in force)
    subgoal premises p for e s1
    proof -
      note h = p(5)
      show thesis
      proof (cases "is_no_rows e \<and> \<not> blank (pc_IdempotencyKey c)")
        case True
        with write_back p(4) have "s1 = db" by (metis fst_conv snd_conv)
        with h True show thesis
          by (auto simp: run_catch_Inr bill_rules differs_def split: if_splits intro: replayed dest!: find_SomeD)
      next
        case False
        with h show thesis by (simp add: run_fail_def)
      qed
    qed
    done
qed

lemma activate_subscription_Inr:
  assumes "activate_subscription env n i now db = (Inr s', db')"
  obtains j s where "pg_uuid (be_Pg env) i = Some j"
    "find (\<lambda>s. su_ID s = j \<and> su_Status s = ''PENDING'' \<and> su_PeriodStart s \<le> ts env (now_or_clock env now) \<and>
       ts env (now_or_clock env now) < su_PeriodEnd s) (bi_Subscriptions db) = Some s"
    "subscription_update_violated db (activated (ts env (now_or_clock env now)) s) = None"
    "db' = db\<lparr>bi_Subscriptions := update_where (\<lambda>s. su_ID s = j \<and> su_Status s = ''PENDING'' \<and>
       su_PeriodStart s \<le> ts env (now_or_clock env now) \<and> ts env (now_or_clock env now) < su_PeriodEnd s)
       (activated (ts env (now_or_clock env now))) (bi_Subscriptions db)\<rparr>"
  using assms unfolding activate_subscription_def Let_def bill_method_Inr on_executor_Inr run_catch_Inr
  by (auto simp: bill_rules explain_no_transition_def split: if_splits)

text \<open>
  A call that succeeds either finds its payment recorded, or records it and makes the subscription active; then the
  period is running and what the business has in use fits the plan.
\<close>

definition within_plan :: "subscription \<Rightarrow> billing_db \<Rightarrow> bool" where
  "within_plan s db \<longleftrightarrow>
     count_active (su_BusinessID s) (bi_CatalogItems db) \<le> su_AICatalogLimit s \<and>
     count_active (su_BusinessID s) (bi_Channels db) \<le> su_ChannelLimit s \<and>
     count_active (su_BusinessID s) (bi_Members db) \<le> su_SeatLimit s"

lemma pending_no_payment:
  assumes "billing_ok canon db" "s \<in> set (bi_Subscriptions db)" "su_Status s = ''PENDING''" "p \<in> set (bi_Payments db)"
  shows "py_SubscriptionID p \<noteq> su_ID s"
  using assms pending_unpaid [of s] unfolding billing_ok_def payments_ok_def subscriptions_ok_def row_ok_def by blast

lemma active_has_payment:
  assumes "billing_ok canon db" "s \<in> set (bi_Subscriptions db)" "su_Status s = ''ACTIVE''"
  shows "\<exists>p \<in> set (bi_Payments db). py_SubscriptionID p = su_ID s"
proof -
  have "subscription_checks s" using assms(1,2) unfolding billing_ok_def subscriptions_ok_def row_ok_def by blast
  then have "su_ActivatedAt s \<noteq> None" using assms(3) by (auto simp: subscription_checks_def)
  with assms show ?thesis unfolding billing_ok_def payments_ok_def by blast
qed

lemma subscription_unique:
  "billing_ok canon db \<Longrightarrow> x \<in> set (bi_Subscriptions db) \<Longrightarrow> y \<in> set (bi_Subscriptions db) \<Longrightarrow> su_ID x = su_ID y \<Longrightarrow> x = y"
  unfolding billing_ok_def subscriptions_ok_def using same_id by metis

lemma subscription_canon:
  "billing_ok canon db \<Longrightarrow> s \<in> set (bi_Subscriptions db) \<Longrightarrow> canon (su_ID s) = Some (su_ID s) \<and> canon (su_BusinessID s) = Some (su_BusinessID s)"
  unfolding billing_ok_def subscriptions_ok_def row_ok_def by blast

lemma pay_and_activate_Inr:
  assumes canon: "pg_uuid (be_Pg env) = canon" and ok: "billing_ok canon db"
    and run: "pay_and_activate env q paidAt now db = (Inr p, db')"
  obtains s where "s \<in> set (bi_Subscriptions db)" "canon (trim_space (pq_SubscriptionID q)) = Some (su_ID s)" "pays p s"
    "pq_AmountYER q = su_AmountDueYER s" "su_Status s = ''ACTIVE''" "p \<in> set (bi_Payments db)" "db' = db"
  | s where "s \<in> set (bi_Subscriptions db)" "canon (trim_space (pq_SubscriptionID q)) = Some (su_ID s)" "pays p s"
    "pq_AmountYER q = su_AmountDueYER s" "su_Status s = ''PENDING''" "su_PeriodStart s \<le> now" "now < su_PeriodEnd s" "within_plan s db"
    "\<forall>x \<in> set (bi_Payments db). \<not> same_payment x p"
    "subscription_update_violated db (activated (ts env (now_or_clock env now)) s) = None"
    "db' = db\<lparr>bi_Payments := bi_Payments db @ [p],
       bi_Subscriptions := update_where (\<lambda>x. x = s) (activated (ts env (now_or_clock env now))) (bi_Subscriptions db)\<rparr>"
proof -
  let ?at = "ts env (now_or_clock env now)"
  from run obtain s current u d1 d2 d3 d4 where get: "get_subscription env 0 (trim_space (pq_SubscriptionID q)) db = (Inr s, d1)"
    and due: "pq_AmountYER q = su_AmountDueYER s"
    and gate: "activation_gate env s now d1 = (Inr u, d2)"
    and append: "append_payment env 4 \<lparr>pc_SubscriptionID = su_ID s, pc_BusinessID = su_BusinessID s,
                pc_AmountYER = pq_AmountYER q, pc_Method = pq_Method q, pc_Reference = pq_Reference q, pc_PaidAt = paidAt,
                pc_RecordedBy = pq_AdminID q, pc_IdempotencyKey = trim_space (pq_IdempotencyKey q), pc_Now = now\<rparr> d2 = (Inr p, d3)"
    and again: "get_subscription env 6 (su_ID s) d3 = (Inr current, d4)"
    and "(su_Status current = ''ACTIVE'' \<and> db' = d4) \<or>
       (su_Status current = ''PENDING'' \<and> (\<exists>s'. activate_subscription env 7 (su_ID s) now d4 = (Inr s', db')))"
    unfolding pay_and_activate_def
    by (auto simp: run_bind_Inr run_fail_def run_return_eq split: if_splits)
  then have last: "(su_Status current = ''ACTIVE'' \<and> db' = d3) \<or>
       (su_Status current = ''PENDING'' \<and> (\<exists>s'. activate_subscription env 7 (su_ID s) now d3 = (Inr s', db')))"
    using get_subscription_Inr [OF again] by auto
  from get_subscription_Inr [OF get] canon have d1: "d1 = db" and s: "s \<in> set (bi_Subscriptions db)"
    and id: "canon (trim_space (pq_SubscriptionID q)) = Some (su_ID s)" by auto
  note self = subscription_canon [OF ok s]
  have d2: "d2 = db" and plan: "su_Status s = ''PENDING'' \<Longrightarrow> su_PeriodStart s \<le> now \<and> now < su_PeriodEnd s \<and> within_plan s db"
    using gate check_entitlements_Inr [of env 1 "su_BusinessID s" _ _ _ d1 u d2] d1 self canon
    by (auto simp: activation_gate_def run_return_eq run_fail_def within_plan_def split: if_splits)
  from append show thesis
  proof (cases rule: append_payment_Inr)
    case replayed
    then have p: "p \<in> set (bi_Payments db)" "d3 = db" "pays p s" using d2 due by (auto simp: pays_def)
    with pending_no_payment [OF ok s] have "su_Status s \<noteq> ''PENDING''" by (auto simp: pays_def)
    moreover have "current = s"
      using get_subscription_Inr [OF again] p(2) s self canon subscription_unique [OF ok] by auto
    ultimately show thesis using that(1) [OF s id p(3) due _ p(1)] last p(2) by auto
  next
    case fresh
    then have d3: "d3 = db\<lparr>bi_Payments := bi_Payments db @ [p]\<rparr>" and new: "\<forall>x \<in> set (bi_Payments db). \<not> same_payment x p"
      and p: "pays p s" using d2 due self canon by (auto simp: pays_def)
    then have "su_Status s \<noteq> ''ACTIVE''" using active_has_payment [OF ok s] by (auto simp: same_payment_def pays_def)
    moreover have current: "current = s"
      using get_subscription_Inr [OF again] d3 s self canon subscription_unique [OF ok] by auto
    ultimately have pending: "su_Status s = ''PENDING''"
      and "\<exists>s'. activate_subscription env 7 (su_ID s) now d3 = (Inr s', db')" using last by auto
    then obtain s' where act: "activate_subscription env 7 (su_ID s) now d3 = (Inr s', db')" by blast
    show thesis
    proof (rule activate_subscription_Inr [OF act], goal_cases)
      case (1 j x)
      let ?q = "\<lambda>s. su_ID s = j \<and> su_Status s = ''PENDING'' \<and> su_PeriodStart s \<le> ?at \<and> ?at < su_PeriodEnd s"
      from 1(1) self canon have j: "j = su_ID s" by simp
      from find_SomeD [OF 1(2)] d3 have "x \<in> set (bi_Subscriptions db)" "?q x" by simp_all
      with subscription_unique [OF ok _ s] j have x: "x = s" "?q s" by blast+
      have hit: "?q y \<longleftrightarrow> y = s" if "y \<in> set (bi_Subscriptions db)" for y
        using subscription_unique [OF ok that s] x(2) j by blast
      have "update_where ?q (activated ?at) (bi_Subscriptions db) = update_where (\<lambda>x. x = s) (activated ?at) (bi_Subscriptions db)"
        unfolding update_where_def by (rule map_cong [OF refl]) (simp only: hit)
      with 1(4) d3 have "db' = db\<lparr>bi_Payments := bi_Payments db @ [p],
          bi_Subscriptions := update_where (\<lambda>x. x = s) (activated ?at) (bi_Subscriptions db)\<rparr>" by simp
      moreover have "subscription_update_violated d3 r = subscription_update_violated db r" for r
        by (simp add: subscription_update_violated_def d3)
      with 1(3) x(1) have "subscription_update_violated db (activated ?at s) = None" by metis
      ultimately show ?case using that(2) [OF s id p due pending] plan [OF pending] new by blast
    qed
  qed
qed

lemma bill_reaches_record_payment:
  assumes canon: "pg_uuid (be_Pg env) = canon" and ok: "billing_ok canon db"
  shows "bill_reaches canon (record_payment env q) db"
proof -
  have "bill_reaches canon (within (be_Tx env) (pay_and_activate env q paidAt now)) db" for paidAt now
  proof (rule bc.within_changes)
    fix p db' assume run: "pay_and_activate env q paidAt now db = (Inr p, db')"
    show "(billing_change canon)\<^sup>*\<^sup>* db db'"
    proof (rule pay_and_activate_Inr [OF canon ok run], goal_cases)
      case (2 s)
      then show ?case by (auto intro!: r_into_rtranclp billing_change.paid)
    qed simp
  qed
  then show ?thesis
    by (simp add: record_payment_def split: option.splits)
qed

section \<open>Add-ons\<close>

lemma addon_kinds_kept:
  "to_upper (trim_space ''AI_REPLIES_100'') = ''AI_REPLIES_100''" "to_upper (trim_space ''AI_REPLIES_500'') = ''AI_REPLIES_500''"
  "to_upper (trim_space ''CATALOG_PRODUCTS_100'') = ''CATALOG_PRODUCTS_100''" "to_upper (trim_space ''EXTRA_SEAT'') = ''EXTRA_SEAT''"
  "to_upper (trim_space ''CHANNEL_PASS'') = ''CHANNEL_PASS''"
  by code_simp+

lemma addon_terms_kind:
  assumes "addon_terms k = Some t"
  shows "addon_terms (to_upper (trim_space k)) = Some t"
proof -
  have "to_upper (trim_space k) \<in> {''AI_REPLIES_100'', ''AI_REPLIES_500'', ''CATALOG_PRODUCTS_100'', ''EXTRA_SEAT'', ''CHANNEL_PASS''}"
    using assms unfolding addon_terms_def Let_def by (auto split: if_splits)
  then have "to_upper (trim_space (to_upper (trim_space k))) = to_upper (trim_space k)" using addon_kinds_kept by fastforce
  then show ?thesis using assms unfolding addon_terms_def by simp
qed

lemma addon_terms_channel:
  "addon_terms k = Some (price, replies, catalog, seats, channels) \<Longrightarrow>
     channels = (if to_upper (trim_space k) = ''CHANNEL_PASS'' then 1 else 0)"
  unfolding addon_terms_def Let_def by (simp split: if_splits)

lemma insert_addon_Inr:
  assumes "insert_addon env c kind (price, replies, catalog, seats, channels) db = Inr (a, db')"
  shows "db' = db\<lparr>bi_Addons := bi_Addons db @ [a]\<rparr> \<and> (\<forall>x \<in> set (bi_Addons db). ad_ID x \<noteq> ad_ID a) \<and> ad_Status a = ''PENDING'' \<and>
     ad_ActivatedAt a = None \<and> ad_CancelledAt a = None \<and> ad_Kind a = kind \<and>
     (ad_PriceYERSnapshot a, ad_AIReplyDelta a, ad_CatalogDelta a, ad_SeatDelta a, ad_ChannelDelta a) =
       (price, replies, catalog, seats, channels) \<and>
     pg_uuid (be_Pg env) (nd_SubscriptionID c) = Some (ad_SubscriptionID a) \<and>
     pg_uuid (be_Pg env) (nd_BusinessID c) = Some (ad_BusinessID a)"
  using assms unfolding insert_addon_def with_uuid_Inr Let_def
  by (elim exE conjE) (auto simp: same_addon_def split: if_splits)

lemma lock_subscription_Inr:
  "lock_subscription env n i b db = (Inr s, db') \<Longrightarrow>
     db' = db \<and> s \<in> set (bi_Subscriptions db) \<and> pg_uuid (be_Pg env) i = Some (su_ID s) \<and> pg_uuid (be_Pg env) b = Some (su_BusinessID s)"
  unfolding lock_subscription_def by (auto simp: bill_rules dest!: find_SomeD)

lemma check_channel_pass_Inr:
  "check_channel_pass env c s db = (Inr u, db') \<Longrightarrow> db' = db \<and>
     (\<exists>i x. pg_uuid (be_Pg env) (nd_SubscriptionID c) = Some i \<and> x \<in> set (bi_Approvals db) \<and> cp_SubscriptionID x = i \<and>
        su_ChannelLimit s + live_channels i db < su_ChannelCeiling s \<and> live_channels i db < cp_MaxChannelPasses x)"
  unfolding check_channel_pass_def by (force simp: bill_rules split: if_splits dest!: find_SomeD)

lemma create_addon_work_Inr:
  assumes run: "create_addon_work env c (to_upper (trim_space (nd_Kind c))) terms db = (Inr a, db')"
    and terms: "addon_terms (nd_Kind c) = Some terms"
  obtains "db' = db" "a \<in> set (bi_Addons db)"
  | s where "db' = db\<lparr>bi_Addons := bi_Addons db @ [a]\<rparr>" "s \<in> set (bi_Subscriptions db)" "extends a s" "addon_checks a"
    "ad_Status a = ''PENDING''" "\<forall>x \<in> set (bi_Addons db). ad_ID x \<noteq> ad_ID a" "current_subscription s (nd_Now c)"
    "ad_ChannelDelta a = 0 \<or> (\<exists>x \<in> set (bi_Approvals db). cp_SubscriptionID x = su_ID s \<and>
         live_channels (su_ID s) db + ad_ChannelDelta a \<le> cp_MaxChannelPasses x)"
proof -
  obtain price replies catalog seats channels where t: "terms = (price, replies, catalog, seats, channels)" by (cases terms)
  let ?kind = "to_upper (trim_space (nd_Kind c))"
  from run obtain s d where lock: "lock_subscription env 0 (nd_SubscriptionID c) (nd_BusinessID c) db = (Inr s, d)"
    and cur: "current_subscription s (nd_Now c)"
    and rest: "(case bill_read env 1 (find_addon_by_key env c) d of
           (Inr previous, db1) \<Rightarrow>
             (if ad_Kind previous \<noteq> ?kind
              then run_fail (conflict_at ''subscription_addon.create'' ''idempotency key was already used for a different addon'') db1
              else bill_read env 2 (find_addon_by_key env c) db1)
         | (Inl e, db1) \<Rightarrow>
             (if \<not> is_no_rows e then run_fail e db1
              else run_bind (if ?kind = ''CHANNEL_PASS'' then check_channel_pass env c s else run_return ())
                     (\<lambda>_. bill_write env 5 (insert_addon env c ?kind terms)) db1)) = (Inr a, db')"
    unfolding create_addon_work_def run_bind_Inr by (auto simp: run_fail_def split: if_splits)
  from lock_subscription_Inr [OF lock] have d: "d = db" and s: "s \<in> set (bi_Subscriptions db)"
    and ids: "pg_uuid (be_Pg env) (nd_SubscriptionID c) = Some (su_ID s)" "pg_uuid (be_Pg env) (nd_BusinessID c) = Some (su_BusinessID s)"
    by auto
  obtain r where first: "bill_read env 1 (find_addon_by_key env c) d = (r, db)"
    using snd_faulty_read [of "be_Pg env" "be_Fault env 1" "find_addon_by_key env c" d] d by (metis prod.collapse)
  show thesis
  proof (cases r)
    case (Inr previous)
    from rest have "bill_read env 2 (find_addon_by_key env c) db = (Inr a, db')"
      unfolding first Inr by (auto simp: run_fail_def split: if_splits)
    then have "find_addon_by_key env c db = Inr a" "db' = db" by (auto simp: faulty_read_Inr)
    then show thesis using that(1) by (auto simp: find_addon_by_key_def bill_rules dest!: find_SomeD)
  next
    case (Inl e)
    from rest obtain u d2 where
      pass: "(if ?kind = ''CHANNEL_PASS'' then check_channel_pass env c s else run_return ()) db = (Inr u, d2)"
      and ins: "insert_addon env c ?kind terms d2 = Inr (a, db')"
      unfolding first Inl by (auto simp: run_fail_def run_bind_Inr faulty_write_Inr split: if_splits)
    from pass have d2: "d2 = db" using check_channel_pass_Inr [of env c s db u d2] by (auto simp: run_return_eq split: if_splits)
    note a = insert_addon_Inr [OF ins [unfolded t d2]]
    have "addon_checks a"
      using addon_terms_kind [OF terms] a unfolding addon_checks_def t by simp
    moreover have "extends a s" using a ids cur by (simp add: extends_def current_subscription_def)
    moreover have "ad_ChannelDelta a = 0 \<or> (\<exists>x \<in> set (bi_Approvals db). cp_SubscriptionID x = su_ID s \<and>
         live_channels (su_ID s) db + ad_ChannelDelta a \<le> cp_MaxChannelPasses x)"
    proof (cases "?kind = ''CHANNEL_PASS''")
      case True
      with pass check_channel_pass_Inr [of env c s db u d2] ids obtain x where "x \<in> set (bi_Approvals db)" "cp_SubscriptionID x = su_ID s"
        "live_channels (su_ID s) db < cp_MaxChannelPasses x" by auto
      moreover have "ad_ChannelDelta a = 1" using a addon_terms_channel [OF terms [unfolded t]] True by simp
      ultimately show ?thesis by auto
    next
      case False
      then show ?thesis using a addon_terms_channel [OF terms [unfolded t]] by simp
    qed
    ultimately show thesis using that(2) [of s] a s cur by simp
  qed
qed

lemma bill_reaches_create_addon: "bill_reaches canon (create_pending_addon env c) db"
proof -
  have work: "bill_reaches canon (within (be_Tx env) (on_executor (be_Pg env)
      (case addon_terms (nd_Kind d) of
         None \<Rightarrow> run_fail (invalid_repository_input ''subscription_addon.create'' ''invalid addon request'')
       | Some terms \<Rightarrow> create_addon_work env d (to_upper (trim_space (nd_Kind d))) terms))) db" for d
  proof (rule bc.within_changes)
    fix a db'
    assume "on_executor (be_Pg env) (case addon_terms (nd_Kind d) of
         None \<Rightarrow> run_fail (invalid_repository_input ''subscription_addon.create'' ''invalid addon request'')
       | Some terms \<Rightarrow> create_addon_work env d (to_upper (trim_space (nd_Kind d))) terms) db = (Inr a, db')"
    then obtain terms where terms: "addon_terms (nd_Kind d) = Some terms"
      and run: "create_addon_work env d (to_upper (trim_space (nd_Kind d))) terms db = (Inr a, db')"
      by (auto simp: on_executor_Inr run_fail_def split: option.splits)
    show "(billing_change canon)\<^sup>*\<^sup>* db db'"
    proof (rule create_addon_work_Inr [OF run terms], goal_cases)
      case (2 s)
      then show ?case by (auto intro!: r_into_rtranclp billing_change.sold)
    qed simp
  qed
  show ?thesis
    unfolding create_pending_addon_def Let_def by (rule bill_reaches_method, rule bc.reaches_on_error [THEN iffD2], rule work)
qed

lemma addon_unique:
  "billing_ok canon db \<Longrightarrow> x \<in> set (bi_Addons db) \<Longrightarrow> y \<in> set (bi_Addons db) \<Longrightarrow> ad_ID x = ad_ID y \<Longrightarrow> x = y"
  unfolding billing_ok_def addons_ok_def using same_id by metis

lemma get_addon_Inr:
  "get_addon env i db = Inr a \<Longrightarrow> a \<in> set (bi_Addons db) \<and> pg_uuid (be_Pg env) i = Some (ad_ID a)"
  unfolding get_addon_def by (auto simp: bill_rules dest!: find_SomeD)

lemma insert_addon_payment_Inr:
  assumes "insert_addon_payment env p pay_method db = Inr (affected, db')" "affected = 1"
  shows "\<exists>a x. find (\<lambda>a. ad_ID a = ap_AddonID x) (bi_Addons db) = Some a \<and> pg_uuid (be_Pg env) (aq_AddonID p) = Some (ap_AddonID x) \<and>
     db' = db\<lparr>bi_AddonPayments := bi_AddonPayments db @ [x]\<rparr> \<and> ap_AmountYER x = aq_AmountYER p \<and> ap_BusinessID x = ad_BusinessID a \<and>
     (\<forall>y \<in> set (bi_AddonPayments db). ap_AddonID y \<noteq> ap_AddonID x)"
proof -
  from assms obtain i r d a x where "pg_uuid (be_Pg env) (aq_AddonID p) = Some d" "find (\<lambda>a. ad_ID a = d) (bi_Addons db) = Some a"
    "\<forall>y \<in> set (bi_AddonPayments db). ap_AddonID y \<noteq> d" "db' = db\<lparr>bi_AddonPayments := bi_AddonPayments db @ [x]\<rparr>"
    "x = \<lparr>ap_ID = i, ap_AddonID = d, ap_BusinessID = ad_BusinessID a,
       ap_AmountYER = aq_AmountYER p, ap_Method = pay_method, ap_Reference = aq_Reference p, ap_PaidAt = ts env (aq_PaidAt p),
       ap_RecordedBy = r, ap_IdempotencyKey = aq_IdempotencyKey p, ap_CreatedAt = ts env (aq_Now p)\<rparr>"
    unfolding insert_addon_payment_def with_uuid_Inr Let_def
    by (elim exE conjE) (simp split: option.splits if_splits, blast)
  then show ?thesis by (intro exI [of _ a] exI [of _ x]) simp
qed

lemma pay_addon_work_Inr:
  assumes canon: "pg_uuid (be_Pg env) = canon" and ok: "billing_ok canon db"
    and run: "pay_addon_work env p pay_method db = (Inr a', db')"
  obtains "db' = db" "a' \<in> set (bi_Addons db)"
  | a s x at where "a \<in> set (bi_Addons db)" "s \<in> set (bi_Subscriptions db)" "extends a s" "current_subscription s (aq_Now p)"
    "ad_Status a = ''PENDING''" "buys x a" "ap_AmountYER x = aq_AmountYER p" "\<forall>y \<in> set (bi_AddonPayments db). ap_AddonID y \<noteq> ad_ID a"
    "a' = addon_activated at a"
    "db' = db\<lparr>bi_AddonPayments := bi_AddonPayments db @ [x],
       bi_Addons := update_where (\<lambda>y. ad_ID y = ad_ID a \<and> ad_Status y = ''PENDING'') (addon_activated at) (bi_Addons db)\<rparr>"
proof -
  define query where "query = (\<lambda>db :: billing_db. uuid env (aq_RecordedBy p) (\<lambda>r.
            select_one (\<lambda>x. ap_RecordedBy x = r \<and> ap_IdempotencyKey x = aq_IdempotencyKey p) (bi_AddonPayments db)))"
  obtain r where first: "bill_read env 0 query db = (r, db)"
    using snd_faulty_read [of "be_Pg env" "be_Fault env 0" query db] by (metis prod.collapse)
  note run = run [unfolded pay_addon_work_def, folded query_def, unfolded first]
  show thesis
  proof (cases r)
    case (Inr y)
    with run have "bill_read env 1 (get_addon env (aq_AddonID p)) db = (Inr a', db')"
      by (auto simp: run_fail_def split: if_splits)
    then show thesis using that(1) get_addon_Inr by (auto simp: faulty_read_Inr)
  next
    case (Inl e)
    with run obtain a s d1 affected d2 where
      rows: "get_addon env (aq_AddonID p) db = Inr a" "find (\<lambda>s. su_ID s = ad_SubscriptionID a) (bi_Subscriptions db) = Some s"
      and price: "aq_AmountYER p = ad_PriceYERSnapshot a" and cur: "current_subscription s (aq_Now p)" and pending: "ad_Status a = ''PENDING''"
      and ins: "insert_addon_payment env p pay_method db = Inr (affected, d2)" "affected = 1"
      and upd: "bill_write env 4 (\<lambda>db. uuid env (aq_AddonID p) (\<lambda>d.
                      update_addon (\<lambda>a. ad_ID a = d \<and> ad_Status a = ''PENDING'') (addon_activated (ts env (aq_Now p))) db)) d2 = (Inr a', db')"
      by (auto simp: run_fail_def run_bind_Inr faulty_read_Inr faulty_write_Inr select_one_Inr split: if_splits sum.splits prod.splits)
    from get_addon_Inr [OF rows(1)] have a: "a \<in> set (bi_Addons db)" "pg_uuid (be_Pg env) (aq_AddonID p) = Some (ad_ID a)" by auto
    from insert_addon_payment_Inr [OF ins] obtain b x where b: "find (\<lambda>a. ad_ID a = ap_AddonID x) (bi_Addons db) = Some b"
      and x: "ap_AddonID x = ad_ID a" "d2 = db\<lparr>bi_AddonPayments := bi_AddonPayments db @ [x]\<rparr>" "ap_AmountYER x = aq_AmountYER p"
        "ap_BusinessID x = ad_BusinessID b" "\<forall>y \<in> set (bi_AddonPayments db). ap_AddonID y \<noteq> ad_ID a"
      using a(2) by auto
    from find_SomeD [OF b] x(1) addon_unique [OF ok _ a(1)] have "b = a" by auto
    then have buys: "buys x a" using x price by (simp add: buys_def)
    from ok a(1) obtain s' where s': "s' \<in> set (bi_Subscriptions db)" "extends a s'" unfolding billing_ok_def addons_ok_def by blast
    with find_SomeD [OF rows(2)] subscription_unique [OF ok _ s'(1)] have s: "s \<in> set (bi_Subscriptions db)" "extends a s"
      by (auto simp: extends_def)
    from upd x(2) a(2) obtain c where c: "find (\<lambda>y. ad_ID y = ad_ID a \<and> ad_Status y = ''PENDING'') (bi_Addons db) = Some c"
      "a' = addon_activated (ts env (aq_Now p)) c" and db': "db' = db\<lparr>bi_AddonPayments := bi_AddonPayments db @ [x],
       bi_Addons := update_where (\<lambda>y. ad_ID y = ad_ID a \<and> ad_Status y = ''PENDING'') (addon_activated (ts env (aq_Now p))) (bi_Addons db)\<rparr>"
      by (auto simp: faulty_write_Inr update_addon_Inr)
    from find_SomeD [OF c(1)] addon_unique [OF ok _ a(1)] c(2) have "a' = addon_activated (ts env (aq_Now p)) a" by auto
    then show thesis using that(2) [OF a(1) s cur pending buys x(3,5) _ db'] by blast
  qed
qed

lemma bill_reaches_pay_addon:
  assumes canon: "pg_uuid (be_Pg env) = canon" and ok: "billing_ok canon db"
  shows "bill_reaches canon (record_addon_payment env p) db"
proof -
  have work: "bill_reaches canon (within (be_Tx env) (on_executor (be_Pg env) (pay_addon_work env q m))) db" for q m
  proof (rule bc.within_changes)
    fix a' db' assume "on_executor (be_Pg env) (pay_addon_work env q m) db = (Inr a', db')"
    then have run: "pay_addon_work env q m db = (Inr a', db')" by (simp add: on_executor_Inr)
    show "(billing_change canon)\<^sup>*\<^sup>* db db'"
    proof (rule pay_addon_work_Inr [OF canon ok run], goal_cases)
      case (2 a s x at)
      then show ?case by (auto intro!: r_into_rtranclp billing_change.bought)
    qed simp
  qed
  show ?thesis
    unfolding record_addon_payment_def Let_def by (rule bill_reaches_method, rule bc.reaches_on_error [THEN iffD2], rule work)
qed

lemma check_removable_Inr: "check_removable env i a db = (Inr u, db') \<Longrightarrow> db' = db"
  unfolding check_removable_def by (auto simp: bill_rules split: if_splits)

lemma bill_reaches_cancel_addon:
  assumes canon: "pg_uuid (be_Pg env) = canon" and ok: "billing_ok canon db"
  shows "bill_reaches canon (cancel_addon env i who reason now) db"
  unfolding cancel_addon_def
proof (rule bill_reaches_method, rule bc.reaches_on_error [THEN iffD2], rule bc.within_changes)
  fix x db'
  assume "on_executor (be_Pg env) (run_bind (bill_read env 0 (get_addon env i)) (\<lambda>a.
              if ad_Status a = ''CANCELLED'' then bill_read env 1 (get_addon env i)
              else if ad_Status a \<noteq> ''PENDING'' \<and> ad_Status a \<noteq> ''ACTIVE''
              then run_fail (conflict_at ''subscription_addon.cancel'' ''addon cannot be cancelled from its current state'')
              else run_bind (if ad_Status a = ''ACTIVE'' then check_removable env i a else run_return ()) (\<lambda>_.
                bill_write env 6 (\<lambda>db. uuid env i (\<lambda>d. uuid env who (\<lambda>u.
                  update_addon (\<lambda>a. ad_ID a = d) (addon_cancelled (ts env (now_or_clock env now)) u reason) db)))))) db = (Inr x, db')"
  then obtain a where a: "get_addon env i db = Inr a" and cases: "db' = db \<or> (live_status (ad_Status a) \<and> (\<exists>d u. pg_uuid (be_Pg env) i = Some d \<and>
      db' = db\<lparr>bi_Addons := update_where (\<lambda>a. ad_ID a = d) (addon_cancelled (ts env (now_or_clock env now)) u reason) (bi_Addons db)\<rparr>))"
    by (auto simp: bill_rules split: if_splits dest!: check_removable_Inr)
  from get_addon_Inr [OF a] canon have own: "a \<in> set (bi_Addons db)" "canon i = Some (ad_ID a)" by auto
  from cases show "(billing_change canon)\<^sup>*\<^sup>* db db'"
  proof (elim disjE exE conjE)
    fix d u assume live: "live_status (ad_Status a)" and "pg_uuid (be_Pg env) i = Some d"
      and db': "db' = db\<lparr>bi_Addons := update_where (\<lambda>a. ad_ID a = d) (addon_cancelled (ts env (now_or_clock env now)) u reason) (bi_Addons db)\<rparr>"
    then have "d = ad_ID a" using own canon by simp
    then have "\<forall>b \<in> set (bi_Addons db). ad_ID b = d \<longrightarrow> live_status (ad_Status b)"
      using addon_unique [OF ok _ own(1)] live by blast
    then show ?thesis unfolding db' by (intro r_into_rtranclp billing_change.dropped)
  qed simp
qed

lemma upsert_approval_Inr:
  "upsert_approval env v db = Inr (x, db') \<Longrightarrow> db' = db\<lparr>bi_Approvals := put_approval x (bi_Approvals db)\<rparr> \<and>
     pg_uuid (be_Pg env) (cp_SubscriptionID v) = Some (cp_SubscriptionID x) \<and> cp_MaxChannelPasses x = cp_MaxChannelPasses v"
  unfolding upsert_approval_def with_uuid_Inr Let_def by (elim exE conjE) (auto split: if_splits)

lemma bill_reaches_approve:
  assumes canon: "pg_uuid (be_Pg env) = canon"
  shows "bill_reaches canon (approve_channel_pass_capacity env v0) db"
  unfolding approve_channel_pass_capacity_def Let_def
proof (rule bill_reaches_method, rule bc.reaches_on_error [THEN iffD2], rule bc.within_changes)
  let ?v = "v0\<lparr>cp_Now := now_or_clock env (cp_Now v0)\<rparr>"
  fix x db'
  assume "on_executor (be_Pg env) (run_bind (lock_subscription env 0 (cp_SubscriptionID ?v) (cp_BusinessID ?v)) (\<lambda>s.
     if \<not> current_subscription s (cp_Now ?v)
     then run_fail (conflict_at ''subscription_addon.approve_channel_capacity'' ''active current subscription is required'')
     else if cp_MaxChannelPasses ?v > su_ChannelCeiling s - su_ChannelLimit s
     then run_fail (conflict_at ''subscription_addon.approve_channel_capacity'' ''approved channel capacity exceeds the plan channel ceiling'')
     else run_bind (bill_read env 1 (\<lambda>db. uuid env (cp_SubscriptionID ?v) (\<lambda>i. Inr (live_channels i db)))) (\<lambda>allocated.
       if cp_MaxChannelPasses ?v < allocated
       then run_fail (conflict_at ''subscription_addon.approve_channel_capacity''
              ''approved channel capacity cannot be lower than allocated channel passes'')
       else bill_write env 2 (upsert_approval env ?v)))) db = (Inr x, db')"
  then obtain s i where lock: "lock_subscription env 0 (cp_SubscriptionID v0) (cp_BusinessID v0) db = (Inr s, db)"
    and room: "cp_MaxChannelPasses v0 \<le> su_ChannelCeiling s - su_ChannelLimit s"
    and i: "pg_uuid (be_Pg env) (cp_SubscriptionID v0) = Some i" "live_channels i db \<le> cp_MaxChannelPasses v0"
    and put: "upsert_approval env ?v db = Inr (x, db')"
    unfolding on_executor_Inr run_bind_Inr
    by (auto simp: run_bind_Inr run_fail_def faulty_read_Inr faulty_write_Inr with_uuid_Inr split: if_splits dest: lock_subscription_Inr)
  from lock_subscription_Inr [OF lock] upsert_approval_Inr [OF put] room i
  have "s \<in> set (bi_Subscriptions db)" "fits x s" "live_channels (su_ID s) db \<le> cp_MaxChannelPasses x"
    "db' = db\<lparr>bi_Approvals := put_approval x (bi_Approvals db)\<rparr>"
    by (auto simp: fits_def)
  then show "(billing_change canon)\<^sup>*\<^sup>* db db'" by (auto intro!: r_into_rtranclp billing_change.approved)
qed

section \<open>Histories\<close>

datatype billing_call =
    Open_Subscription subscription_create
  | Record_Payment payment_request
  | Cancel_Subscription string string string time
  | Mark_Expired string time
  | Expire_Due time int
  | Override_Budget string int string string time
  | Sell_Addon addon_create
  | Pay_Addon addon_payment_request
  | Cancel_Addon string string string time
  | Approve_Capacity capacity_approval
  | Elsewhere "counted list" "counted list" "counted list" "string list" "string list"

fun billing_exec :: "billing_env \<Rightarrow> billing_call \<Rightarrow> billing_db \<Rightarrow> billing_db" where
  "billing_exec env (Open_Subscription c) db = snd (create_subscription env c db)"
| "billing_exec env (Record_Payment q) db = snd (record_payment env q db)"
| "billing_exec env (Cancel_Subscription i reason who now) db = snd (cancel_subscription env i reason who now db)"
| "billing_exec env (Mark_Expired i now) db = snd (mark_expired env i now db)"
| "billing_exec env (Expire_Due now limit) db = snd (expire_due_subscriptions env now limit db)"
| "billing_exec env (Override_Budget i budget reason who now) db = snd (apply_cost_budget_override env i budget reason who now db)"
| "billing_exec env (Sell_Addon c) db = snd (create_pending_addon env c db)"
| "billing_exec env (Pay_Addon p) db = snd (record_addon_payment env p db)"
| "billing_exec env (Cancel_Addon i who reason now) db = snd (cancel_addon env i who reason now db)"
| "billing_exec env (Approve_Capacity v) db = snd (approve_channel_pass_capacity env v db)"
| "billing_exec env (Elsewhere items channels members businesses plans) db =
     db\<lparr>bi_CatalogItems := items, bi_Channels := channels, bi_Members := members, bi_Businesses := businesses, bi_Plans := plans\<rparr>"

definition billing_history :: "(billing_env \<times> billing_call) list \<Rightarrow> billing_db \<Rightarrow> billing_db" where
  "billing_history calls db = fold (\<lambda>(env, c). billing_exec env c) calls db"

lemma exec_changes:
  assumes canon: "pg_uuid (be_Pg env) = canon" "\<And>t u. canon t = Some u \<Longrightarrow> canon u = Some u" and ok: "billing_ok canon db"
  shows "(billing_change canon)\<^sup>*\<^sup>* db (billing_exec env c db)"
proof (cases c)
  case (Open_Subscription x)
  then show ?thesis using bill_reaches_create [OF canon, where c = x and db = db] by (simp add: bc.reaches_def)
next
  case (Record_Payment x)
  then show ?thesis using bill_reaches_record_payment [OF canon(1) ok, of x] by (simp add: bc.reaches_def)
next
  case (Cancel_Subscription i reason who now)
  then show ?thesis using bill_reaches_cancel [of canon env i reason who now db] by (simp add: bc.reaches_def)
next
  case (Mark_Expired i now)
  then show ?thesis using bill_reaches_mark_expired [of canon env i now db] by (simp add: bc.reaches_def)
next
  case (Expire_Due now limit)
  then show ?thesis using bill_reaches_expire_due [OF ok, of env now limit] by (simp add: bc.reaches_def)
next
  case (Override_Budget i budget reason who now)
  then show ?thesis using bill_reaches_override [of canon env i budget reason who now db] by (simp add: bc.reaches_def)
next
  case (Sell_Addon x)
  then show ?thesis using bill_reaches_create_addon [of canon env x db] by (simp add: bc.reaches_def)
next
  case (Pay_Addon x)
  then show ?thesis using bill_reaches_pay_addon [OF canon(1) ok, of x] by (simp add: bc.reaches_def)
next
  case (Cancel_Addon i who reason now)
  then show ?thesis using bill_reaches_cancel_addon [OF canon(1) ok, of i who reason now] by (simp add: bc.reaches_def)
next
  case (Approve_Capacity x)
  then show ?thesis using bill_reaches_approve [OF canon(1), of x db] by (simp add: bc.reaches_def)
next
  case (Elsewhere items channels members businesses plans)
  then show ?thesis using billing_change.elsewhere by (simp add: r_into_rtranclp)
qed

lemma history_changes:
  assumes "\<forall>(env, c) \<in> set calls. pg_uuid (be_Pg env) = canon" "\<And>t u. canon t = Some u \<Longrightarrow> canon u = Some u" "billing_ok canon db"
  shows "(billing_change canon)\<^sup>*\<^sup>* db (billing_history calls db)"
  using assms(1,3)
proof (induction calls arbitrary: db)
  case (Cons call calls)
  obtain env c where call: "call = (env, c)" by fastforce
  with Cons.prems have "pg_uuid (be_Pg env) = canon" by simp
  then have one: "(billing_change canon)\<^sup>*\<^sup>* db (billing_exec env c db)"
    by (rule exec_changes [OF _ _ Cons.prems(2)]) (rule assms(2))
  moreover have "(billing_change canon)\<^sup>*\<^sup>* (billing_exec env c db) (billing_history calls (billing_exec env c db))"
    using Cons.prems changes_keep [OF one] by (intro Cons.IH) simp_all
  ultimately show ?case by (simp add: billing_history_def call)
qed (simp add: billing_history_def)

text \<open>A database without subscriptions is a start.\<close>

lemma billing_ok_empty:
  "bi_Subscriptions db = [] \<Longrightarrow> bi_Payments db = [] \<Longrightarrow> bi_Addons db = [] \<Longrightarrow> bi_AddonPayments db = [] \<Longrightarrow> bi_Approvals db = [] \<Longrightarrow>
     billing_ok canon db"
  by (simp add: billing_ok_def subscriptions_ok_def payments_ok_def addons_ok_def addon_payments_ok_def capacity_ok_def
      live_channels_def active_delta_def)

text \<open>The channels of a plan and the passes that are offered or sold on top stay below its ceiling.\<close>

lemma channels_below_ceiling:
  assumes ok: "billing_ok canon db" and s: "s \<in> set (bi_Subscriptions db)"
  shows "su_ChannelLimit s + live_channels (su_ID s) db \<le> su_ChannelCeiling s"
proof (cases "live_channels (su_ID s) db > 0")
  case True
  with ok obtain x where "x \<in> set (bi_Approvals db)" "cp_SubscriptionID x = su_ID s" "live_channels (su_ID s) db \<le> cp_MaxChannelPasses x"
    unfolding billing_ok_def capacity_ok_def by blast
  moreover from this(1) ok obtain t where "t \<in> set (bi_Subscriptions db)" "fits x t" unfolding billing_ok_def capacity_ok_def by blast
  ultimately show ?thesis using subscription_unique [OF ok _ s, of t] unfolding fits_def by fastforce
next
  case False
  moreover have "su_ChannelLimit s \<le> su_ChannelCeiling s"
    using ok s unfolding billing_ok_def subscriptions_ok_def row_ok_def subscription_checks_def by blast
  ultimately show ?thesis by simp
qed

section \<open>Properties\<close>

text \<open>C36: Whatever calls are made, with whatever failures, subscriptions have one active and one pending period for a business
  and their live periods do not overlap; a subscription that is or was active is paid once and in full, and one that is pending
  is unpaid; an add-on is live only under an active subscription and activated only if paid in full; the channel passes fit the
  approved capacity, and with the plan's channels they stay below its ceiling.\<close>

theorem billing_history_consistent:
  assumes "\<forall>(env, c) \<in> set calls. pg_uuid (be_Pg env) = canon" and "\<forall>t u. canon t = Some u \<longrightarrow> canon u = Some u"
    and "billing_ok canon db"
  shows "billing_ok canon (billing_history calls db) \<and>
     (\<forall>s \<in> set (bi_Subscriptions (billing_history calls db)).
        su_ChannelLimit s + live_channels (su_ID s) (billing_history calls db) \<le> su_ChannelCeiling s)"
proof -
  have "(billing_change canon)\<^sup>*\<^sup>* db (billing_history calls db)"
    by (rule history_changes [OF assms(1) _ assms(3)]) (use assms(2) in blast)
  from changes_keep [OF this assms(3)] show ?thesis using channels_below_ceiling by blast
qed

text \<open>C37: A recorded payment is never changed or removed, the terms of a subscription and of an add-on (its price, its period,
  its limits) are never changed, a pending row may become active, and a row that is cancelled or expired stays so.\<close>

theorem billing_history_continues:
  assumes "\<forall>(env, c) \<in> set calls. pg_uuid (be_Pg env) = canon" and "\<forall>t u. canon t = Some u \<longrightarrow> canon u = Some u"
    and "billing_ok canon db"
  shows "continues db (billing_history calls db)"
proof (rule changes_continue [OF _ assms(3)])
  show "(billing_change canon)\<^sup>*\<^sup>* db (billing_history calls db)"
    by (rule history_changes [OF assms(1) _ assms(3)]) (use assms(2) in blast)
qed

text \<open>C38: A payment that is answered as recorded pays a subscription exactly what is due. Either it was recorded before and the
  subscription is active, and nothing changes; or the subscription was pending, its period is running, what its business has in
  use fits the plan, and it is active afterwards with this payment as the last one on record.\<close>

theorem record_payment_activates:
  assumes "pg_uuid (be_Pg env) = canon" and "billing_ok canon db" and "record_payment env q db = (Inr p, db')"
  shows "\<exists>s \<in> set (bi_Subscriptions db).
     canon (trim_space (pq_SubscriptionID q)) = Some (su_ID s) \<and> pays p s \<and> pq_AmountYER q = su_AmountDueYER s \<and>
     ((su_Status s = ''ACTIVE'' \<and> p \<in> set (bi_Payments db) \<and> db' = db) \<or>
      (su_Status s = ''PENDING'' \<and> su_PeriodStart s \<le> go_now (be_Pg env) \<and> go_now (be_Pg env) < su_PeriodEnd s \<and> within_plan s db \<and>
       bi_Payments db' = bi_Payments db @ [p] \<and>
       (\<exists>s' \<in> set (bi_Subscriptions db'). later s s' \<and> su_Status s' = ''ACTIVE'' \<and>
          su_ActivatedAt s' = Some (ts env (now_or_clock env (go_now (be_Pg env)))))))"
proof -
  obtain paidAt where run: "pay_and_activate env q paidAt (go_now (be_Pg env)) db = (Inr p, db')"
    using assms(3) unfolding record_payment_def by (auto simp: run_fail_def split: option.splits dest: within_Inr)
  show ?thesis
  proof (rule pay_and_activate_Inr [OF assms(1,2) run], goal_cases)
    case (1 s)
    then show ?case by blast
  next
    case (2 s)
    let ?at = "ts env (now_or_clock env (go_now (be_Pg env)))"
    have "activated ?at s \<in> set (bi_Subscriptions db')"
      unfolding 2(11) using 2(1) by (auto simp: set_update_where image_iff)
    moreover have "later s (activated ?at s)"
      using assms(2) 2(1,5) pending_unpaid [of s] unfolding billing_ok_def subscriptions_ok_def row_ok_def by (intro set_later) blast+
    moreover have "su_Status (activated ?at s) = ''ACTIVE''" "su_ActivatedAt (activated ?at s) = Some ?at" by (simp_all add: activated_def)
    moreover have "bi_Payments db' = bi_Payments db @ [p]" unfolding 2(11) by simp
    ultimately show ?case using 2(1-8) by blast
  qed
qed

section \<open>Examples\<close>

definition billing_sample_env :: "string \<Rightarrow> time \<Rightarrow> billing_env" where
  "billing_sample_env new now =
     \<lparr>be_Pg = \<lparr>pg_now = now, go_now = now, pg_uuid = Some, pg_ts = (\<lambda>t. t div 1000 * 1000), pg_executor = None, pg_write_fault = None,
        pg_read_fault = None\<rparr>,
      be_Tx = \<lparr>tx_ctx_err = None, tx_closed = False, tx_nested = False, tx_begin_err = None, tx_rollback_err = None, tx_commit_err = None\<rparr>,
      be_Unset = False, be_Fault = (\<lambda>_. None), be_NewID = new, be_Locked = []\<rparr>"

definition billing_sample_db :: billing_db where
  "billing_sample_db = \<lparr>bi_Subscriptions = [], bi_Payments = [], bi_Addons = [], bi_AddonPayments = [], bi_Approvals = [],
     bi_Businesses = [''b''], bi_Plans = [''p''], bi_CatalogItems = [], bi_Channels = [(''b'', ''c1'', ''active'')],
     bi_Members = [(''b'', ''o'', ''active'')]\<rparr>"

definition sample_subscription :: "string \<Rightarrow> time \<Rightarrow> subscription_create" where
  "sample_subscription i start = \<lparr>sc_ID = i, sc_BusinessID = ''b'', sc_PlanID = ''p'', sc_PriceYERSnapshot = 10000, sc_AmountDueYER = 10000,
     sc_PeriodStart = start, sc_PeriodEnd = start + 30000, sc_AIReplyLimit = 500, sc_AICatalogLimit = 200, sc_ChannelLimit = 1,
     sc_ChannelCeiling = 2, sc_SeatLimit = 3, sc_InternalAICostBudgetYER = 2000, sc_Now = start\<rparr>"

definition sample_payment :: "string \<Rightarrow> time \<Rightarrow> payment_request" where
  "sample_payment i at = \<lparr>pq_SubscriptionID = i, pq_AmountYER = 10000, pq_Method = ''cash'', pq_Reference = ''r1'',
     pq_IdempotencyKey = ''k1'', pq_PaidAt = Some at, pq_AdminID = ''admin''\<rparr>"

definition sample_calls :: "(billing_env \<times> billing_call) list" where
  "sample_calls =
     [(billing_sample_env ''x'' 10000, Open_Subscription (sample_subscription ''s1'' 10000)),
      (billing_sample_env ''pay'' 12000, Record_Payment (sample_payment ''s1'' 12000)),
      (billing_sample_env ''x'' 13000, Approve_Capacity \<lparr>cp_SubscriptionID = ''s1'', cp_BusinessID = ''b'', cp_MaxChannelPasses = 1,
         cp_Reason = ''checked'', cp_ApprovedBy = ''admin'', cp_Now = 13000\<rparr>),
      (billing_sample_env ''a1'' 14000, Sell_Addon \<lparr>nd_SubscriptionID = ''s1'', nd_BusinessID = ''b'', nd_Kind = ''channel_pass'',
         nd_CreatedBy = ''admin'', nd_IdempotencyKey = ''n1'', nd_Now = 14000\<rparr>),
      (billing_sample_env ''a2'' 14000, Sell_Addon \<lparr>nd_SubscriptionID = ''s1'', nd_BusinessID = ''b'', nd_Kind = ''CHANNEL_PASS'',
         nd_CreatedBy = ''admin'', nd_IdempotencyKey = ''n2'', nd_Now = 14000\<rparr>),
      (billing_sample_env ''ap'' 15000, Pay_Addon \<lparr>aq_AddonID = ''a1'', aq_RecordedBy = ''admin'', aq_IdempotencyKey = ''k2'',
         aq_Method = ''CASH'', aq_Reference = ''r2'', aq_AmountYER = 5000, aq_PaidAt = 15000, aq_Now = 15000\<rparr>)]"

lemma sample_calls_read: "\<forall>(env, c) \<in> set sample_calls. pg_uuid (be_Pg env) = Some"
  by (simp add: sample_calls_def billing_sample_env_def)

lemma sample_start: "billing_ok canon billing_sample_db"
  by (rule billing_ok_empty) (simp_all add: billing_sample_db_def)

text \<open>A subscription is opened and paid, one pass is approved and paid, and a second pass is refused.\<close>

lemma billing_history_consistent_witness:
  "billing_ok Some (billing_history sample_calls billing_sample_db) \<and>
   (let db = billing_history sample_calls billing_sample_db in
      map su_Status (bi_Subscriptions db) = [''ACTIVE''] \<and> length (bi_Payments db) = 1 \<and> map ad_Status (bi_Addons db) = [''ACTIVE''] \<and>
      live_channels ''s1'' db = 1)"
proof
  show "billing_ok Some (billing_history sample_calls billing_sample_db)"
    using billing_history_consistent [OF sample_calls_read _ sample_start] by simp
qed code_simp

text \<open>Afterwards the period ends.\<close>

definition sample_end :: "(billing_env \<times> billing_call) list" where
  "sample_end = [(billing_sample_env ''x'' 50000, Expire_Due 50000 0)]"

lemma billing_history_continues_witness:
  "continues (billing_history sample_calls billing_sample_db) (billing_history sample_end (billing_history sample_calls billing_sample_db)) \<and>
   (let db = billing_history sample_end (billing_history sample_calls billing_sample_db) in
      map su_Status (bi_Subscriptions db) = [''EXPIRED''] \<and> map ad_Status (bi_Addons db) = [''CANCELLED''])"
proof
  have "billing_ok Some (billing_history sample_calls billing_sample_db)"
    by (rule changes_keep [OF history_changes sample_start]) (simp_all add: sample_calls_read sample_start)
  moreover have "\<forall>(env, c) \<in> set sample_end. pg_uuid (be_Pg env) = Some" by (simp add: sample_end_def billing_sample_env_def)
  ultimately show "continues (billing_history sample_calls billing_sample_db)
      (billing_history sample_end (billing_history sample_calls billing_sample_db))"
    using billing_history_continues by blast
qed code_simp

definition sample_pending :: billing_db where
  "sample_pending = snd (create_subscription (billing_sample_env ''x'' 10000) (sample_subscription ''s1'' 10000) billing_sample_db)"

lemma sample_pending_ok: "billing_ok Some sample_pending"
proof -
  have "(billing_change Some)\<^sup>*\<^sup>* billing_sample_db
      (billing_exec (billing_sample_env ''x'' 10000) (Open_Subscription (sample_subscription ''s1'' 10000)) billing_sample_db)"
    by (rule exec_changes [OF _ _ sample_start]) (simp_all add: billing_sample_env_def)
  from changes_keep [OF this sample_start] show ?thesis by (simp add: sample_pending_def)
qed

lemma record_payment_activates_witness:
  "\<exists>p db' s. record_payment (billing_sample_env ''pay'' 12000) (sample_payment ''s1'' 12000) sample_pending = (Inr p, db') \<and>
     s \<in> set (bi_Subscriptions sample_pending) \<and> pays p s \<and> bi_Payments db' = [p] \<and> su_AmountDueYER s = 10000"
proof -
  obtain r db' where run: "record_payment (billing_sample_env ''pay'' 12000) (sample_payment ''s1'' 12000) sample_pending = (r, db')"
    by fastforce
  have "case fst (record_payment (billing_sample_env ''pay'' 12000) (sample_payment ''s1'' 12000) sample_pending) of
      Inl e \<Rightarrow> False | Inr p \<Rightarrow> True" by code_simp
  with run obtain p where p: "r = Inr p" by (cases r) simp_all
  have "bi_Payments sample_pending = []" by code_simp
  moreover have "pq_AmountYER (sample_payment ''s1'' 12000) = 10000" by (simp add: sample_payment_def)
  moreover have "pg_uuid (be_Pg (billing_sample_env ''pay'' 12000)) = Some" by (simp add: billing_sample_env_def)
  ultimately show ?thesis
    using record_payment_activates [OF _ sample_pending_ok run [unfolded p]] run p by fastforce
qed

text \<open>What the rules leave open, on the same data. An overlap that the store calls a conflict is answered as invalid input.\<close>

definition error_of :: "'a result \<times> 'b \<Rightarrow> repo_kind option" where
  "error_of r = (case fst r of Inl e \<Rightarrow> repository_kind e | Inr _ \<Rightarrow> None)"

lemma overlap_answered_as_invalid:
  "error_of (create_subscription (billing_sample_env ''x'' 10000) (sample_subscription ''s2'' 20000) sample_pending) = Some RepositoryInvalid"
  by code_simp

text \<open>An expired subscription is given another cost budget.\<close>

lemma expired_budget_overridden:
  "map (\<lambda>s. (su_Status s, su_CostBudgetOverrideYER s)) (bi_Subscriptions
     (billing_exec (billing_sample_env ''x'' 60000) (Override_Budget ''s1'' 9000 ''late'' ''admin'' 60000)
       (billing_history sample_end (billing_history sample_calls billing_sample_db)))) = [(''EXPIRED'', Some 9000)]"
  by code_simp

text \<open>The same request is recorded once and, when it is sent again with a time below the resolution of the table, refused.\<close>

lemma payment_retry_refused:
  "let q = sample_payment ''s1'' 12345; (r, db) = record_payment (billing_sample_env ''pay'' 13000) q sample_pending in
     error_of (r, db) = None \<and> error_of (record_payment (billing_sample_env ''pay2'' 14000) q db) = Some RepositoryConflict"
  by code_simp

text \<open>A subscription that is never paid stays pending after its period and keeps the next one from being opened.\<close>

lemma unpaid_blocks_next:
  "let (r, db) = expire_due_subscriptions (billing_sample_env ''x'' 90000) 90000 0 sample_pending in
     map su_Status (bi_Subscriptions db) = [''PENDING''] \<and>
     error_of (create_subscription (billing_sample_env ''x'' 90000) (sample_subscription ''s2'' 90000) db) = Some RepositoryConflict"
  by code_simp

end
