(* ===== verification/Spec2Isabelle.thy ===== *)
theory Spec2Isabelle
  imports Authorization Attribute_Validation Catalog_Evaluation Webhook_Ingestion Auto_Reply_Pool Team_Services AI_Run_Lifecycle
    Authentication Billing
begin

text \<open>
  Verification of the core of the Mujeeb24 backend, a multi-tenant messaging service in Go: merchants connect channels,
  customers write to them, a language model answers from the merchant's catalog, and the team of the merchant takes
  over where needed. Paths below are relative to \<^verbatim>\<open>src/internal\<close>.

  \<^bold>\<open>How the parts interact.\<close> A provider's delivery reaches \<^verbatim>\<open>SocialAPIWebhookService.Handle\<close>. It verifies the signature,
  resolves the connection, records each event in the inbound ledger, applies delivery callbacks to outbound messages
  or stores the customer's message, and hands an automatic reply to the worker pool. The reply evaluates the whole
  catalog: the projection is read page by page, split into batches that fit the token budget, each batch is answered
  by the model and checked, the candidates are merged and a final decision is taken on an unchanged catalog revision;
  every model call is accounted for. A message to send is an outbox entry; the outbox processor claims it under a
  lease, resolves the delivery and sends it at most once. Every merchant request is guarded by permissions and roles,
  which the team services hand out.

  \<^bold>\<open>Foundations.\<close>
  \<^item> \<open>Go_Prelude\<close>: strings as bytes (\<^verbatim>\<open>TrimSpace\<close>, \<^verbatim>\<open>ToLower\<close>), instants, error values, runs (state passing with errors),
    tables as lists, Go maps as sorted association lists, 64-bit integers.
  \<^item> \<open>Observed_Runs\<close>: runs of services whose collaborators are parameters, with the list of what was asked of them; the
    locale \<open>observation_law\<close> gives the rules by which such a list is shown to obey a law of order.
  \<^item> \<open>Postgres\<close>: classification of database errors, statement shapes with their failures, \<^verbatim>\<open>Adapter.Within\<close>.
  \<^item> \<open>Leases\<close>: the locale \<open>leased_rows\<close>, the contract of a table worked on under leases, interpreted by the outbox and by
    the inbound ledger.
  \<^item> \<open>Check_Then_Act\<close>: operations that check and write in two statements, in every interleaving; the locale
    \<open>check_then_act\<close> gives the invariants that survive, interpreted by the lifecycle of AI runs.
  \<^item> \<open>Store_Changes\<close>: the locale \<open>state_changes\<close>, by which the calls of a store are shown to make only permitted changes,
    however they end; the laws of the team extend it and the laws of billing interpret it.

  \<^bold>\<open>Components.\<close>
  \<^item> \<open>Authorization\<close>: \<^verbatim>\<open>application/authorization\<close>, \<^verbatim>\<open>services/team_roles.go\<close>, \<^verbatim>\<open>services/business_ai_guard.go\<close>.
    Normalisation of permissions, the table of operations, who reads, answers and claims a conversation, and that the
    guard of the AI policy fails closed.
  \<^item> \<open>Authentication\<close>: \<^verbatim>\<open>services/authentication.go\<close>, \<^verbatim>\<open>postgres/authentication_repository.go\<close>. A refresh token is consumed at
    most once in every interleaving, a session is issued only to an active principal with a matching password or a live
    token, and the session is read back from its token.
  \<^item> \<open>Catalog_Projection\<close>, \<open>Catalog_Batching\<close>, \<open>Catalog_Evaluation\<close>: \<^verbatim>\<open>services/catalog_ai_projection.go\<close>,
    \<^verbatim>\<open>catalog_ai_runtime.go\<close>, \<^verbatim>\<open>catalog_semantic_projection.go\<close>, \<^verbatim>\<open>catalog_batch_controller.go\<close>, \<^verbatim>\<open>catalog_batch_budget.go\<close>,
    \<^verbatim>\<open>catalog_batch_coverage.go\<close>. The batches partition the catalog and fit the budget, splitting succeeds whenever single
    items fit, candidates are accepted exactly when they name what was shown, a result is only ever given for one
    revision of the catalog, and the evaluation returns.
  \<^item> \<open>Attribute_Validation\<close>: \<^verbatim>\<open>application/catalogvalidation\<close>. The validator accepts exactly the attributes that are well
    typed by the schema, whatever the order of the map.
  \<^item> \<open>AI_Usage\<close>: \<^verbatim>\<open>services/native_provider_spend.go\<close>, \<^verbatim>\<open>native_merchant_usage.go\<close>, \<^verbatim>\<open>ai_usage_provider.go\<close>. Prices are exact,
    rounded up and never wrap around.
  \<^item> \<open>Outbox\<close>, \<open>Message_Content\<close>, \<open>Outbound_Delivery\<close>: \<^verbatim>\<open>postgres/outbox_store.go\<close>, \<^verbatim>\<open>services/outbox_processor.go\<close>,
    \<^verbatim>\<open>outbound_delivery_resolver.go\<close> and the inline content references. Leases exclude each other, a completed entry is
    final, content survives its encoding, a claimed entry is sent at most once and then settled.
  \<^item> \<open>Inbound_Ledger\<close>, \<open>Delivery_Status\<close>: \<^verbatim>\<open>postgres/event_store.go\<close>, \<^verbatim>\<open>delivery_status_store.go\<close>. An event is recorded once,
    a callback is applied once, and the status of a message only moves forward where the code means it to.
  \<^item> \<open>Webhook_Ingestion\<close>: \<^verbatim>\<open>services/webhook_ingestion.go\<close>. Whatever the collaborators answer, the effects of a delivery come in
    the allowed order, and its errors are classified.
  \<^item> \<open>Auto_Reply_Pool\<close>: \<^verbatim>\<open>services/autoreply_worker_pool.go\<close> as a state machine over the atomic steps of the goroutines. It
    refines a bounded task store for every interleaving, and drains once it is stopped.
  \<^item> \<open>AI_Run_Lifecycle\<close>: \<^verbatim>\<open>services/ai_run_lifecycle.go\<close> and its part of \<^verbatim>\<open>postgres/ai_run_trace_repository.go\<close>. Calls one after
    another refine the machine of statuses; for every interleaving no stage comes before its predecessors and at most
    one run of a key is unfinished; a request resumes the unfinished run or creates one.
  \<^item> \<open>Team_Store\<close>, \<open>Team_Laws\<close>, \<open>Team_Services\<close>: \<^verbatim>\<open>postgres/team_repository.go\<close> and \<^verbatim>\<open>services/team_services.go\<close>. The locale
    \<open>team_policy\<close> says what one call may change; every operation is shown to be a sequence of such changes, and from
    it follow the origin of every grant, the protection of the last owner and the limit of seats.
  \<^item> \<open>Billing_Store\<close>, \<open>Billing_Laws\<close>, \<open>Billing\<close>: \<^verbatim>\<open>postgres/subscription_repository.go\<close>, \<^verbatim>\<open>payment_repository.go\<close>,
    \<^verbatim>\<open>subscription_addon_repository.go\<close> and the transaction of \<^verbatim>\<open>platformRecordPayment\<close>. Every operation is a sequence of the
    changes of a relation \<open>billing_change\<close>, which keeps the invariant \<open>billing_ok\<close> of the five tables: what is active is paid
    once and in full, live periods do not overlap, add-ons end with their subscription and channel passes fit the plan.

  \<^bold>\<open>Parameters, bounds and fuel.\<close> What is not under \<^verbatim>\<open>src/\<close> is a field of an environment record: the answers of the model
  and of the provider, digests, identifiers, the clock, the database's reading of identifiers and its failures. The loop
  over the pages of the catalog is a \<^verbatim>\<open>partial_function\<close> (not returning is \<open>None\<close>) and is shown to return when the
  reader's pages end; the final evaluation has at most three rounds by the code's own bound, and that is proved. Amounts and
  token counts are 64-bit words where the code checks for overflow.

  \<^bold>\<open>Not modelled.\<close> The HTTP adapter, the gateway to the models and its prompts, the provider's and the storage's
  clients, the realtime hub, configuration, migrations and commands are transport, text or construction of objects.
  The merchant assistant, the merchant catalog AI, the orchestration of an automatic reply, sales and catalog commands,
  channels, plans and the platform's administration are left to extensions of this development. Log lines are
  left out throughout, and a call on the database runs alone.
\<close>

end
